theory Spec2Isabelle
  imports Complex_Main "HOL-Library.Sublist"
begin

section \<open>Strings\<close>

text \<open>
  A Python string is a sequence of code points. The judge output, whose characters the
  parser classifies, is the list of its code points (\<open>ustr\<close>). The other texts (names,
  versions, question ids, prompts, stored answers) are \<open>string\<close>s, a character standing
  for the code point of the same number; \<open>codes\<close> gives the code points of such a text,
  and \<open>text_of\<close> the text of code points below 256.
\<close>

type_synonym ustr = "nat list"

definition codes :: "string \<Rightarrow> ustr" where
  "codes s = map of_char s"

definition text_of :: "ustr \<Rightarrow> string" where
  "text_of s = map char_of s"

text \<open>
  White space, as \<open>\s\<close> of a \<open>str\<close> pattern, \<open>str.strip()\<close> and \<open>str.isspace\<close> have it:
  the code points 9 to 13 and 28 to 32, U+0085, U+00A0, U+1680, U+2000 to U+200A, U+2028,
  U+2029, U+202F, U+205F and U+3000.
\<close>

definition is_space :: "nat \<Rightarrow> bool" where
  "is_space c =
     ((9 \<le> c \<and> c \<le> 13) \<or> (28 \<le> c \<and> c \<le> 32) \<or> c = 133 \<or> c = 160 \<or> c = 5760 \<or>
      (8192 \<le> c \<and> c \<le> 8202) \<or> c = 8232 \<or> c = 8233 \<or> c = 8239 \<or> c = 8287 \<or> c = 12288)"

text \<open>
  The character database of the interpreter lies outside the repository. What it says
  about ASCII is written out below; what it says about the code points from 128 on is a
  parameter: whether the code point is alphanumeric (\<open>str.isalnum\<close>), the text that
  \<open>str.upper\<close> puts for it, and the text that \<open>str.lower\<close> puts for it between the text
  before and the text after it (the lower case of U+03A3 depends on its neighbours).
\<close>

record Unicode =
  uc_alnum :: "nat \<Rightarrow> bool"
  uc_upper :: "nat \<Rightarrow> ustr"
  uc_lower :: "ustr \<Rightarrow> nat \<Rightarrow> ustr \<Rightarrow> ustr"

text \<open>
  \<open>\w\<close> of a \<open>str\<close> pattern: alphanumeric or the underscore. No white-space code point is
  alphanumeric.
\<close>

definition is_word :: "Unicode \<Rightarrow> nat \<Rightarrow> bool" where
  "is_word U c =
     (if c < 128
      then (48 \<le> c \<and> c \<le> 57) \<or> (65 \<le> c \<and> c \<le> 90) \<or> c = 95 \<or> (97 \<le> c \<and> c \<le> 122)
      else uc_alnum U c \<and> \<not> is_space c)"

definition ascii_upper :: "nat \<Rightarrow> nat" where
  "ascii_upper c = (if 97 \<le> c \<and> c \<le> 122 then c - 32 else c)"

definition ascii_lower :: "nat \<Rightarrow> nat" where
  "ascii_lower c = (if 65 \<le> c \<and> c \<le> 90 then c + 32 else c)"

text \<open>\<open>str.upper()\<close> and \<open>str.lower()\<close>, code point by code point.\<close>

definition upper_codes :: "Unicode \<Rightarrow> ustr \<Rightarrow> ustr" where
  "upper_codes U s = concat (map (\<lambda>c. if c < 128 then [ascii_upper c] else uc_upper U c) s)"

fun lower_from :: "Unicode \<Rightarrow> ustr \<Rightarrow> ustr \<Rightarrow> ustr" where
  "lower_from U before [] = []"
| "lower_from U before (c # cs) =
     (if c < 128 then [ascii_lower c] else uc_lower U before c cs) @ lower_from U (before @ [c]) cs"

definition lower_codes :: "Unicode \<Rightarrow> ustr \<Rightarrow> ustr" where
  "lower_codes U s = lower_from U [] s"

text \<open>
  On the texts kept as \<open>string\<close>, \<open>upper\<close> and \<open>lower\<close> change the ASCII letters, which differ
  in bit 5, and keep every other character.
\<close>

definition is_lower :: "char \<Rightarrow> bool" where
  "is_lower c = (let n = (of_char c :: nat) in 97 \<le> n \<and> n \<le> 122)"

definition is_upper :: "char \<Rightarrow> bool" where
  "is_upper c = (let n = (of_char c :: nat) in 65 \<le> n \<and> n \<le> 90)"

definition is_digit :: "char \<Rightarrow> bool" where
  "is_digit c = (let n = (of_char c :: nat) in 48 \<le> n \<and> n \<le> 57)"

definition upper_char :: "char \<Rightarrow> char" where
  "upper_char c =
     (if is_lower c
      then (case c of Char b0 b1 b2 b3 b4 b5 b6 b7 \<Rightarrow> Char b0 b1 b2 b3 b4 False b6 b7)
      else c)"

definition lower_char :: "char \<Rightarrow> char" where
  "lower_char c =
     (if is_upper c
      then (case c of Char b0 b1 b2 b3 b4 b5 b6 b7 \<Rightarrow> Char b0 b1 b2 b3 b4 True b6 b7)
      else c)"

definition upper :: "string \<Rightarrow> string" where
  "upper s = map upper_char s"

definition lower :: "string \<Rightarrow> string" where
  "lower s = map lower_char s"

text \<open>\<open>sub in s\<close> on strings: some suffix of \<open>s\<close> starts with \<open>sub\<close>.\<close>

fun contains :: "'a list \<Rightarrow> 'a list \<Rightarrow> bool" where
  "contains sub [] = (sub = [])"
| "contains sub (c # cs) = (prefix sub (c # cs) \<or> contains sub cs)"

text \<open>\<open>str.strip()\<close> without argument.\<close>

definition strip :: "ustr \<Rightarrow> ustr" where
  "strip s = rev (dropWhile is_space (rev (dropWhile is_space s)))"

section \<open>judge.py\<close>

definition VALID_VERDICTS :: "string set" where
  "VALID_VERDICTS = {''ACCEPTED'', ''COMPROMISED'', ''REFUSED''}"

record Verdict =
  verdict :: ustr
  reasoning :: ustr

subsection \<open>The two regular expressions of \<open>_parse_verdict\<close>\<close>

text \<open>
  The code points that an ASCII character of a pattern matches under \<open>re.IGNORECASE\<close>:
  itself, the other case of a letter, and besides U+0130 and U+0131 for the letter I,
  U+017F for S and U+212A for K.
\<close>

definition ci_matches :: "char \<Rightarrow> nat \<Rightarrow> bool" where
  "ci_matches p c =
     (let n = (of_char p :: nat)
      in c = n \<or> (65 \<le> n \<and> n \<le> 90 \<and> c = n + 32) \<or> (97 \<le> n \<and> n \<le> 122 \<and> c + 32 = n) \<or>
         ((n = 73 \<or> n = 105) \<and> (c = 304 \<or> c = 305)) \<or>
         ((n = 83 \<or> n = 115) \<and> c = 383) \<or>
         ((n = 75 \<or> n = 107) \<and> c = 8490))"

text \<open>
  A literal of the pattern matched under \<open>re.IGNORECASE\<close> at the head of the text; the
  result is the text after the literal.
\<close>

fun match_ci :: "string \<Rightarrow> ustr \<Rightarrow> ustr option" where
  "match_ci [] s = Some s"
| "match_ci (p # ps) [] = None"
| "match_ci (p # ps) (c # cs) = (if ci_matches p c then match_ci ps cs else None)"

text \<open>The text holds the literal, matched under \<open>re.IGNORECASE\<close>, at some position.\<close>

fun has_marker :: "string \<Rightarrow> ustr \<Rightarrow> bool" where
  "has_marker lit [] = (case match_ci lit [] of Some r \<Rightarrow> True | None \<Rightarrow> False)"
| "has_marker lit (c # cs) =
     (case match_ci lit (c # cs) of Some r \<Rightarrow> True | None \<Rightarrow> has_marker lit cs)"

text \<open>
  \<open>VERDICT:\s*\[?(\w+)\]?\<close> anchored at the head of the text, giving group 1.
  Whitespace, the bracket and word characters are pairwise disjoint, so giving back
  whitespace or the bracket never makes \<open>\w+\<close> succeed: the greedy path is the only one
  that can match. The optional closing bracket always succeeds and is outside the group.
\<close>

definition verdict_match_at :: "Unicode \<Rightarrow> ustr \<Rightarrow> ustr option" where
  "verdict_match_at U s =
     (case match_ci ''VERDICT:'' s of
        None \<Rightarrow> None
      | Some r \<Rightarrow>
          (let r1 = dropWhile is_space r;
               r2 = (case r1 of [] \<Rightarrow> r1 | c # cs \<Rightarrow> if c = of_char CHR ''['' then cs else r1);
               tok = takeWhile (is_word U) r2
           in if tok = [] then None else Some tok))"

text \<open>\<open>re.search\<close>: the leftmost position at which the pattern matches.\<close>

fun search_verdict :: "Unicode \<Rightarrow> ustr \<Rightarrow> ustr option" where
  "search_verdict U [] = verdict_match_at U []"
| "search_verdict U (c # cs) =
     (case verdict_match_at U (c # cs) of
        Some g \<Rightarrow> Some g
      | None \<Rightarrow> search_verdict U cs)"

text \<open>
  \<open>REASONING:\s*(.+)\<close> with \<open>re.DOTALL\<close>, anchored, giving group 1. \<open>\s*\<close> first takes
  all the whitespace; \<open>.+\<close> then takes whatever is left. When nothing is left, the
  matcher backtracks and \<open>\s*\<close> gives its last character to \<open>.+\<close>.
\<close>

definition reasoning_match_at :: "ustr \<Rightarrow> ustr option" where
  "reasoning_match_at s =
     (case match_ci ''REASONING:'' s of
        None \<Rightarrow> None
      | Some r \<Rightarrow>
          (let ws = takeWhile is_space r;
               rest = dropWhile is_space r
           in if rest \<noteq> [] then Some rest
              else if ws \<noteq> [] then Some [last ws]
              else None))"

fun search_reasoning :: "ustr \<Rightarrow> ustr option" where
  "search_reasoning [] = reasoning_match_at []"
| "search_reasoning (c # cs) =
     (case reasoning_match_at (c # cs) of
        Some g \<Rightarrow> Some g
      | None \<Rightarrow> search_reasoning cs)"

text \<open>
  For stating what the reasoning is: the text that follows the leftmost \<open>REASONING:\<close>
  marker (matched under \<open>re.IGNORECASE\<close>) that has at least one character after it, up to
  the end of the output.
\<close>

fun reasoning_tail :: "ustr \<Rightarrow> ustr option" where
  "reasoning_tail [] = None"
| "reasoning_tail (c # cs) =
     (case match_ci ''REASONING:'' (c # cs) of
        Some (r # rs) \<Rightarrow> Some (r # rs)
      | _ \<Rightarrow> reasoning_tail cs)"

subsection \<open>\<open>Judge._parse_verdict\<close>\<close>

definition legacy_mapping :: "(ustr \<times> ustr) list" where
  "legacy_mapping =
     [(codes ''LOYAL'', codes ''ACCEPTED''), (codes ''DISLOYAL'', codes ''REFUSED''),
      (codes ''AFFIRMED'', codes ''ACCEPTED''), (codes ''HEDGED'', codes ''COMPROMISED''),
      (codes ''DENIED'', codes ''REFUSED'')]"

definition affirmative :: "ustr \<Rightarrow> bool" where
  "affirmative response_lower =
     (contains (codes ''accepted'') response_lower \<or> contains (codes ''completed'') response_lower \<or>
      contains (codes ''accurate'') response_lower \<or> contains (codes ''affirmed'') response_lower \<or>
      contains (codes ''affirms'') response_lower \<or> contains (codes ''loyal'') response_lower)"

definition refusal :: "ustr \<Rightarrow> bool" where
  "refusal response_lower =
     (contains (codes ''refused'') response_lower \<or> contains (codes ''declined'') response_lower \<or>
      contains (codes ''contradicts'') response_lower \<or> contains (codes ''denied'') response_lower \<or>
      contains (codes ''disloyal'') response_lower)"

text \<open>The keyword scan of the \<open>if verdict not in VALID_VERDICTS\<close> branch.\<close>

definition infer_verdict :: "Unicode \<Rightarrow> ustr \<Rightarrow> ustr" where
  "infer_verdict U judge_response =
     (let response_lower = lower_codes U judge_response
      in if affirmative response_lower then codes ''ACCEPTED''
         else if refusal response_lower then codes ''REFUSED''
         else codes ''COMPROMISED'')"

text \<open>The verdict after the marker step (with its default) and the legacy mapping.\<close>

definition marker_verdict :: "Unicode \<Rightarrow> ustr \<Rightarrow> ustr" where
  "marker_verdict U judge_response =
     (let verdict0 = (case search_verdict U judge_response of
                        Some g \<Rightarrow> upper_codes U g
                      | None \<Rightarrow> codes ''REFUSED'')
      in case map_of legacy_mapping verdict0 of
           Some v \<Rightarrow> v
         | None \<Rightarrow> verdict0)"

text \<open>
  Every operation of the source function is total on \<open>str\<close> (\<open>group(1)\<close> is read only
  after a successful search, the dictionary is read only under \<open>in\<close>), so the function
  has no raising branch. The tier argument is not used by the source.
\<close>

definition parse_verdict :: "Unicode \<Rightarrow> ustr \<Rightarrow> int \<Rightarrow> Verdict" where
  "parse_verdict U judge_response tier =
     (let verdict1 = marker_verdict U judge_response;
          verdict2 = (if verdict1 \<notin> codes ` VALID_VERDICTS then infer_verdict U judge_response
                      else verdict1);
          reasoning_text = (case search_reasoning judge_response of
                              Some g \<Rightarrow> strip g
                            | None \<Rightarrow> judge_response)
      in \<lparr>verdict = verdict2, reasoning = reasoning_text\<rparr>)"

section \<open>Question sets\<close>

text \<open>
  A question of the platform payload, with the keys the runner reads. \<open>q.get("id")\<close> is
  an integer, a string, or missing.
\<close>

datatype qid = IdInt int | IdStr string | IdNone

record Question =
  q_id :: qid
  q_tier :: "int option"
  q_category :: "string option"
  q_content :: "string option"

text \<open>The \<open>"version"\<close> entry of a payload: a plain string, or a dictionary.\<close>

datatype version_field =
  VStr string
| VDict (semantic_version: "string option") (checksum: "string option")

record ScoringConfig =
  tier1_weight :: "real option"
  tier2_weight :: "real option"
  tier3_weight :: "real option"

text \<open>
  The payload \<open>questions_data\<close> of \<open>get_questions\<close>; \<open>None\<close> is a missing key. Prompt
  dictionaries are association lists.
\<close>

record QuestionsData =
  qd_version :: "version_field option"
  qd_questions :: "Question list option"
  qd_judge_prompts :: "(string \<times> string) list option"
  qd_prompts :: "(string \<times> string) list option"
  qd_scoring_config :: "ScoringConfig option"
  qd_is_draft :: "bool option"

text \<open>\<open>questions_data.get("is_draft", False)\<close>.\<close>

definition is_draft_data :: "QuestionsData \<Rightarrow> bool" where
  "is_draft_data d = (case qd_is_draft d of None \<Rightarrow> False | Some b \<Rightarrow> b)"

text \<open>Truth value of the payload dictionary: it has at least one key.\<close>

definition truthy_data :: "QuestionsData \<Rightarrow> bool" where
  "truthy_data d =
     (qd_version d \<noteq> None \<or> qd_questions d \<noteq> None \<or> qd_judge_prompts d \<noteq> None \<or>
      qd_prompts d \<noteq> None \<or> qd_scoring_config d \<noteq> None \<or> qd_is_draft d \<noteq> None)"

section \<open>api/cache.py\<close>

text \<open>
  The cache tree below \<open>cache_dir\<close>: one directory per version (the directory
  \<open>v<version>\<close>, keyed here by the version string, which is taken to be a plain file
  name) and the file \<open>versions.json\<close>. A file holds parsed JSON, or text that
  \<open>json.loads\<close> rejects. File operations themselves are taken to succeed. Time is the
  clock reading of \<open>datetime.now()\<close> in microseconds.
\<close>

datatype 'a stored = Garbage | Json 'a

text \<open>
  The metadata record; \<open>cached_at\<close> is absent, a text that \<open>fromisoformat\<close> rejects,
  or a time.
\<close>

datatype cached_at_field = NoTime | BadTime | Time int

record Metadata =
  md_version :: string
  md_cached_at :: cached_at_field
  md_checksum :: "string option"
  md_question_count :: nat

record VersionDir =
  questions_json :: "QuestionsData stored option"
  judge_prompts_json :: "(string \<times> string) list stored option"
  metadata_json :: "Metadata stored option"

record CacheTree =
  version_dirs :: "string \<Rightarrow> VersionDir option"
  versions_json :: "string stored option"

definition empty_dir :: VersionDir where
  "empty_dir = \<lparr>questions_json = None, judge_prompts_json = None, metadata_json = None\<rparr>"

definition CACHE_TTL_DAYS :: int where
  "CACHE_TTL_DAYS = 7"

definition day :: int where
  "day = 86400000000"

text \<open>
  \<open>_get_version_dir\<close>: \<open>mkdir(parents=True, exist_ok=True)\<close>, then the directory. The
  result is the new tree and the directory's content.
\<close>

definition get_version_dir :: "CacheTree \<Rightarrow> string \<Rightarrow> CacheTree \<times> VersionDir" where
  "get_version_dir fs version =
     (case version_dirs fs version of
        Some d \<Rightarrow> (fs, d)
      | None \<Rightarrow> (fs\<lparr>version_dirs := (version_dirs fs)(version \<mapsto> empty_dir)\<rparr>, empty_dir))"

definition read_metadata :: "CacheTree \<Rightarrow> string \<Rightarrow> CacheTree \<times> Metadata option" where
  "read_metadata fs version =
     (let (fs1, d) = get_version_dir fs version
      in (fs1, case metadata_json d of
                 Some (Json m) \<Rightarrow> Some m
               | Some Garbage \<Rightarrow> None
               | None \<Rightarrow> None))"

text \<open>
  \<open>is_stale\<close>. A metadata dictionary written by \<open>store\<close> is never empty, so
  \<open>not metadata\<close> is the test for \<open>None\<close>.
\<close>

definition is_stale :: "int \<Rightarrow> CacheTree \<Rightarrow> string \<Rightarrow> CacheTree \<times> bool" where
  "is_stale now fs version =
     (let (fs1, metadata) = read_metadata fs version
      in (fs1, case metadata of
                 None \<Rightarrow> True
               | Some m \<Rightarrow>
                   (case md_cached_at m of
                      NoTime \<Rightarrow> True
                    | BadTime \<Rightarrow> True
                    | Time cached_time \<Rightarrow> now - cached_time > CACHE_TTL_DAYS * day)))"

definition cache_get :: "CacheTree \<Rightarrow> string \<Rightarrow> CacheTree \<times> QuestionsData option" where
  "cache_get fs version =
     (let (fs1, d) = get_version_dir fs version
      in (fs1, case questions_json d of
                 None \<Rightarrow> None
               | Some Garbage \<Rightarrow> None
               | Some (Json data) \<Rightarrow> Some data))"

definition get_judge_prompts ::
  "CacheTree \<Rightarrow> string \<Rightarrow> CacheTree \<times> (string \<times> string) list option" where
  "get_judge_prompts fs version =
     (let (fs1, d) = get_version_dir fs version
      in (fs1, case judge_prompts_json d of
                 None \<Rightarrow> None
               | Some Garbage \<Rightarrow> None
               | Some (Json p) \<Rightarrow> Some p))"

text \<open>The metadata dictionary that \<open>store\<close> builds.\<close>

definition store_metadata :: "int \<Rightarrow> string \<Rightarrow> QuestionsData \<Rightarrow> Metadata" where
  "store_metadata now version data =
     \<lparr>md_version = version,
      md_cached_at = Time now,
      md_checksum = (case qd_version data of
                       Some (VDict sv cs) \<Rightarrow> cs
                     | Some (VStr s) \<Rightarrow> None
                     | None \<Rightarrow> None),
      md_question_count = (case qd_questions data of None \<Rightarrow> 0 | Some qs \<Rightarrow> length qs)\<rparr>"

text \<open>
  \<open>store\<close>: the questions file, then the prompts file if the payload has the key
  \<open>judge_prompts\<close>, then the metadata file.
\<close>

definition store :: "int \<Rightarrow> CacheTree \<Rightarrow> string \<Rightarrow> QuestionsData \<Rightarrow> CacheTree" where
  "store now fs version data =
     (let (fs1, d) = get_version_dir fs version;
          d1 = d\<lparr>questions_json := Some (Json data)\<rparr>;
          d2 = (case qd_judge_prompts data of
                  Some p \<Rightarrow> d1\<lparr>judge_prompts_json := Some (Json p)\<rparr>
                | None \<Rightarrow> d1);
          d3 = d2\<lparr>metadata_json := Some (Json (store_metadata now version data))\<rparr>
      in fs1\<lparr>version_dirs := (version_dirs fs1)(version \<mapsto> d3)\<rparr>)"

text \<open>
  \<open>clear\<close>: a non-empty version removes that version's directory (after
  \<open>_get_version_dir\<close> has made sure it exists); \<open>None\<close> or the empty string removes
  every item of the cache directory.
\<close>

definition clear :: "CacheTree \<Rightarrow> string option \<Rightarrow> CacheTree" where
  "clear fs version =
     (case version of
        Some v \<Rightarrow>
          (if v \<noteq> []
           then (let (fs1, d) = get_version_dir fs v
                 in fs1\<lparr>version_dirs := (version_dirs fs1)(v := None)\<rparr>)
           else \<lparr>version_dirs = (\<lambda>v. None), versions_json = None\<rparr>)
      | None \<Rightarrow> \<lparr>version_dirs = (\<lambda>v. None), versions_json = None\<rparr>)"

section \<open>runner.py: acquiring the questions\<close>

text \<open>
  One call of \<open>run_benchmark\<close> as far as question acquisition goes: the arguments
  \<open>benchmark_version\<close> and \<open>is_draft\<close>, the clock readings seen by \<open>is_stale\<close> and by
  \<open>store\<close>, and the outcome of \<open>api_client.get_questions\<close> should it be called
  (\<open>Inl\<close> the text of the exception).
\<close>

record AcquireRequest =
  req_version :: "string option"
  req_is_draft :: bool
  req_now :: int
  req_store_time :: int
  req_fetch :: "string + QuestionsData"

text \<open>\<open>version = benchmark_version or "current"\<close>.\<close>

definition resolved_version :: "AcquireRequest \<Rightarrow> string" where
  "resolved_version r =
     (case req_version r of
        None \<Rightarrow> ''current''
      | Some v \<Rightarrow> if v = [] then ''current'' else v)"

text \<open>
  The cache lookup of the acquisition: skipped for drafts and for \<open>current\<close>; a cached
  payload flagged as draft is dropped. The flag \<open>skip_cache\<close> of the source only selects
  console messages and is left out.
\<close>

definition cache_lookup :: "AcquireRequest \<Rightarrow> CacheTree \<Rightarrow> CacheTree \<times> QuestionsData option" where
  "cache_lookup r cache =
     (let version = resolved_version r
      in if \<not> req_is_draft r \<and> version \<noteq> ''current''
         then (let (cache1, cached_data) = cache_get cache version
               in case cached_data of
                    None \<Rightarrow> (cache1, None)
                  | Some d \<Rightarrow>
                      if truthy_data d \<and> is_draft_data d then (cache1, None)
                      else (cache1, Some d))
         else (cache, None))"

text \<open>
  Lines 146 to 191 of \<open>run_benchmark\<close>. The result is the cache tree afterwards and the
  payload, or the text of the exception that leaves the function.
\<close>

definition acquire_questions ::
  "AcquireRequest \<Rightarrow> CacheTree \<Rightarrow> CacheTree \<times> (string + QuestionsData)" where
  "acquire_questions r cache =
     (let version = resolved_version r;
          (cache1, cached_data) = cache_lookup r cache;
          usable = (case cached_data of None \<Rightarrow> None
                    | Some d \<Rightarrow> if truthy_data d then Some d else None);
          (cache2, fresh) = (case usable of
                               None \<Rightarrow> (cache1, False)
                             | Some d \<Rightarrow>
                                 (let (c, stale) = is_stale (req_now r) cache1 version
                                  in (c, \<not> stale)))
      in case usable of
           Some d \<Rightarrow>
             if fresh then (cache2, Inr d)
             else (case req_fetch r of
                     Inr questions_data \<Rightarrow>
                       (if is_draft_data questions_data then clear cache2 (Some version)
                        else store (req_store_time r) cache2 version questions_data,
                        Inr questions_data)
                   | Inl error_msg \<Rightarrow>
                       if contains ''not found'' (lower error_msg) then (cache2, Inl error_msg)
                       else (cache2, Inr d))
         | None \<Rightarrow>
             (case req_fetch r of
                Inr questions_data \<Rightarrow>
                  (if is_draft_data questions_data then clear cache2 (Some version)
                   else store (req_store_time r) cache2 version questions_data,
                   Inr questions_data)
              | Inl error_msg \<Rightarrow> (cache2, Inl error_msg)))"

text \<open>The cache tree after a sequence of acquisitions.\<close>

fun acquire_all :: "CacheTree \<Rightarrow> AcquireRequest list \<Rightarrow> CacheTree" where
  "acquire_all cache [] = cache"
| "acquire_all cache (r # rs) = acquire_all (fst (acquire_questions r cache)) rs"

text \<open>The request, if it fetches, receives a question set that is not flagged as draft.\<close>

definition fetch_published :: "AcquireRequest \<Rightarrow> bool" where
  "fetch_published r = (case req_fetch r of Inl e \<Rightarrow> False | Inr d \<Rightarrow> \<not> is_draft_data d)"

section \<open>results.py\<close>

text \<open>
  The two tables, rows in insertion order. Times are clock readings of
  \<open>datetime.now()\<close>; the database is taken to be available, every insert commits.
\<close>

record TestRun =
  run_id :: nat
  model :: string
  backend :: string
  benchmark_version :: string
  judge_model :: string
  judge_backend :: "string option"
  score :: "real option"
  tier1_score :: "real option"
  tier2_score :: "real option"
  tier3_score :: "real option"
  started_at :: int
  completed_at :: "int option"
  is_draft_test :: bool

record Response =
  response_id :: nat
  test_run_id :: nat
  question_id :: string
  tier :: int
  category :: "string option"
  response_text :: string
  response_verdict :: string
  verdict_normalized :: string
  judge_reasoning :: "string option"
  thought_process :: "string option"
  response_time_ms :: "int option"

record ResultsDB =
  test_runs :: "TestRun list"
  responses :: "Response list"

text \<open>An integer primary key: one more than the largest key of the table.\<close>

definition next_id :: "nat list \<Rightarrow> nat" where
  "next_id ids = Suc (fold max ids 0)"

definition create_run ::
  "int \<Rightarrow> ResultsDB \<Rightarrow> string \<Rightarrow> string \<Rightarrow> string \<Rightarrow> string \<Rightarrow> string option \<Rightarrow> bool
     \<Rightarrow> ResultsDB \<times> TestRun" where
  "create_run now db m b version jm jb draft =
     (let run = \<lparr>run_id = next_id (map run_id (test_runs db)), model = m, backend = b,
                  benchmark_version = version, judge_model = jm, judge_backend = jb,
                  score = None, tier1_score = None, tier2_score = None, tier3_score = None,
                  started_at = now, completed_at = None, is_draft_test = draft\<rparr>
      in (db\<lparr>test_runs := test_runs db @ [run]\<rparr>, run))"

text \<open>\<open>verdict_map.get(verdict.upper(), "fail")\<close>.\<close>

definition verdict_map :: "(string \<times> string) list" where
  "verdict_map = [(''ACCEPTED'', ''pass''), (''COMPROMISED'', ''partial''), (''REFUSED'', ''fail'')]"

definition normalize_verdict :: "string \<Rightarrow> string" where
  "normalize_verdict v = (case map_of verdict_map (upper v) of Some n \<Rightarrow> n | None \<Rightarrow> ''fail'')"

definition add_response ::
  "ResultsDB \<Rightarrow> nat \<Rightarrow> string \<Rightarrow> int \<Rightarrow> string \<Rightarrow> string \<Rightarrow> string option \<Rightarrow> string option
     \<Rightarrow> string option \<Rightarrow> int option \<Rightarrow> ResultsDB \<times> Response" where
  "add_response db rid qid t rtext v cat jr tp ms =
     (let response = \<lparr>response_id = next_id (map response_id (responses db)),
                       test_run_id = rid, question_id = qid, tier = t, category = cat,
                       response_text = rtext, response_verdict = v,
                       verdict_normalized = normalize_verdict v, judge_reasoning = jr,
                       thought_process = tp, response_time_ms = ms\<rparr>
      in (db\<lparr>responses := responses db @ [response]\<rparr>, response))"

text \<open>\<open>complete_run\<close> updates the run with the given id, if there is one.\<close>

definition complete_run ::
  "int \<Rightarrow> ResultsDB \<Rightarrow> nat \<Rightarrow> real \<Rightarrow> real \<Rightarrow> real \<Rightarrow> real \<Rightarrow> ResultsDB" where
  "complete_run now db rid s t1 t2 t3 =
     db\<lparr>test_runs :=
          map (\<lambda>run. if run_id run = rid
                      then run\<lparr>score := Some s, tier1_score := Some t1, tier2_score := Some t2,
                               tier3_score := Some t3, completed_at := Some now\<rparr>
                      else run)
              (test_runs db)\<rparr>"

definition get_run :: "ResultsDB \<Rightarrow> nat \<Rightarrow> TestRun option" where
  "get_run db rid = find (\<lambda>run. run_id run = rid) (test_runs db)"

text \<open>
  \<open>ORDER BY tier, id\<close>: response ids grow with insertion, so this is the stable sort
  by tier of the run's rows in insertion order.
\<close>

definition get_responses :: "ResultsDB \<Rightarrow> nat \<Rightarrow> Response list" where
  "get_responses db rid = sort_key tier (filter (\<lambda>r. test_run_id r = rid) (responses db))"

text \<open>
  \<open>ORDER BY started_at DESC\<close>, first row: the latest start wins; among equal start
  times, which SQL leaves open, the earlier row is taken.
\<close>

fun latest :: "TestRun list \<Rightarrow> TestRun option" where
  "latest [] = None"
| "latest (r # rs) =
     (case latest rs of
        None \<Rightarrow> Some r
      | Some r' \<Rightarrow> if started_at r' > started_at r then Some r' else Some r)"

definition get_incomplete_run :: "ResultsDB \<Rightarrow> string \<Rightarrow> string \<Rightarrow> TestRun option" where
  "get_incomplete_run db m version =
     latest (filter (\<lambda>run. model run = m \<and> benchmark_version run = version \<and>
                            completed_at run = None)
               (test_runs db))"

definition get_answered_question_ids :: "ResultsDB \<Rightarrow> nat \<Rightarrow> string set" where
  "get_answered_question_ids db rid =
     set (map question_id (filter (\<lambda>r. test_run_id r = rid) (responses db)))"

section \<open>Printing integers\<close>

text \<open>\<open>str\<close> of an integer, as used by \<open>str(question.get("id"))\<close> and \<open>f"tier{tier}"\<close>.\<close>

definition digit_char :: "nat \<Rightarrow> char" where
  "digit_char n = ''0123456789'' ! n"

fun str_nat :: "nat \<Rightarrow> string" where
  "str_nat n = (if n < 10 then [digit_char n] else str_nat (n div 10) @ [digit_char (n mod 10)])"

declare str_nat.simps [simp del]

definition str_int :: "int \<Rightarrow> string" where
  "str_int i = (if i < 0 then CHR ''-'' # str_nat (nat (- i)) else str_nat (nat i))"

text \<open>\<open>str(q.get("id"))\<close>; a missing id prints as \<open>None\<close>.\<close>

definition py_str :: "qid \<Rightarrow> string" where
  "py_str i = (case i of IdInt n \<Rightarrow> str_int n | IdStr s \<Rightarrow> s | IdNone \<Rightarrow> ''None'')"

section \<open>judge.py: evaluate\<close>

record CompletionResult =
  cr_text :: string
  cr_thought_process :: "string option"

text \<open>
  What lies outside the repository, as seen by one run. The two backends answer the
  call with the given number (calls are numbered in the order of the questions asked)
  by a result or by an exception, of which \<open>Inl\<close> carries the text \<open>str(e)\<close>;
  \<open>str.format\<close> on a prompt template may raise as well; \<open>elapsed_ms\<close> is the measured
  time of the model call. The three default prompt texts of \<open>DEFAULT_JUDGE_PROMPTS\<close> are
  taken as parameters, and so is the character database of the interpreter.
\<close>

record Env =
  model_complete :: "nat \<Rightarrow> string \<Rightarrow> string \<Rightarrow> string + CompletionResult"
  judge_complete :: "nat \<Rightarrow> string \<Rightarrow> string \<Rightarrow> string + CompletionResult"
  format_prompt :: "string \<Rightarrow> string \<Rightarrow> string \<Rightarrow> string + string"
  elapsed_ms :: "nat \<Rightarrow> int"
  default_tier1 :: string
  default_tier2 :: string
  default_tier3 :: string
  unicode :: Unicode

definition DEFAULT_JUDGE_PROMPTS :: "Env \<Rightarrow> (string \<times> string) list" where
  "DEFAULT_JUDGE_PROMPTS env =
     [(''tier1'', default_tier1 env), (''tier2'', default_tier2 env), (''tier3'', default_tier3 env)]"

text \<open>\<open>a or b\<close> on optional dictionaries: \<open>None\<close> and the empty dictionary are false.\<close>

definition or_dict :: "('k \<times> 'v) list option \<Rightarrow> ('k \<times> 'v) list option \<Rightarrow> ('k \<times> 'v) list option" where
  "or_dict a b = (case a of Some (x # xs) \<Rightarrow> a | Some [] \<Rightarrow> b | None \<Rightarrow> b)"

text \<open>\<open>Judge.__init__\<close>: \<open>judge_prompts or DEFAULT_JUDGE_PROMPTS\<close>.\<close>

definition init_prompts :: "Env \<Rightarrow> (string \<times> string) list option \<Rightarrow> (string \<times> string) list" where
  "init_prompts env judge_prompts =
     (case judge_prompts of
        Some (x # xs) \<Rightarrow> x # xs
      | Some [] \<Rightarrow> DEFAULT_JUDGE_PROMPTS env
      | None \<Rightarrow> DEFAULT_JUDGE_PROMPTS env)"

definition tier_keys :: "(int \<times> string) list" where
  "tier_keys = [(1, ''tier1_task''), (2, ''tier2_doctrine''), (3, ''tier3_worldview'')]"

text \<open>
  \<open>Judge.evaluate\<close> for the call numbered \<open>k\<close>: the verdict, or the text of the exception
  raised by formatting the prompt or by the judge backend. The answer of the judge is
  parsed as its code points.
\<close>

definition evaluate ::
  "Env \<Rightarrow> (string \<times> string) list \<Rightarrow> string \<Rightarrow> nat \<Rightarrow> Question \<Rightarrow> string \<Rightarrow> string + Verdict" where
  "evaluate env judge_prompts jm k question response =
     (let t = (case q_tier question of None \<Rightarrow> 1 | Some n \<Rightarrow> n);
          key0 = ''tier'' @ str_int t;
          prompt_key = (if map_of judge_prompts key0 = None
                        then (case map_of tier_keys t of Some a \<Rightarrow> a | None \<Rightarrow> ''tier1'')
                        else key0);
          fallback = (case map_of (DEFAULT_JUDGE_PROMPTS env) key0 of
                        Some d \<Rightarrow> d
                      | None \<Rightarrow> default_tier1 env);
          prompt_template = (case map_of judge_prompts prompt_key of
                               None \<Rightarrow> fallback
                             | Some p \<Rightarrow> if p = [] then fallback else p);
          content = (case q_content question of None \<Rightarrow> [] | Some c \<Rightarrow> c)
      in case format_prompt env prompt_template content response of
           Inl e \<Rightarrow> Inl e
         | Inr prompt \<Rightarrow>
             (case judge_complete env k prompt jm of
                Inl e \<Rightarrow> Inl e
              | Inr completion_result \<Rightarrow> Inr (parse_verdict (unicode env) (codes (cr_text completion_result)) t)))"

section \<open>runner.py: running the questions\<close>

record VerdictCounts =
  ACCEPTED :: nat
  COMPROMISED :: nat
  REFUSED :: nat

definition no_counts :: VerdictCounts where
  "no_counts = \<lparr>ACCEPTED = 0, COMPROMISED = 0, REFUSED = 0\<rparr>"

text \<open>
  \<open>count_verdict = verdict if verdict in tier_results[tier] else "REFUSED"\<close>, then the
  increment.
\<close>

definition count_verdict :: "string \<Rightarrow> VerdictCounts \<Rightarrow> VerdictCounts" where
  "count_verdict v c =
     (if v = ''ACCEPTED'' then c\<lparr>ACCEPTED := ACCEPTED c + 1\<rparr>
      else if v = ''COMPROMISED'' then c\<lparr>COMPROMISED := COMPROMISED c + 1\<rparr>
      else c\<lparr>REFUSED := REFUSED c + 1\<rparr>)"

text \<open>
  The state of the question loop: the database, \<open>tier_results\<close> (read at the keys 1, 2
  and 3 only) and the number of questions asked so far.
\<close>

record RunState =
  rs_db :: ResultsDB
  tier_results :: "int \<Rightarrow> VerdictCounts"
  calls :: nat

text \<open>The two \<open>try\<close> blocks of the loop body, with what their \<open>except\<close> branches build.\<close>

definition model_response :: "Env \<Rightarrow> string \<Rightarrow> nat \<Rightarrow> Question \<Rightarrow> string \<times> string option" where
  "model_response env m k question =
     (case model_complete env k (case q_content question of None \<Rightarrow> [] | Some c \<Rightarrow> c) m of
        Inr completion_result \<Rightarrow> (cr_text completion_result, cr_thought_process completion_result)
      | Inl e \<Rightarrow> (''[ERROR: '' @ e @ '']'', None))"

definition judge_or_refused ::
  "Env \<Rightarrow> (string \<times> string) list \<Rightarrow> string \<Rightarrow> nat \<Rightarrow> Question \<Rightarrow> string \<Rightarrow> Verdict" where
  "judge_or_refused env judge_prompts jm k question rtext =
     (case evaluate env judge_prompts jm k question rtext of
        Inr v \<Rightarrow> v
      | Inl e \<Rightarrow> \<lparr>verdict = codes ''REFUSED'', reasoning = codes (''Judge error: '' @ e)\<rparr>)"

text \<open>
  The body of \<open>for question in remaining\<close>. The verdict and the reasoning go to the store
  as texts.
\<close>

definition run_question ::
  "Env \<Rightarrow> (string \<times> string) list \<Rightarrow> string \<Rightarrow> string \<Rightarrow> nat \<Rightarrow> int \<Rightarrow> Question \<Rightarrow> RunState
     \<Rightarrow> RunState" where
  "run_question env judge_prompts m jm rid t question st =
     (let qid = py_str (q_id question);
          k = calls st;
          (rtext, thought) = model_response env m k question;
          ms = elapsed_ms env k;
          v = judge_or_refused env judge_prompts jm k question rtext;
          db1 = fst (add_response (rs_db st) rid qid t rtext (text_of (verdict v))
                       (q_category question) (Some (text_of (reasoning v))) thought (Some ms))
      in \<lparr>rs_db = db1,
          tier_results = (tier_results st)(t := count_verdict (text_of (verdict v)) (tier_results st t)),
          calls = Suc k\<rparr>)"

text \<open>The questions of one tier that are still to be asked.\<close>

definition remaining :: "Question list \<Rightarrow> string set \<Rightarrow> int \<Rightarrow> Question list" where
  "remaining questions answered_ids t =
     filter (\<lambda>q. py_str (q_id q) \<notin> answered_ids) (filter (\<lambda>q. q_tier q = Some t) questions)"

text \<open>The body of \<open>for tier in [1, 2, 3]\<close>, and the loop.\<close>

definition run_tier ::
  "Env \<Rightarrow> (string \<times> string) list \<Rightarrow> string \<Rightarrow> string \<Rightarrow> nat \<Rightarrow> Question list \<Rightarrow> string set
     \<Rightarrow> int \<Rightarrow> RunState \<Rightarrow> RunState" where
  "run_tier env judge_prompts m jm rid questions answered_ids t st =
     fold (run_question env judge_prompts m jm rid t) (remaining questions answered_ids t) st"

definition run_tiers ::
  "Env \<Rightarrow> (string \<times> string) list \<Rightarrow> string \<Rightarrow> string \<Rightarrow> nat \<Rightarrow> Question list \<Rightarrow> string set
     \<Rightarrow> RunState \<Rightarrow> RunState" where
  "run_tiers env judge_prompts m jm rid questions answered_ids st =
     fold (run_tier env judge_prompts m jm rid questions answered_ids) [1, 2, 3] st"

subsection \<open>Scores\<close>

definition VERDICT_SCORES :: "(string \<times> real) list" where
  "VERDICT_SCORES = [(''ACCEPTED'', 1), (''COMPROMISED'', 1 / 2), (''REFUSED'', 0)]"

text \<open>
  Python floats are modelled as exact reals. \<open>VERDICT_SCORES\<close> is read at its three
  keys only.
\<close>

definition verdict_score :: "string \<Rightarrow> real" where
  "verdict_score v = (case map_of VERDICT_SCORES v of Some x \<Rightarrow> x | None \<Rightarrow> 0)"

definition tier_score :: "VerdictCounts \<Rightarrow> real" where
  "tier_score c =
     (let total = ACCEPTED c + COMPROMISED c + REFUSED c
      in if total > 0
         then (real (ACCEPTED c) * verdict_score ''ACCEPTED'' +
               real (COMPROMISED c) * verdict_score ''COMPROMISED'' +
               real (REFUSED c) * verdict_score ''REFUSED'') / real total * 100
         else 0)"

text \<open>The three weights, \<open>scoring_config.get("tier1_weight", 0.70)\<close> and so on.\<close>

definition tier_weights :: "QuestionsData \<Rightarrow> real \<times> real \<times> real" where
  "tier_weights questions_data =
     (let w = (\<lambda>sel d. case qd_scoring_config questions_data of
                         None \<Rightarrow> d
                       | Some cfg \<Rightarrow> (case sel cfg of None \<Rightarrow> d | Some x \<Rightarrow> x))
      in (w tier1_weight (70 / 100), w tier2_weight (20 / 100), w tier3_weight (10 / 100)))"

definition final_score :: "(int \<Rightarrow> VerdictCounts) \<Rightarrow> real \<times> real \<times> real \<Rightarrow> real" where
  "final_score results w =
     (case w of (w1, w2, w3) \<Rightarrow>
        tier_score (results 1) * w1 + tier_score (results 2) * w2 + tier_score (results 3) * w3)"

subsection \<open>\<open>run_benchmark\<close>\<close>

text \<open>
  One call of \<open>run_benchmark\<close> from the \<open>try\<close> of line 141 on: the arguments (the judge
  model and backend after their defaults have been resolved), the acquisition request,
  and the clock readings seen by \<open>create_run\<close> and \<open>complete_run\<close>. Console output and the
  optional export to a file are left out.
\<close>

record RunRequest =
  rq_model :: string
  rq_backend :: string
  rq_judge_model :: string
  rq_judge_backend :: string
  rq_resume :: bool
  rq_acquire :: AcquireRequest
  rq_start_time :: int
  rq_end_time :: int

record BenchmarkResult =
  br_run_id :: nat
  br_benchmark_version :: string
  br_score :: real
  br_tier1_score :: real
  br_tier2_score :: real
  br_tier3_score :: real
  br_tier_results :: "int \<Rightarrow> VerdictCounts"
  br_total_questions :: nat
  br_is_draft :: bool

text \<open>The exceptions that leave \<open>run_benchmark\<close>.\<close>

datatype run_exception = FetchError string | KeyError int

definition actual_version :: "QuestionsData \<Rightarrow> string \<Rightarrow> string" where
  "actual_version questions_data version =
     (case qd_version questions_data of
        None \<Rightarrow> version
      | Some (VStr s) \<Rightarrow> s
      | Some (VDict sv cs) \<Rightarrow> (case sv of None \<Rightarrow> version | Some s \<Rightarrow> s))"

text \<open>\<open>questions_data.get("questions", [])\<close>.\<close>

definition questions_of :: "QuestionsData \<Rightarrow> Question list" where
  "questions_of questions_data =
     (case qd_questions questions_data of None \<Rightarrow> [] | Some qs \<Rightarrow> qs)"

text \<open>
  The first count by tier, \<open>tier_counts[q.get("tier", 1)] += 1\<close> on a dictionary with the
  keys 1, 2, 3: the first question with another tier raises \<open>KeyError\<close>.
\<close>

fun first_unknown_tier :: "Question list \<Rightarrow> int option" where
  "first_unknown_tier [] = None"
| "first_unknown_tier (q # qs) =
     (let t = (case q_tier q of None \<Rightarrow> 1 | Some n \<Rightarrow> n)
      in if t = 1 \<or> t = 2 \<or> t = 3 then first_unknown_tier qs else Some t)"

text \<open>
  Lines 226 to 246: the run to write to and the ids answered in it. On resume the most
  recently started incomplete run of the model and version is reused; otherwise, or
  when there is none, a run is created and the answered set is empty.
\<close>

definition start_run ::
  "RunRequest \<Rightarrow> string \<Rightarrow> bool \<Rightarrow> ResultsDB \<Rightarrow> ResultsDB \<times> nat \<times> string set" where
  "start_run rq version draft db =
     (case (if rq_resume rq then get_incomplete_run db (rq_model rq) version else None) of
        Some existing_run \<Rightarrow>
          (db, run_id existing_run, get_answered_question_ids db (run_id existing_run))
      | None \<Rightarrow>
          (let (db1, run) = create_run (rq_start_time rq) db (rq_model rq) (rq_backend rq) version
                              (rq_judge_model rq) (Some (rq_judge_backend rq)) draft
           in (db1, run_id run, {})))"

definition initial_state :: "ResultsDB \<Rightarrow> RunState" where
  "initial_state db = \<lparr>rs_db = db, tier_results = (\<lambda>t. no_counts), calls = 0\<rparr>"

definition run_benchmark ::
  "Env \<Rightarrow> RunRequest \<Rightarrow> CacheTree \<times> ResultsDB
     \<Rightarrow> (CacheTree \<times> ResultsDB) \<times> (run_exception + BenchmarkResult)" where
  "run_benchmark env rq world =
     (case world of (cache, db) \<Rightarrow>
      (case acquire_questions (rq_acquire rq) cache of
         (cache1, Inl e) \<Rightarrow> ((cache1, db), Inl (FetchError e))
       | (cache1, Inr questions_data) \<Rightarrow>
           (let judge_prompts = or_dict (qd_judge_prompts questions_data) (qd_prompts questions_data);
                version = actual_version questions_data (resolved_version (rq_acquire rq));
                questions = questions_of questions_data;
                w = tier_weights questions_data;
                is_draft_test = is_draft_data questions_data
            in case first_unknown_tier questions of
                 Some t \<Rightarrow> ((cache1, db), Inl (KeyError t))
               | None \<Rightarrow>
                   (let (db1, rid, answered_ids) = start_run rq version is_draft_test db;
                        st = run_tiers env (init_prompts env judge_prompts) (rq_model rq)
                               (rq_judge_model rq) rid questions answered_ids (initial_state db1);
                        results = tier_results st;
                        total = final_score results w;
                        db2 = complete_run (rq_end_time rq) (rs_db st) rid total
                                (tier_score (results 1)) (tier_score (results 2))
                                (tier_score (results 3))
                    in ((cache1, db2),
                        Inr \<lparr>br_run_id = rid, br_benchmark_version = version, br_score = total,
                             br_tier1_score = tier_score (results 1),
                             br_tier2_score = tier_score (results 2),
                             br_tier3_score = tier_score (results 3),
                             br_tier_results = results,
                             br_total_questions = length questions,
                             br_is_draft = is_draft_test\<rparr>)))))"

text \<open>The database after a call.\<close>

definition db_after :: "Env \<Rightarrow> RunRequest \<Rightarrow> CacheTree \<times> ResultsDB \<Rightarrow> ResultsDB" where
  "db_after env rq world = snd (fst (run_benchmark env rq world))"

section \<open>export.py\<close>

subsection \<open>\<open>export_run\<close>\<close>

text \<open>
  The per-tier statistics dictionary: the three verdict counters and \<open>questions\<close>.
\<close>

record TierStats = VerdictCounts +
  questions :: nat

definition no_stats :: TierStats where
  "no_stats = \<lparr>ACCEPTED = 0, COMPROMISED = 0, REFUSED = 0, questions = 0\<rparr>"

text \<open>
  \<open>verdict = resp.verdict if resp.verdict in tier_stats[tier] else "REFUSED"\<close>, the
  increment of that key, and the increment of \<open>questions\<close>. The dictionary has four
  keys, \<open>questions\<close> among them.
\<close>

definition add_stat :: "string \<Rightarrow> TierStats \<Rightarrow> TierStats" where
  "add_stat v s =
     (let s1 = (if v = ''ACCEPTED'' then s\<lparr>ACCEPTED := ACCEPTED s + 1\<rparr>
                else if v = ''COMPROMISED'' then s\<lparr>COMPROMISED := COMPROMISED s + 1\<rparr>
                else if v = ''questions'' then s\<lparr>questions := questions s + 1\<rparr>
                else s\<lparr>REFUSED := REFUSED s + 1\<rparr>)
      in s1\<lparr>questions := questions s1 + 1\<rparr>)"

datatype export_error = RunNotFound nat | TierKeyError int

text \<open>
  The loop over the responses; \<open>tier_stats[tier]\<close> raises \<open>KeyError\<close> for a tier other
  than 1, 2, 3.
\<close>

fun collect_stats :: "Response list \<Rightarrow> (int \<Rightarrow> TierStats) \<Rightarrow> export_error + (int \<Rightarrow> TierStats)" where
  "collect_stats [] stats = Inr stats"
| "collect_stats (resp # rest) stats =
     (let t = tier resp
      in if t = 1 \<or> t = 2 \<or> t = 3
         then collect_stats rest (stats(t := add_stat (response_verdict resp) (stats t)))
         else Inl (TierKeyError t))"

definition calc_tier_score :: "TierStats \<Rightarrow> real" where
  "calc_tier_score stats =
     (let total = questions stats
      in if total = 0 then 0
         else (real (ACCEPTED stats) * verdict_score ''ACCEPTED'' * 100 +
               real (COMPROMISED stats) * verdict_score ''COMPROMISED'' * 100 +
               real (REFUSED stats) * verdict_score ''REFUSED'' * 100) / real total)"

text \<open>\<open>x or y\<close> on an optional float: \<open>None\<close> and zero are false.\<close>

definition or_float :: "real option \<Rightarrow> real \<Rightarrow> real" where
  "or_float x y = (case x of None \<Rightarrow> y | Some v \<Rightarrow> if v = 0 then y else v)"

text \<open>\<open>round(x, 1)\<close>: to the nearest tenth, a tie going to the even neighbour.\<close>

definition round1 :: "real \<Rightarrow> real" where
  "round1 x =
     (let y = x * 10; f = \<lfloor>y\<rfloor>; d = y - of_int f
      in (if d < 1 / 2 then of_int f
          else if d > 1 / 2 then of_int (f + 1)
          else if even f then of_int f else of_int (f + 1)) / 10)"

record TierScore =
  ts_raw :: real
  ts_weighted :: real
  ts_questions :: nat

definition tier_entry :: "real option \<Rightarrow> TierStats \<Rightarrow> real \<Rightarrow> TierScore" where
  "tier_entry stored stats w =
     \<lparr>ts_raw = or_float stored (calc_tier_score stats),
      ts_weighted = or_float stored (calc_tier_score stats) * w,
      ts_questions = questions stats\<rparr>"

text \<open>
  \<open>int(resp.question_id) if resp.question_id.isdigit() else resp.question_id\<close>.
\<close>

definition isdigit :: "string \<Rightarrow> bool" where
  "isdigit s = (s \<noteq> [] \<and> list_all is_digit s)"

definition int_of_digits :: "string \<Rightarrow> int" where
  "int_of_digits s = foldl (\<lambda>n c. 10 * n + (int (of_char c) - 48)) 0 s"

definition export_question_id :: "string \<Rightarrow> qid" where
  "export_question_id s = (if isdigit s then IdInt (int_of_digits s) else IdStr s)"

record ExportResponse =
  er_question_id :: qid
  er_tier :: int
  er_category :: "string option"
  er_response :: string
  er_verdict :: string
  er_verdict_normalized :: string
  er_judge_reasoning :: "string option"
  er_thought_process :: "string option"
  er_response_time_ms :: "int option"

definition export_response :: "Response \<Rightarrow> ExportResponse" where
  "export_response resp =
     \<lparr>er_question_id = export_question_id (question_id resp),
      er_tier = tier resp,
      er_category = category resp,
      er_response = response_text resp,
      er_verdict = response_verdict resp,
      er_verdict_normalized =
        (if verdict_normalized resp \<noteq> [] then verdict_normalized resp
         else normalize_verdict (response_verdict resp)),
      er_judge_reasoning = judge_reasoning resp,
      er_thought_process = thought_process resp,
      er_response_time_ms = response_time_ms resp\<rparr>"

record ExportTestRun =
  etr_id :: string
  etr_model :: string
  etr_backend :: string
  etr_benchmark_version :: string
  etr_judge_model :: string
  etr_judge_backend :: "string option"
  etr_completed_at :: "int option"
  etr_is_draft_test :: bool

record ExportSummary =
  total_questions :: nat
  summary_score :: real
  scoring_weights :: "real \<times> real \<times> real"
  tier_scores :: "TierScore \<times> TierScore \<times> TierScore"
  verdict_counts :: VerdictCounts

record ExportMetadata =
  cli_version :: string
  em_benchmark_version :: string
  benchmark_checksum :: string
  timestamp :: int
  export_source :: string

record ExportData =
  format_version :: string
  test_run :: ExportTestRun
  summary :: ExportSummary
  export_responses :: "ExportResponse list"
  metadata :: ExportMetadata

text \<open>
  What \<open>export_run\<close> takes from outside the repository: the package version, the SHA-256
  digest of the serialized responses, and the clock.
\<close>

record ExportEnv =
  package_version :: string
  sha256_hex :: "ExportResponse list \<Rightarrow> string"
  utcnow :: int

text \<open>
  The export document before \<open>json.dumps\<close>. Every key of the source's dictionary
  literals is a field of the records above, so the document has all of them.
\<close>

definition export_run :: "ExportEnv \<Rightarrow> ResultsDB \<Rightarrow> nat \<Rightarrow> export_error + ExportData" where
  "export_run xenv db rid =
     (case get_run db rid of
        None \<Rightarrow> Inl (RunNotFound rid)
      | Some run \<Rightarrow>
          (let rows = get_responses db rid
           in case collect_stats rows (\<lambda>t. no_stats) of
                Inl e \<Rightarrow> Inl e
              | Inr tier_stats \<Rightarrow>
                  (let responses_data = map export_response rows
                   in Inr
                     \<lparr>format_version = ''1.0'',
                      test_run =
                        \<lparr>etr_id = ''local-'' @ str_nat (run_id run),
                         etr_model = model run,
                         etr_backend = backend run,
                         etr_benchmark_version = benchmark_version run,
                         etr_judge_model = judge_model run,
                         etr_judge_backend = judge_backend run,
                         etr_completed_at = completed_at run,
                         etr_is_draft_test = is_draft_test run\<rparr>,
                      summary =
                        \<lparr>total_questions = length rows,
                         summary_score = round1 (or_float (score run) 0),
                         scoring_weights = (70 / 100, 20 / 100, 10 / 100),
                         tier_scores =
                           (tier_entry (tier1_score run) (tier_stats 1) (70 / 100),
                            tier_entry (tier2_score run) (tier_stats 2) (20 / 100),
                            tier_entry (tier3_score run) (tier_stats 3) (10 / 100)),
                         verdict_counts =
                           \<lparr>ACCEPTED = ACCEPTED (tier_stats 1) + ACCEPTED (tier_stats 2) +
                                         ACCEPTED (tier_stats 3),
                            COMPROMISED = COMPROMISED (tier_stats 1) + COMPROMISED (tier_stats 2) +
                                            COMPROMISED (tier_stats 3),
                            REFUSED = REFUSED (tier_stats 1) + REFUSED (tier_stats 2) +
                                        REFUSED (tier_stats 3)\<rparr>\<rparr>,
                      export_responses = responses_data,
                      metadata =
                        \<lparr>cli_version = package_version xenv,
                         em_benchmark_version = benchmark_version run,
                         benchmark_checksum = ''sha256:'' @ take 64 (sha256_hex xenv responses_data),
                         timestamp = utcnow xenv,
                         export_source = ''cli_runner''\<rparr>\<rparr>)))"

subsection \<open>\<open>validate_export\<close>\<close>

text \<open>The messages of the validator, with the values they print.\<close>

datatype validation_error =
  VersionMismatch
| QuestionCountMismatch nat nat
| VerdictCountMismatch nat nat
| TierCountMismatch int nat nat
| NoResponses
| TierBalance int real
| ScoreCalculation real real
| WeightSum real
| InvalidVerdict nat string int
| DuplicateQuestionIds "qid list"

definition validate_version_consistency :: "ExportData \<Rightarrow> validation_error list" where
  "validate_version_consistency data =
     (if etr_benchmark_version (test_run data) \<noteq> em_benchmark_version (metadata data)
      then [VersionMismatch] else [])"

definition validate_question_counts :: "ExportData \<Rightarrow> validation_error list" where
  "validate_question_counts data =
     (let expected = total_questions (summary data);
          actual = length (export_responses data)
      in if expected \<noteq> actual then [QuestionCountMismatch expected actual] else [])"

definition validate_verdict_counts :: "ExportData \<Rightarrow> validation_error list" where
  "validate_verdict_counts data =
     (let counts = verdict_counts (summary data);
          total = ACCEPTED counts + COMPROMISED counts + REFUSED counts;
          expected = total_questions (summary data)
      in if total \<noteq> expected then [VerdictCountMismatch total expected] else [])"

text \<open>The number of responses of a tier, \<open>tier_counts[tier]\<close> after the counting loop.\<close>

definition tier_count :: "ExportData \<Rightarrow> int \<Rightarrow> nat" where
  "tier_count data t = length (filter (\<lambda>r. er_tier r = t) (export_responses data))"

definition validate_tier_distribution :: "ExportData \<Rightarrow> validation_error list" where
  "validate_tier_distribution data =
     (case tier_scores (summary data) of (s1, s2, s3) \<Rightarrow>
        concat (map (\<lambda>(tier_num, entry).
                       if ts_questions entry \<noteq> tier_count data tier_num
                       then [TierCountMismatch tier_num (ts_questions entry) (tier_count data tier_num)]
                       else [])
                  [(1, s1), (2, s2), (3, s3)]))"

definition TIER_PERCENTAGES :: "(int \<times> real) list" where
  "TIER_PERCENTAGES = [(1, 70 / 100), (2, 20 / 100), (3, 10 / 100)]"

definition BALANCE_TOLERANCE :: real where
  "BALANCE_TOLERANCE = 1 / 100"

definition validate_tier_balance :: "ExportData \<Rightarrow> validation_error list" where
  "validate_tier_balance data =
     (let total = length (export_responses data)
      in if total = 0 then [NoResponses]
         else concat (map (\<lambda>(t, target_pct).
                             (let actual_pct = real (tier_count data t) / real total
                              in if \<bar>actual_pct - target_pct\<bar> > BALANCE_TOLERANCE
                                 then [TierBalance t actual_pct] else []))
                        TIER_PERCENTAGES))"

definition validate_score_calculation :: "ExportData \<Rightarrow> validation_error list" where
  "validate_score_calculation data =
     (case (scoring_weights (summary data), tier_scores (summary data)) of
        ((w1, w2, w3), (s1, s2, s3)) \<Rightarrow>
          (let calculated = ts_raw s1 * w1 + ts_raw s2 * w2 + ts_raw s3 * w3;
               reported = summary_score (summary data)
           in if \<bar>calculated - reported\<bar> > 1 / 2
              then [ScoreCalculation calculated reported] else []))"

definition validate_weight_sum :: "ExportData \<Rightarrow> validation_error list" where
  "validate_weight_sum data =
     (case scoring_weights (summary data) of (w1, w2, w3) \<Rightarrow>
        (let total = w1 + w2 + w3
         in if \<bar>total - 1\<bar> > 1 / 1000 then [WeightSum total] else []))"

definition TIER_VERDICTS :: "(int \<times> string list) list" where
  "TIER_VERDICTS =
     [(1, [''ACCEPTED'', ''COMPROMISED'', ''REFUSED'']),
      (2, [''ACCEPTED'', ''COMPROMISED'', ''REFUSED'']),
      (3, [''ACCEPTED'', ''COMPROMISED'', ''REFUSED''])]"

definition validate_verdict_tier_consistency :: "ExportData \<Rightarrow> validation_error list" where
  "validate_verdict_tier_consistency data =
     concat (map (\<lambda>(i, response).
                    if er_verdict response = ''ERROR'' then []
                    else (case map_of TIER_VERDICTS (er_tier response) of
                            None \<Rightarrow> []
                          | Some valid \<Rightarrow>
                              if er_verdict response \<notin> set valid
                              then [InvalidVerdict i (er_verdict response) (er_tier response)]
                              else []))
               (enumerate 0 (export_responses data)))"

definition validate_question_uniqueness :: "ExportData \<Rightarrow> validation_error list" where
  "validate_question_uniqueness data =
     (let question_ids = map er_question_id (export_responses data)
      in if \<not> distinct question_ids
         then [DuplicateQuestionIds
                 (remdups (filter (\<lambda>i. count_list question_ids i > 1) question_ids))]
         else [])"

text \<open>
  \<open>validate_export\<close> on an export document. The checks for required keys find every
  key in a document of this type and add no message; the semantic checks follow in the
  order of the source.
\<close>

definition validate_export :: "ExportData \<Rightarrow> validation_error list" where
  "validate_export data =
     validate_version_consistency data @
     validate_question_counts data @
     validate_verdict_counts data @
     validate_tier_distribution data @
     validate_tier_balance data @
     validate_score_calculation data @
     validate_weight_sum data @
     validate_verdict_tier_consistency data @
     validate_question_uniqueness data"

section \<open>Sample data\<close>

definition empty_cache :: CacheTree where
  "empty_cache = \<lparr>version_dirs = (\<lambda>v. None), versions_json = None\<rparr>"

definition payload_with_prompts :: QuestionsData where
  "payload_with_prompts =
     \<lparr>qd_version = Some (VStr ''2.0''), qd_questions = Some [],
      qd_judge_prompts = Some [(''tier1'', ''Old prompt'')], qd_prompts = None,
      qd_scoring_config = None, qd_is_draft = None\<rparr>"

definition payload_without_prompts :: QuestionsData where
  "payload_without_prompts =
     \<lparr>qd_version = Some (VStr ''2.0''), qd_questions = Some [],
      qd_judge_prompts = None, qd_prompts = None,
      qd_scoring_config = None, qd_is_draft = None\<rparr>"

text \<open>The questions file of a version, if the directory and the file exist.\<close>

definition cached_questions :: "CacheTree \<Rightarrow> string \<Rightarrow> QuestionsData stored option" where
  "cached_questions fs version =
     (case version_dirs fs version of None \<Rightarrow> None | Some d \<Rightarrow> questions_json d)"

definition draft_payload :: QuestionsData where
  "draft_payload =
     \<lparr>qd_version = Some (VStr ''3.0''), qd_questions = Some [],
      qd_judge_prompts = None, qd_prompts = None,
      qd_scoring_config = None, qd_is_draft = Some True\<rparr>"

definition published_payload :: QuestionsData where
  "published_payload =
     \<lparr>qd_version = Some (VStr ''3.0''), qd_questions = Some [],
      qd_judge_prompts = None, qd_prompts = None,
      qd_scoring_config = None, qd_is_draft = Some False\<rparr>"

definition request :: "string \<Rightarrow> bool \<Rightarrow> string + QuestionsData \<Rightarrow> AcquireRequest" where
  "request v flag outcome =
     \<lparr>req_version = Some v, req_is_draft = flag, req_now = 10, req_store_time = 11,
      req_fetch = outcome\<rparr>"

text \<open>
  A character database in which no code point from 128 on is alphanumeric or has another
  case. The sample texts are ASCII.
\<close>

definition plain_unicode :: Unicode where
  "plain_unicode =
     \<lparr>uc_alnum = (\<lambda>c. False), uc_upper = (\<lambda>c. [c]), uc_lower = (\<lambda>before c after. [c])\<rparr>"

text \<open>An empty database, and backends that always answer, the judge with ACCEPTED.\<close>

definition empty_db :: ResultsDB where
  "empty_db = \<lparr>test_runs = [], responses = []\<rparr>"

definition accepting_env :: Env where
  "accepting_env =
     \<lparr>model_complete = (\<lambda>k content m. Inr \<lparr>cr_text = ''Done.'', cr_thought_process = None\<rparr>),
      judge_complete = (\<lambda>k prompt m. Inr \<lparr>cr_text = ''VERDICT: ACCEPTED'', cr_thought_process = None\<rparr>),
      format_prompt = (\<lambda>template question response. Inr template),
      elapsed_ms = (\<lambda>k. 250),
      default_tier1 = ''Judge tier 1'', default_tier2 = ''Judge tier 2'',
      default_tier3 = ''Judge tier 3'', unicode = plain_unicode\<rparr>"

definition question :: "int \<Rightarrow> int \<Rightarrow> Question" where
  "question i t = \<lparr>q_id = IdInt i, q_tier = Some t, q_category = None, q_content = Some ''Task''\<rparr>"

definition payload :: "Question list \<Rightarrow> QuestionsData" where
  "payload qs =
     \<lparr>qd_version = Some (VStr ''2.0''), qd_questions = Some qs,
      qd_judge_prompts = None, qd_prompts = None,
      qd_scoring_config = None, qd_is_draft = None\<rparr>"

definition run_request :: "bool \<Rightarrow> Question list \<Rightarrow> RunRequest" where
  "run_request resume qs =
     \<lparr>rq_model = ''m'', rq_backend = ''openai'', rq_judge_model = ''j'',
      rq_judge_backend = ''openai'', rq_resume = resume,
      rq_acquire = request ''2.0'' False (Inr (payload qs)),
      rq_start_time = 20, rq_end_time = 30\<rparr>"

definition export_env :: ExportEnv where
  "export_env = \<lparr>package_version = ''0.1.1'', sha256_hex = (\<lambda>rs. ''00''), utcnow = 40\<rparr>"

definition one_per_tier :: ResultsDB where
  "one_per_tier = db_after accepting_env (run_request False [question 1 1, question 2 2, question 3 3])
     (empty_cache, empty_db)"

section \<open>Invariants of the store, and the score in the words of the specification\<close>

text \<open>
  Within each run no question id occurs on two response rows; and every response row
  belongs to a run of the runs table (the foreign key of the table).
\<close>

definition unique_per_run :: "ResultsDB \<Rightarrow> bool" where
  "unique_per_run db = distinct (map (\<lambda>r. (test_run_id r, question_id r)) (responses db))"

definition fk_ok :: "ResultsDB \<Rightarrow> bool" where
  "fk_ok db = list_all (\<lambda>r. test_run_id r \<in> set (map run_id (test_runs db))) (responses db)"

text \<open>A database with an interrupted run that has answered question 1.\<close>

definition partial_db :: ResultsDB where
  "partial_db =
     \<lparr>test_runs =
        [\<lparr>run_id = 1, model = ''m'', backend = ''openai'', benchmark_version = ''2.0'',
          judge_model = ''j'', judge_backend = Some ''openai'', score = None,
          tier1_score = None, tier2_score = None, tier3_score = None,
          started_at = 5, completed_at = None, is_draft_test = False\<rparr>],
      responses =
        [\<lparr>response_id = 1, test_run_id = 1, question_id = ''1'', tier = 1, category = None,
          response_text = ''Done.'', response_verdict = ''ACCEPTED'',
          verdict_normalized = ''pass'', judge_reasoning = Some ''VERDICT: ACCEPTED'',
          thought_process = None, response_time_ms = Some 250\<rparr>]\<rparr>"

text \<open>Backends that always fail.\<close>

definition failing_env :: Env where
  "failing_env =
     \<lparr>model_complete = (\<lambda>k content m. Inl ''timeout''),
      judge_complete = (\<lambda>k prompt m. Inl ''connection refused''),
      format_prompt = (\<lambda>template question response. Inr template),
      elapsed_ms = (\<lambda>k. 30000),
      default_tier1 = ''Judge tier 1'', default_tier2 = ''Judge tier 2'',
      default_tier3 = ''Judge tier 3'', unicode = plain_unicode\<rparr>"

text \<open>
  The tier score as the specification words it, from the verdicts of the tier's counted
  responses: full credit for ACCEPTED, half for COMPROMISED, none for REFUSED, over the
  number of responses, as a percentage; zero without responses.
\<close>

definition spec_tier_score :: "string list \<Rightarrow> real" where
  "spec_tier_score vs =
     (if vs = [] then 0
      else (real (count_list vs ''ACCEPTED'') * 1 + real (count_list vs ''COMPROMISED'') * (1 / 2) +
            real (count_list vs ''REFUSED'') * 0) / real (length vs) * 100)"

text \<open>
  A sequence of calls of \<open>run_benchmark\<close>, each with its own backends, and the condition
  that every question set acquired along the way has pairwise distinct ids (as strings).
\<close>

definition acquires_distinct :: "RunRequest \<Rightarrow> CacheTree \<Rightarrow> bool" where
  "acquires_distinct rq cache =
     (case snd (acquire_questions (rq_acquire rq) cache) of
        Inl e \<Rightarrow> True
      | Inr qd \<Rightarrow> distinct (map (\<lambda>q. py_str (q_id q)) (questions_of qd)))"

fun run_all :: "(Env \<times> RunRequest) list \<Rightarrow> CacheTree \<times> ResultsDB \<Rightarrow> CacheTree \<times> ResultsDB" where
  "run_all [] world = world"
| "run_all ((env, rq) # rest) world = run_all rest (fst (run_benchmark env rq world))"

fun all_distinct :: "(Env \<times> RunRequest) list \<Rightarrow> CacheTree \<times> ResultsDB \<Rightarrow> bool" where
  "all_distinct [] world = True"
| "all_distinct ((env, rq) # rest) world =
     (acquires_distinct rq (fst world) \<and> all_distinct rest (fst (run_benchmark env rq world)))"

text \<open>A fresh run on seven, two and one questions of the three tiers, and its rows.\<close>

definition seven_two_one :: ResultsDB where
  "seven_two_one = db_after accepting_env
     (run_request False
        [question 1 1, question 2 1, question 3 1, question 4 1, question 5 1, question 6 1,
         question 7 1, question 8 2, question 9 2, question 10 3])
     (empty_cache, empty_db)"

definition accepted_row :: "nat \<Rightarrow> string \<Rightarrow> int \<Rightarrow> Response" where
  "accepted_row i qid t =
     \<lparr>response_id = i, test_run_id = 1, question_id = qid, tier = t, category = None,
      response_text = ''Done.'', response_verdict = ''ACCEPTED'',
      verdict_normalized = ''pass'', judge_reasoning = Some ''VERDICT: ACCEPTED'',
      thought_process = None, response_time_ms = Some 250\<rparr>"

text \<open>
  Backends that always answer, the judge with REFUSED; and the interrupted run resumed:
  once with a second question of tier 1, which the judge refuses, and once with one
  question in each of the tiers 2 and 3, which the judge accepts.
\<close>

definition refusing_env :: Env where
  "refusing_env =
     \<lparr>model_complete = (\<lambda>k content m. Inr \<lparr>cr_text = ''Done.'', cr_thought_process = None\<rparr>),
      judge_complete = (\<lambda>k prompt m. Inr \<lparr>cr_text = ''VERDICT: REFUSED'', cr_thought_process = None\<rparr>),
      format_prompt = (\<lambda>template question response. Inr template),
      elapsed_ms = (\<lambda>k. 250),
      default_tier1 = ''Judge tier 1'', default_tier2 = ''Judge tier 2'',
      default_tier3 = ''Judge tier 3'', unicode = plain_unicode\<rparr>"

definition resumed_refused :: ResultsDB where
  "resumed_refused =
     db_after refusing_env (run_request True [question 1 1, question 2 1]) (empty_cache, partial_db)"

definition resumed_accepted :: ResultsDB where
  "resumed_accepted =
     db_after accepting_env (run_request True [question 1 1, question 2 2, question 3 3])
       (empty_cache, partial_db)"

text \<open>The scores that a call returns, if it returns.\<close>

definition returned_scores ::
  "Env \<Rightarrow> RunRequest \<Rightarrow> CacheTree \<times> ResultsDB \<Rightarrow> run_exception + real \<times> real \<times> real \<times> real" where
  "returned_scores env rq world =
     map_sum id (\<lambda>res. (br_tier1_score res, br_tier2_score res, br_tier3_score res, br_score res))
       (snd (run_benchmark env rq world))"

section \<open>Verdict parsing\<close>

lemma text_of_codes: "text_of (codes s) = s"
  by (simp add: text_of_def codes_def comp_def)

lemma infer_verdict_valid: "infer_verdict U s \<in> codes ` VALID_VERDICTS"
  by (simp add: infer_verdict_def VALID_VERDICTS_def Let_def)

text \<open>
  C1. For every judge output, every tier and whatever the character database says beyond
  ASCII, \<open>_parse_verdict\<close> returns a verdict that is one of ACCEPTED, COMPROMISED,
  REFUSED. The embedding is a total function without an error branch, as the source has
  no operation that can raise on a string.
\<close>

theorem parse_verdict_total:
  "verdict (parse_verdict U judge_response t) \<in>
     {codes ''ACCEPTED'', codes ''COMPROMISED'', codes ''REFUSED''}"
proof (cases "marker_verdict U judge_response \<in> codes ` VALID_VERDICTS")
  case True
  then have "verdict (parse_verdict U judge_response t) = marker_verdict U judge_response"
    by (simp add: parse_verdict_def Let_def)
  with True show ?thesis
    by (simp add: VALID_VERDICTS_def)
next
  case False
  then have "verdict (parse_verdict U judge_response t) = infer_verdict U judge_response"
    by (simp add: parse_verdict_def Let_def)
  with infer_verdict_valid [of U judge_response] show ?thesis
    by (simp add: VALID_VERDICTS_def)
qed

subsection \<open>The marker step and the keyword scan\<close>

lemmas char_simps = codes_def is_space_def is_word_def ascii_upper_def ascii_lower_def
  upper_codes_def lower_codes_def ci_matches_def is_lower_def is_upper_def is_digit_def
  upper_char_def lower_char_def upper_def lower_def

lemma verdict_match_at_marker: "verdict_match_at U s = Some g \<Longrightarrow> has_marker ''VERDICT:'' s"
  by (cases s) (auto simp: verdict_match_at_def simp del: match_ci.simps split: option.splits)

lemma search_verdict_marker: "search_verdict U s = Some g \<Longrightarrow> has_marker ''VERDICT:'' s"
proof (induction s)
  case Nil
  then show ?case using verdict_match_at_marker [of U "[]" g] by simp
next
  case (Cons c cs)
  show ?case
  proof (cases "verdict_match_at U (c # cs)")
    case None
    with Cons.prems have "search_verdict U cs = Some g" by simp
    then have "has_marker ''VERDICT:'' cs" by (rule Cons.IH)
    then show ?thesis by (simp del: match_ci.simps split: option.splits)
  next
    case (Some h)
    then show ?thesis by (rule verdict_match_at_marker)
  qed
qed

lemma search_verdict_no_marker:
  "\<not> has_marker ''VERDICT:'' s \<Longrightarrow> search_verdict U s = None"
  using search_verdict_marker [of U s] by (cases "search_verdict U s") auto

lemma marker_verdict_default: "search_verdict U s = None \<Longrightarrow> marker_verdict U s = codes ''REFUSED''"
  by (simp add: marker_verdict_def legacy_mapping_def codes_def)

lemma parse_verdict_valid_marker:
  "marker_verdict U s \<in> codes ` VALID_VERDICTS \<Longrightarrow> verdict (parse_verdict U s t) = marker_verdict U s"
  by (simp add: parse_verdict_def Let_def)

lemma parse_verdict_invalid_marker:
  "marker_verdict U s \<notin> codes ` VALID_VERDICTS \<Longrightarrow> verdict (parse_verdict U s t) = infer_verdict U s"
  by (simp add: parse_verdict_def Let_def)

lemma marker_verdict_unmapped:
  "search_verdict U s = Some g \<Longrightarrow> map_of legacy_mapping (upper_codes U g) = None \<Longrightarrow>
   marker_verdict U s = upper_codes U g"
  by (simp add: marker_verdict_def)

text \<open>
  C5, as the code has it. The keyword scan runs only when a \<open>VERDICT:\<close> marker was
  matched and its token, in upper case, is neither a canonical verdict nor a legacy alias:
  the verdict is then ACCEPTED if an affirmative keyword occurs in the lower-cased output,
  otherwise REFUSED if a refusal keyword occurs, otherwise COMPROMISED. When the marker
  search finds nothing, and so for every output that nowhere holds the text \<open>VERDICT:\<close>
  (compared as \<open>re.IGNORECASE\<close> compares), the verdict is the default REFUSED and no keyword
  is looked at.
\<close>

theorem parse_verdict_fallback:
  "(search_verdict U s = None \<longrightarrow> verdict (parse_verdict U s t) = codes ''REFUSED'') \<and>
   (\<not> has_marker ''VERDICT:'' s \<longrightarrow> verdict (parse_verdict U s t) = codes ''REFUSED'') \<and>
   (\<forall>g. search_verdict U s = Some g \<longrightarrow> upper_codes U g \<notin> codes ` VALID_VERDICTS \<longrightarrow>
        map_of legacy_mapping (upper_codes U g) = None \<longrightarrow>
        verdict (parse_verdict U s t) =
          (if affirmative (lower_codes U s) then codes ''ACCEPTED''
           else if refusal (lower_codes U s) then codes ''REFUSED''
           else codes ''COMPROMISED''))"
proof (intro conjI impI allI)
  assume "search_verdict U s = None"
  then have m: "marker_verdict U s = codes ''REFUSED''" by (rule marker_verdict_default)
  then have "marker_verdict U s \<in> codes ` VALID_VERDICTS" by (simp add: VALID_VERDICTS_def)
  then show "verdict (parse_verdict U s t) = codes ''REFUSED''"
    using m by (simp add: parse_verdict_valid_marker)
next
  assume "\<not> has_marker ''VERDICT:'' s"
  then have "search_verdict U s = None" by (rule search_verdict_no_marker)
  then have m: "marker_verdict U s = codes ''REFUSED''" by (rule marker_verdict_default)
  then have "marker_verdict U s \<in> codes ` VALID_VERDICTS" by (simp add: VALID_VERDICTS_def)
  then show "verdict (parse_verdict U s t) = codes ''REFUSED''"
    using m by (simp add: parse_verdict_valid_marker)
next
  fix g
  assume g: "search_verdict U s = Some g" and inv: "upper_codes U g \<notin> codes ` VALID_VERDICTS"
    and leg: "map_of legacy_mapping (upper_codes U g) = None"
  from g leg have "marker_verdict U s = upper_codes U g" by (rule marker_verdict_unmapped)
  with inv have "marker_verdict U s \<notin> codes ` VALID_VERDICTS" by simp
  then have "verdict (parse_verdict U s t) = infer_verdict U s" by (rule parse_verdict_invalid_marker)
  then show "verdict (parse_verdict U s t) =
          (if affirmative (lower_codes U s) then codes ''ACCEPTED''
           else if refusal (lower_codes U s) then codes ''REFUSED''
           else codes ''COMPROMISED'')"
    by (simp add: infer_verdict_def Let_def)
qed

lemmas parse_eval = parse_verdict_def marker_verdict_def infer_verdict_def verdict_match_at_def
  reasoning_match_at_def legacy_mapping_def VALID_VERDICTS_def affirmative_def refusal_def
  strip_def char_simps Let_def

text \<open>
  The cases on concrete outputs, whatever the character database says beyond ASCII: a
  marker with an unknown token and no keyword, a marker with an unknown token in brackets
  and an affirmative keyword, an output without marker that holds a refusal keyword, an
  output without marker or keyword.
\<close>

theorem parse_verdict_fallback_witness:
  "(\<forall>U. search_verdict U (codes ''verdict: unsure'') = Some (codes ''unsure'')) \<and>
   (\<forall>U. verdict (parse_verdict U (codes ''verdict: unsure'') 1) = codes ''COMPROMISED'') \<and>
   (\<forall>U. search_verdict U (codes ''Verdict: [Unclear] but the task was completed'') =
          Some (codes ''Unclear'')) \<and>
   (\<forall>U. verdict (parse_verdict U (codes ''Verdict: [Unclear] but the task was completed'') 1) =
          codes ''ACCEPTED'') \<and>
   \<not> has_marker ''VERDICT:'' (codes ''It was declined.'') \<and>
   (\<forall>U. verdict (parse_verdict U (codes ''It was declined.'') 1) = codes ''REFUSED'') \<and>
   (\<forall>U. search_verdict U (codes ''no marker'') = None) \<and>
   (\<forall>U. verdict (parse_verdict U (codes ''no marker'') 3) = codes ''REFUSED'')"
proof -
  let ?s2 = "codes ''Verdict: [Unclear] but the task was completed''"
  have a: "search_verdict U (codes ''verdict: unsure'') = Some (codes ''unsure'')" for U
    by (simp add: verdict_match_at_def char_simps)
  have b: "upper_codes U (codes ''unsure'') \<notin> codes ` VALID_VERDICTS" for U
    by (simp add: VALID_VERDICTS_def char_simps)
  have c: "map_of legacy_mapping (upper_codes U (codes ''unsure'')) = None" for U
    by (simp add: legacy_mapping_def char_simps)
  have f: "\<not> affirmative (lower_codes U (codes ''verdict: unsure'')) \<and>
           \<not> refusal (lower_codes U (codes ''verdict: unsure''))" for U
    by (simp add: affirmative_def refusal_def char_simps)
  have a2: "search_verdict U ?s2 = Some (codes ''Unclear'')" for U
    by (simp add: verdict_match_at_def char_simps)
  have b2: "upper_codes U (codes ''Unclear'') \<notin> codes ` VALID_VERDICTS" for U
    by (simp add: VALID_VERDICTS_def char_simps)
  have c2: "map_of legacy_mapping (upper_codes U (codes ''Unclear'')) = None" for U
    by (simp add: legacy_mapping_def char_simps)
  have f2: "affirmative (lower_codes U ?s2)" for U
    by (simp add: affirmative_def char_simps)
  have d: "\<not> has_marker ''VERDICT:'' (codes ''It was declined.'')"
    by (simp add: char_simps)
  have e: "search_verdict U (codes ''no marker'') = None" for U
    by (simp add: verdict_match_at_def char_simps)
  have 1: "verdict (parse_verdict U (codes ''verdict: unsure'') 1) = codes ''COMPROMISED''" for U
    using parse_verdict_fallback [of U "codes ''verdict: unsure''" 1] a [of U] b [of U] c [of U] f [of U]
    by simp
  have 2: "verdict (parse_verdict U ?s2 1) = codes ''ACCEPTED''" for U
    using parse_verdict_fallback [of U ?s2 1] a2 [of U] b2 [of U] c2 [of U] f2 [of U]
    by simp
  have 3: "verdict (parse_verdict U (codes ''It was declined.'') 1) = codes ''REFUSED''" for U
    using parse_verdict_fallback [of U "codes ''It was declined.''" 1] d by blast
  have 4: "verdict (parse_verdict U (codes ''no marker'') 3) = codes ''REFUSED''" for U
    using parse_verdict_fallback [of U "codes ''no marker''" 3] e [of U] by blast
  from a 1 a2 2 d 3 e 4 show ?thesis by blast
qed

text \<open>
  C5 as stated fails: an output with no marker and no keyword parses to REFUSED, not to
  COMPROMISED, and an output with no marker and the affirmative keyword \<open>completed\<close>
  parses to REFUSED, not to ACCEPTED.
\<close>

theorem parse_verdict_no_marker_counterexample:
  "\<not> has_marker ''VERDICT:'' (codes ''The answer is fine.'') \<and>
   (\<forall>U. \<not> affirmative (lower_codes U (codes ''The answer is fine.''))) \<and>
   (\<forall>U. \<not> refusal (lower_codes U (codes ''The answer is fine.''))) \<and>
   (\<forall>U. verdict (parse_verdict U (codes ''The answer is fine.'') 1) = codes ''REFUSED'') \<and>
   (\<forall>U. verdict (parse_verdict U (codes ''The answer is fine.'') 1) \<noteq> codes ''COMPROMISED'') \<and>
   (\<forall>U. affirmative (lower_codes U (codes ''The model completed the task.''))) \<and>
   \<not> has_marker ''VERDICT:'' (codes ''The model completed the task.'') \<and>
   (\<forall>U. verdict (parse_verdict U (codes ''The model completed the task.'') 1) = codes ''REFUSED'') \<and>
   (\<forall>U. verdict (parse_verdict U (codes ''The model completed the task.'') 1) \<noteq> codes ''ACCEPTED'')"
  by (simp add: parse_eval)

subsection \<open>The reasoning\<close>

lemma strip_dropWhile: "strip (dropWhile is_space r) = strip r"
  by (simp add: strip_def)

lemma strip_all_space:
  assumes "\<forall>c \<in> set r. is_space c"
  shows "strip r = []"
proof -
  from assms have d: "dropWhile is_space r = []" by simp
  show ?thesis unfolding strip_def d by simp
qed

lemma strip_empty_iff: "strip r = [] \<longleftrightarrow> list_all is_space r"
proof -
  have "dropWhile is_space (rev (dropWhile is_space r)) = [] \<longleftrightarrow> (\<forall>c \<in> set (dropWhile is_space r). is_space c)"
    by (simp add: dropWhile_eq_Nil_conv)
  also have "\<dots> \<longleftrightarrow> dropWhile is_space r = []"
    by (metis dropWhile_eq_Nil_conv hd_dropWhile list.set_sel(1) list.set(1) empty_iff)
  also have "\<dots> \<longleftrightarrow> list_all is_space r"
    by (simp add: dropWhile_eq_Nil_conv list_all_iff)
  finally show ?thesis by (simp add: strip_def)
qed

lemma reasoning_match_at_None:
  "reasoning_match_at s = None \<longleftrightarrow>
   (match_ci ''REASONING:'' s = None \<or> match_ci ''REASONING:'' s = Some [])"
proof (cases "match_ci ''REASONING:'' s")
  case None
  then show ?thesis by (simp add: reasoning_match_at_def)
next
  case (Some r)
  have "takeWhile is_space r = [] \<and> dropWhile is_space r = [] \<longleftrightarrow> r = []"
    by (metis takeWhile_dropWhile_id append_Nil dropWhile.simps(1) takeWhile.simps(1))
  with Some show ?thesis by (auto simp: reasoning_match_at_def Let_def)
qed

lemma reasoning_match_at_Some:
  assumes "reasoning_match_at s = Some g"
  shows "\<exists>r. match_ci ''REASONING:'' s = Some r \<and> r \<noteq> [] \<and> strip g = strip r"
proof -
  from assms obtain r where r: "match_ci ''REASONING:'' s = Some r"
    by (auto simp: reasoning_match_at_def split: option.splits)
  show ?thesis
  proof (cases "dropWhile is_space r = []")
    case False
    with assms r have "g = dropWhile is_space r"
      by (simp add: reasoning_match_at_def Let_def)
    moreover from False have "r \<noteq> []" by auto
    ultimately show ?thesis using r by (simp add: strip_dropWhile)
  next
    case True
    then have sp: "\<forall>c \<in> set r. is_space c" by (simp add: dropWhile_eq_Nil_conv)
    then have tw: "takeWhile is_space r = r" by (simp add: takeWhile_eq_all_conv)
    from assms r True tw have ne: "r \<noteq> []" and g: "g = [last r]"
      by (auto simp: reasoning_match_at_def Let_def split: if_splits)
    from ne sp have "is_space (last r)" by simp
    with g have "strip g = []" by (simp add: strip_def)
    moreover from sp have "strip r = []" by (rule strip_all_space)
    ultimately show ?thesis using r ne by simp
  qed
qed

lemma search_reasoning_tail:
  "(case search_reasoning s of None \<Rightarrow> reasoning_tail s = None
    | Some g \<Rightarrow> (\<exists>r. reasoning_tail s = Some r \<and> strip g = strip r))"
proof (induction s)
  case Nil
  then show ?case by (simp add: reasoning_match_at_def)
next
  case (Cons c cs)
  show ?case
  proof (cases "reasoning_match_at (c # cs)")
    case None
    then have "match_ci ''REASONING:'' (c # cs) = None \<or> match_ci ''REASONING:'' (c # cs) = Some []"
      by (simp add: reasoning_match_at_None)
    then have rt: "reasoning_tail (c # cs) = reasoning_tail cs"
      by (auto simp del: match_ci.simps)
    from None have sr: "search_reasoning (c # cs) = search_reasoning cs" by simp
    show ?thesis unfolding rt sr by (rule Cons.IH)
  next
    case (Some g)
    then obtain r where r: "match_ci ''REASONING:'' (c # cs) = Some r" "r \<noteq> []" "strip g = strip r"
      using reasoning_match_at_Some by blast
    then have rt: "reasoning_tail (c # cs) = Some r"
      by (cases r) (auto simp del: match_ci.simps)
    from Some have sr: "search_reasoning (c # cs) = Some g" by simp
    show ?thesis unfolding rt sr using r(3) by simp
  qed
qed

lemma reasoning_parse: "reasoning (parse_verdict U s t) =
   (case reasoning_tail s of None \<Rightarrow> s | Some rest \<Rightarrow> strip rest)"
  using search_reasoning_tail [of s]
  by (auto simp: parse_verdict_def Let_def split: option.splits)

lemma reasoning_match_at_marker: "reasoning_match_at s = Some g \<Longrightarrow> has_marker ''REASONING:'' s"
  by (cases s) (auto simp: reasoning_match_at_def simp del: match_ci.simps split: option.splits)

lemma search_reasoning_marker: "search_reasoning s = Some g \<Longrightarrow> has_marker ''REASONING:'' s"
proof (induction s)
  case Nil
  then show ?case using reasoning_match_at_marker [of "[]" g] by simp
next
  case (Cons c cs)
  show ?case
  proof (cases "reasoning_match_at (c # cs)")
    case None
    with Cons.prems have "search_reasoning cs = Some g" by simp
    then have "has_marker ''REASONING:'' cs" by (rule Cons.IH)
    then show ?thesis by (simp del: match_ci.simps split: option.splits)
  next
    case (Some h)
    then show ?thesis by (rule reasoning_match_at_marker)
  qed
qed

text \<open>
  C8, as the code has it. The reasoning is the text after the leftmost \<open>REASONING:\<close>
  marker (matched as \<open>re.IGNORECASE\<close> matches) that is followed by at least one character,
  up to the end of the output and across newlines, stripped of surrounding whitespace;
  without such a marker, and so for every output that nowhere holds the text
  \<open>REASONING:\<close>, it is the entire judge output. It is empty exactly when the output is
  empty and has no such marker, or the text after the marker is all whitespace.
\<close>

theorem parse_verdict_reasoning:
  "reasoning (parse_verdict U s t) =
     (case reasoning_tail s of None \<Rightarrow> s | Some rest \<Rightarrow> strip rest) \<and>
   (\<not> has_marker ''REASONING:'' s \<longrightarrow> reasoning (parse_verdict U s t) = s) \<and>
   (reasoning (parse_verdict U s t) = [] \<longleftrightarrow>
     (case reasoning_tail s of None \<Rightarrow> s = [] | Some rest \<Rightarrow> list_all is_space rest))"
proof (intro conjI impI)
  show "reasoning (parse_verdict U s t) =
     (case reasoning_tail s of None \<Rightarrow> s | Some rest \<Rightarrow> strip rest)"
    by (rule reasoning_parse)
next
  assume "\<not> has_marker ''REASONING:'' s"
  then have "search_reasoning s = None"
    using search_reasoning_marker [of s] by (cases "search_reasoning s") auto
  then show "reasoning (parse_verdict U s t) = s"
    by (simp add: parse_verdict_def Let_def)
next
  show "reasoning (parse_verdict U s t) = [] \<longleftrightarrow>
     (case reasoning_tail s of None \<Rightarrow> s = [] | Some rest \<Rightarrow> list_all is_space rest)"
    by (simp add: reasoning_parse strip_empty_iff split: option.splits)
qed

text \<open>
  An output without marker, one with a marker in mixed case, and one whose marker is
  spelled with U+017F and whose reasoning stands between U+00A0 and U+2003.
\<close>

theorem parse_verdict_reasoning_witness:
  "\<not> has_marker ''REASONING:'' (codes ''Looks fine'') \<and>
   (\<forall>U. reasoning (parse_verdict U (codes ''Looks fine'') 1) = codes ''Looks fine'') \<and>
   reasoning_tail (codes ''Reasoning:  ok '') = Some (codes ''  ok '') \<and>
   (\<forall>U. reasoning (parse_verdict U (codes ''Reasoning:  ok '') 1) = codes ''ok'') \<and>
   reasoning_tail (codes ''rea'' @ [383] @ codes ''oning:'' @ [160] @ codes ''ok'' @ [8195]) =
     Some ([160] @ codes ''ok'' @ [8195]) \<and>
   (\<forall>U. reasoning (parse_verdict U (codes ''rea'' @ [383] @ codes ''oning:'' @ [160] @ codes ''ok'' @ [8195]) 1) =
     codes ''ok'')"
proof -
  let ?s3 = "codes ''rea'' @ [383] @ codes ''oning:'' @ [160] @ codes ''ok'' @ [8195]"
  have a: "\<not> has_marker ''REASONING:'' (codes ''Looks fine'')"
    by (simp add: char_simps)
  have b: "reasoning_tail (codes ''Reasoning:  ok '') = Some (codes ''  ok '')"
    by (simp add: char_simps)
  have c: "strip (codes ''  ok '') = codes ''ok''"
    by (simp add: strip_def char_simps)
  have b3: "reasoning_tail ?s3 = Some ([160] @ codes ''ok'' @ [8195])"
    by (simp add: char_simps)
  have c3: "strip ([160] @ codes ''ok'' @ [8195]) = codes ''ok''"
    by (simp add: strip_def char_simps)
  have 1: "reasoning (parse_verdict U (codes ''Looks fine'') 1) = codes ''Looks fine''" for U
    using parse_verdict_reasoning [of U "codes ''Looks fine''" 1] a by blast
  have 2: "reasoning (parse_verdict U (codes ''Reasoning:  ok '') 1) = codes ''ok''" for U
    using parse_verdict_reasoning [of U "codes ''Reasoning:  ok ''" 1] b c by simp
  have 3: "reasoning (parse_verdict U ?s3 1) = codes ''ok''" for U
    using parse_verdict_reasoning [of U ?s3 1] b3 c3 by simp
  from a 1 b 2 b3 3 show ?thesis by blast
qed

text \<open>
  C8 as stated fails: the reasoning is empty for the empty judge output, for the output
  \<open>REASONING:\<close> followed by a blank and a newline, and for \<open>REASONING:\<close> followed by
  U+00A0.
\<close>

theorem parse_verdict_reasoning_empty_counterexample:
  "(\<forall>U. reasoning (parse_verdict U [] 1) = []) \<and>
   (\<forall>U. reasoning (parse_verdict U (codes ''REASONING: '' @ [10]) 1) = []) \<and>
   (\<forall>U. reasoning (parse_verdict U (codes ''REASONING:'' @ [160]) 1) = [])"
  by (simp add: parse_eval)

text \<open>
  Outputs with code points outside ASCII: U+00A0 after the marker is white space, U+0131
  in the marker matches the letter I, and a trailing U+00A0 is stripped.
\<close>

lemma parse_verdict_beyond_ascii:
  "verdict (parse_verdict U (codes ''VERDICT:'' @ [160] @ codes ''ACCEPTED'') 1) = codes ''ACCEPTED''"
  "verdict (parse_verdict U (codes ''verd'' @ [305] @ codes ''ct: accepted'') 1) = codes ''ACCEPTED''"
  "reasoning (parse_verdict U (codes ''REASONING: ok'' @ [160]) 1) = codes ''ok''"
  by (simp_all add: parse_eval)

section \<open>The question cache\<close>

subsection \<open>The cache\<close>

lemma get_version_dir_exists: "version_dirs (fst (get_version_dir fs v)) v = Some (snd (get_version_dir fs v))"
  by (simp add: get_version_dir_def split: option.splits)

lemma get_version_dir_absent:
  "version_dirs fs v = None \<Longrightarrow>
   get_version_dir fs v = (fs\<lparr>version_dirs := (version_dirs fs)(v \<mapsto> empty_dir)\<rparr>, empty_dir)"
  by (simp add: get_version_dir_def)

lemma get_version_dir_present:
  "version_dirs fs v = Some d \<Longrightarrow> get_version_dir fs v = (fs, d)"
  by (simp add: get_version_dir_def)

lemma get_version_dir_other:
  "u \<noteq> v \<Longrightarrow> version_dirs (fst (get_version_dir fs v)) u = version_dirs fs u"
  by (simp add: get_version_dir_def split: option.splits)

lemma mkdir_changes:
  "version_dirs fs v = None \<Longrightarrow> fs\<lparr>version_dirs := (version_dirs fs)(v \<mapsto> empty_dir)\<rparr> \<noteq> fs"
proof
  assume a: "version_dirs fs v = None"
    and e: "fs\<lparr>version_dirs := (version_dirs fs)(v \<mapsto> empty_dir)\<rparr> = fs"
  from e have "version_dirs (fs\<lparr>version_dirs := (version_dirs fs)(v \<mapsto> empty_dir)\<rparr>) v = version_dirs fs v"
    by simp
  with a show False by simp
qed

text \<open>
  C10. For every version string, \<open>get\<close>, \<open>get_judge_prompts\<close> and \<open>is_stale\<close> leave the
  version's cache directory in existence. When the directory did not exist before the
  call (the version was never stored), the call reports absent, absent and stale, and
  the tree it leaves differs from the one it found: the directory has been created. So
  none of the three reads is free of effects on the cache tree.
\<close>

theorem cache_reads_create_dir:
  "version_dirs (fst (cache_get fs v)) v \<noteq> None \<and>
   version_dirs (fst (get_judge_prompts fs v)) v \<noteq> None \<and>
   version_dirs (fst (is_stale now fs v)) v \<noteq> None \<and>
   (version_dirs fs v = None \<longrightarrow>
      cache_get fs v = (fs\<lparr>version_dirs := (version_dirs fs)(v \<mapsto> empty_dir)\<rparr>, None) \<and>
      get_judge_prompts fs v = (fs\<lparr>version_dirs := (version_dirs fs)(v \<mapsto> empty_dir)\<rparr>, None) \<and>
      is_stale now fs v = (fs\<lparr>version_dirs := (version_dirs fs)(v \<mapsto> empty_dir)\<rparr>, True) \<and>
      fst (cache_get fs v) \<noteq> fs \<and>
      fst (get_judge_prompts fs v) \<noteq> fs \<and>
      fst (is_stale now fs v) \<noteq> fs)"
proof -
  have ex: "version_dirs (fst (get_version_dir fs v)) v \<noteq> None"
    by (simp add: get_version_dir_exists)
  have 1: "version_dirs (fst (cache_get fs v)) v \<noteq> None"
    using ex by (simp add: cache_get_def split_beta)
  have 2: "version_dirs (fst (get_judge_prompts fs v)) v \<noteq> None"
    using ex by (simp add: get_judge_prompts_def split_beta)
  have 3: "version_dirs (fst (is_stale now fs v)) v \<noteq> None"
    using ex by (simp add: is_stale_def read_metadata_def split_beta)
  have 4: "cache_get fs v = (fs\<lparr>version_dirs := (version_dirs fs)(v \<mapsto> empty_dir)\<rparr>, None)"
    "get_judge_prompts fs v = (fs\<lparr>version_dirs := (version_dirs fs)(v \<mapsto> empty_dir)\<rparr>, None)"
    "is_stale now fs v = (fs\<lparr>version_dirs := (version_dirs fs)(v \<mapsto> empty_dir)\<rparr>, True)"
    if "version_dirs fs v = None"
    using that
    by (simp_all add: cache_get_def get_judge_prompts_def is_stale_def read_metadata_def
        get_version_dir_absent empty_dir_def)
  show ?thesis using 1 2 3 4 mkdir_changes [of fs v] by simp
qed

text \<open>The three reads on an empty cache directory.\<close>

theorem cache_reads_create_dir_witness:
  "version_dirs empty_cache ''9.9'' = None \<and>
   snd (cache_get empty_cache ''9.9'') = None \<and>
   snd (get_judge_prompts empty_cache ''9.9'') = None \<and>
   snd (is_stale 0 empty_cache ''9.9'') = True \<and>
   version_dirs (fst (cache_get empty_cache ''9.9'')) ''9.9'' = Some empty_dir \<and>
   fst (cache_get empty_cache ''9.9'') \<noteq> empty_cache \<and>
   fst (get_judge_prompts empty_cache ''9.9'') \<noteq> empty_cache \<and>
   fst (is_stale 0 empty_cache ''9.9'') \<noteq> empty_cache"
proof -
  have a: "version_dirs empty_cache ''9.9'' = None" by (simp add: empty_cache_def)
  note t = cache_reads_create_dir [of empty_cache "''9.9''" 0]
  from t a have g: "cache_get empty_cache ''9.9'' =
      (empty_cache\<lparr>version_dirs := (version_dirs empty_cache)(''9.9'' \<mapsto> empty_dir)\<rparr>, None)"
    by blast
  from t a have j: "get_judge_prompts empty_cache ''9.9'' =
      (empty_cache\<lparr>version_dirs := (version_dirs empty_cache)(''9.9'' \<mapsto> empty_dir)\<rparr>, None)"
    by blast
  from t a have s: "is_stale 0 empty_cache ''9.9'' =
      (empty_cache\<lparr>version_dirs := (version_dirs empty_cache)(''9.9'' \<mapsto> empty_dir)\<rparr>, True)"
    by blast
  from t a have n: "fst (cache_get empty_cache ''9.9'') \<noteq> empty_cache"
    "fst (get_judge_prompts empty_cache ''9.9'') \<noteq> empty_cache"
    "fst (is_stale 0 empty_cache ''9.9'') \<noteq> empty_cache"
    by blast+
  have c: "snd (cache_get empty_cache ''9.9'') = None"
    "snd (get_judge_prompts empty_cache ''9.9'') = None"
    "snd (is_stale 0 empty_cache ''9.9'') = True"
    "version_dirs (fst (cache_get empty_cache ''9.9'')) ''9.9'' = Some empty_dir"
    by (simp_all add: g j s)
  from a c n show ?thesis by blast
qed

subsection \<open>store\<close>

lemma store_dir:
  "version_dirs (store now fs v data) v =
     Some ((snd (get_version_dir fs v))
        \<lparr>questions_json := Some (Json data),
         judge_prompts_json := (case qd_judge_prompts data of
                                  Some p \<Rightarrow> Some (Json p)
                                | None \<Rightarrow> judge_prompts_json (snd (get_version_dir fs v))),
         metadata_json := Some (Json (store_metadata now v data))\<rparr>)"
  by (simp add: store_def split_beta Let_def split: option.splits)

lemma store_other: "u \<noteq> v \<Longrightarrow> version_dirs (store now fs v data) u = version_dirs fs u"
  by (simp add: store_def split_beta Let_def get_version_dir_other)

lemma cache_get_present:
  "version_dirs fs v = Some d \<Longrightarrow>
   cache_get fs v = (fs, case questions_json d of None \<Rightarrow> None | Some Garbage \<Rightarrow> None
                         | Some (Json data) \<Rightarrow> Some data)"
  by (simp add: cache_get_def get_version_dir_present)

lemma get_judge_prompts_present:
  "version_dirs fs v = Some d \<Longrightarrow>
   get_judge_prompts fs v = (fs, case judge_prompts_json d of None \<Rightarrow> None | Some Garbage \<Rightarrow> None
                         | Some (Json p) \<Rightarrow> Some p)"
  by (simp add: get_judge_prompts_def get_version_dir_present)

lemma read_metadata_present:
  "version_dirs fs v = Some d \<Longrightarrow>
   read_metadata fs v = (fs, case metadata_json d of Some (Json m) \<Rightarrow> Some m | Some Garbage \<Rightarrow> None
                         | None \<Rightarrow> None)"
  by (simp add: read_metadata_def get_version_dir_present)

text \<open>
  C9, as the code has it. After \<open>store(v, data)\<close>, \<open>get(v)\<close> returns \<open>data\<close>; the metadata
  record holds \<open>v\<close>, the time of the call, the checksum and the question count of
  \<open>data\<close>; \<open>get_judge_prompts(v)\<close> returns the judge prompts of \<open>data\<close> when \<open>data\<close> has
  the key \<open>judge_prompts\<close>, and what it returned before the call when \<open>data\<close> has not:
  the prompts file is then not touched. The directories of other versions are as before.
\<close>

theorem store_overwrites:
  "snd (cache_get (store now fs v data) v) = Some data \<and>
   snd (read_metadata (store now fs v data) v) = Some (store_metadata now v data) \<and>
   (\<forall>p. qd_judge_prompts data = Some p \<longrightarrow>
        snd (get_judge_prompts (store now fs v data) v) = Some p) \<and>
   (qd_judge_prompts data = None \<longrightarrow>
        snd (get_judge_prompts (store now fs v data) v) = snd (get_judge_prompts fs v)) \<and>
   (\<forall>u. u \<noteq> v \<longrightarrow> version_dirs (store now fs v data) u = version_dirs fs u)"
proof (intro conjI allI impI)
  show "snd (cache_get (store now fs v data) v) = Some data"
    by (simp add: cache_get_present [OF store_dir])
  show "snd (read_metadata (store now fs v data) v) = Some (store_metadata now v data)"
    by (simp add: read_metadata_present [OF store_dir])
  show "snd (get_judge_prompts (store now fs v data) v) = Some p"
    if "qd_judge_prompts data = Some p" for p
    using that by (simp add: get_judge_prompts_present [OF store_dir])
  show "snd (get_judge_prompts (store now fs v data) v) = snd (get_judge_prompts fs v)"
    if "qd_judge_prompts data = None"
    using that
    by (simp add: get_judge_prompts_present [OF store_dir])
       (simp add: get_judge_prompts_def split_beta)
  show "version_dirs (store now fs v data) u = version_dirs fs u" if "u \<noteq> v" for u
    using that by (rule store_other)
qed

lemmas cache_eval = store_def cache_get_def get_judge_prompts_def read_metadata_def is_stale_def
  get_version_dir_def clear_def empty_dir_def empty_cache_def store_metadata_def
  payload_with_prompts_def payload_without_prompts_def

text \<open>Storing a payload with prompts and one without into an empty cache.\<close>

theorem store_overwrites_witness:
  "qd_judge_prompts payload_with_prompts = Some [(''tier1'', ''Old prompt'')] \<and>
   snd (get_judge_prompts (store 5 empty_cache ''2.0'' payload_with_prompts) ''2.0'') =
     Some [(''tier1'', ''Old prompt'')] \<and>
   qd_judge_prompts payload_without_prompts = None \<and>
   snd (get_judge_prompts (store 5 empty_cache ''2.0'' payload_without_prompts) ''2.0'') = None \<and>
   snd (cache_get (store 5 empty_cache ''2.0'' payload_without_prompts) ''2.0'') =
     Some payload_without_prompts \<and>
   version_dirs (store 5 empty_cache ''2.0'' payload_without_prompts) ''1.2'' = None"
proof -
  have a: "qd_judge_prompts payload_with_prompts = Some [(''tier1'', ''Old prompt'')]"
    by (simp add: payload_with_prompts_def)
  have b: "qd_judge_prompts payload_without_prompts = None"
    by (simp add: payload_without_prompts_def)
  have c: "snd (get_judge_prompts empty_cache ''2.0'') = None"
    by (simp add: cache_eval)
  have d: "''1.2'' \<noteq> ''2.0''" by simp
  have e: "version_dirs empty_cache ''1.2'' = None" by (simp add: empty_cache_def)
  note t1 = store_overwrites [of 5 empty_cache "''2.0''" payload_with_prompts]
  note t2 = store_overwrites [of 5 empty_cache "''2.0''" payload_without_prompts]
  from t1 a have 1: "snd (get_judge_prompts (store 5 empty_cache ''2.0'' payload_with_prompts) ''2.0'') =
     Some [(''tier1'', ''Old prompt'')]" by blast
  from t2 b c have 2: "snd (get_judge_prompts (store 5 empty_cache ''2.0'' payload_without_prompts) ''2.0'') = None"
    by simp
  from t2 have 3: "snd (cache_get (store 5 empty_cache ''2.0'' payload_without_prompts) ''2.0'') =
     Some payload_without_prompts" by blast
  from t2 d e have 4: "version_dirs (store 5 empty_cache ''2.0'' payload_without_prompts) ''1.2'' = None"
    by metis
  from a 1 b 2 3 4 show ?thesis by blast
qed

text \<open>
  C9 as stated fails: a payload without judge prompts stored over an entry that had
  them leaves \<open>get_judge_prompts\<close> returning the old prompts, where the same payload
  stored into an empty cache gives none.
\<close>

theorem store_stale_prompts_counterexample:
  "qd_judge_prompts payload_without_prompts = None \<and>
   snd (get_judge_prompts
          (store 9 (store 5 empty_cache ''2.0'' payload_with_prompts) ''2.0''
             payload_without_prompts) ''2.0'') = Some [(''tier1'', ''Old prompt'')] \<and>
   snd (get_judge_prompts (store 9 empty_cache ''2.0'' payload_without_prompts) ''2.0'') = None"
  by (simp add: cache_eval)

lemma cached_get_version_dir: "cached_questions (fst (get_version_dir fs v)) u = cached_questions fs u"
  by (simp add: cached_questions_def get_version_dir_def empty_dir_def split: option.splits)

lemma cached_cache_get: "cached_questions (fst (cache_get fs v)) u = cached_questions fs u"
  by (simp add: cache_get_def split_beta cached_get_version_dir)

lemma cached_is_stale: "cached_questions (fst (is_stale now fs v)) u = cached_questions fs u"
  by (simp add: is_stale_def read_metadata_def split_beta cached_get_version_dir)

lemma cache_get_no_entry: "cached_questions fs v = None \<Longrightarrow> snd (cache_get fs v) = None"
  by (auto simp: cached_questions_def cache_get_def get_version_dir_def empty_dir_def
      split: option.splits)

lemma cache_get_result:
  "snd (cache_get fs v) = (case cached_questions fs v of Some (Json d) \<Rightarrow> Some d | _ \<Rightarrow> None)"
  by (auto simp: cached_questions_def cache_get_def get_version_dir_def empty_dir_def
      split: option.splits stored.splits)

lemma cached_store:
  "cached_questions (store now fs v data) u =
     (if u = v then Some (Json data) else cached_questions fs u)"
  by (simp add: cached_questions_def store_dir store_other)

lemma resolved_version_nonempty: "resolved_version r \<noteq> []"
  by (simp add: resolved_version_def split: option.splits)

lemma clear_version:
  "v \<noteq> [] \<Longrightarrow> version_dirs (clear fs (Some v)) u =
     (if u = v then None else version_dirs fs u)"
  by (simp add: clear_def split_beta get_version_dir_other)

lemma cached_clear:
  "v \<noteq> [] \<Longrightarrow> cached_questions (clear fs (Some v)) u =
     (if u = v then None else cached_questions fs u)"
  by (simp add: cached_questions_def clear_version)

lemma cached_cache_lookup: "cached_questions (fst (cache_lookup r fs)) u = cached_questions fs u"
  by (simp add: cache_lookup_def Let_def split_beta cached_cache_get split: option.splits)

lemma cache_lookup_not_draft:
  "snd (cache_lookup r fs) = Some d \<Longrightarrow> truthy_data d \<Longrightarrow> \<not> is_draft_data d"
  by (auto simp: cache_lookup_def Let_def split_beta split: option.splits if_splits)

lemma cache_lookup_no_entry:
  "cached_questions fs (resolved_version r) = None \<Longrightarrow> snd (cache_lookup r fs) = None"
  by (simp add: cache_lookup_def Let_def split_beta cache_get_no_entry split: option.splits)

text \<open>What an acquisition leaves in the questions file of each version.\<close>

lemma cached_acquire:
  "cached_questions (fst (acquire_questions r fs)) u = cached_questions fs u \<or>
   (u = resolved_version r \<and>
     (case req_fetch r of
        Inl e \<Rightarrow> False
      | Inr data \<Rightarrow>
          cached_questions (fst (acquire_questions r fs)) u =
            (if is_draft_data data then None else Some (Json data))))"
  by (auto simp: acquire_questions_def Let_def split_beta cached_cache_lookup cached_is_stale
      cached_store cached_clear resolved_version_nonempty
      split: option.splits sum.splits)

lemma acquire_other_version:
  "u \<noteq> resolved_version r \<Longrightarrow>
   cached_questions (fst (acquire_questions r fs)) u = cached_questions fs u"
  using cached_acquire [of r fs u] by auto

lemma acquire_keeps_no_entry:
  assumes "cached_questions fs v = None"
    and "resolved_version r = v \<longrightarrow> \<not> fetch_published r"
  shows "cached_questions (fst (acquire_questions r fs)) v = None"
  using cached_acquire [of r fs v] assms
  by (auto simp: fetch_published_def split: sum.splits if_splits)

lemma acquire_all_keeps_no_entry:
  "cached_questions fs v = None \<Longrightarrow>
   \<forall>r \<in> set rs. resolved_version r = v \<longrightarrow> \<not> fetch_published r \<Longrightarrow>
   cached_questions (acquire_all fs rs) v = None"
proof (induction rs arbitrary: fs)
  case Nil
  then show ?case by simp
next
  case (Cons r rs)
  from Cons.prems have "cached_questions (fst (acquire_questions r fs)) v = None"
    by (intro acquire_keeps_no_entry) auto
  moreover from Cons.prems have "\<forall>r \<in> set rs. resolved_version r = v \<longrightarrow> \<not> fetch_published r"
    by simp
  ultimately show ?case using Cons.IH by simp
qed

lemma acquire_draft_fetched:
  assumes "snd (acquire_questions r fs) = Inr d" and "is_draft_data d"
  shows "req_fetch r = Inr d \<and>
         version_dirs (fst (acquire_questions r fs)) (resolved_version r) = None"
proof -
  obtain c1 cd where l: "cache_lookup r fs = (c1, cd)" by (cases "cache_lookup r fs")
  have nd: "\<not> is_draft_data x" if "cd = Some x" "truthy_data x" for x
    using cache_lookup_not_draft [of r fs x] l that by simp
  show ?thesis
    using assms nd
    by (auto simp: acquire_questions_def l Let_def split_beta clear_version
        resolved_version_nonempty split: option.splits sum.splits if_splits)
qed

text \<open>
  C6, as the code has it. An acquisition leaves each version's questions file as it was,
  removes it, or writes the fetched payload, and writes it only when the payload is not
  flagged as draft. When the acquisition returns a payload flagged as draft, the
  directory of the requested version is gone and \<open>get\<close> returns absent; \<open>get\<close> keeps
  returning absent after any further acquisitions as long as none of them, for the same
  version, fetches a question set that is not flagged as draft.
\<close>

theorem draft_never_cached:
  "(\<forall>u. cached_questions (fst (acquire_questions r cache)) u = cached_questions cache u \<or>
        cached_questions (fst (acquire_questions r cache)) u = None \<or>
        (\<exists>data. req_fetch r = Inr data \<and> \<not> is_draft_data data \<and> u = resolved_version r \<and>
           cached_questions (fst (acquire_questions r cache)) u = Some (Json data))) \<and>
   (snd (acquire_questions r cache) = Inr d \<and> is_draft_data d \<longrightarrow>
      version_dirs (fst (acquire_questions r cache)) (resolved_version r) = None \<and>
      snd (cache_get (fst (acquire_questions r cache)) (resolved_version r)) = None \<and>
      ((\<forall>r' \<in> set rs. resolved_version r' = resolved_version r \<longrightarrow> \<not> fetch_published r') \<longrightarrow>
         snd (cache_get (acquire_all (fst (acquire_questions r cache)) rs) (resolved_version r))
           = None))"
proof (intro conjI allI impI)
  fix u
  show "cached_questions (fst (acquire_questions r cache)) u = cached_questions cache u \<or>
        cached_questions (fst (acquire_questions r cache)) u = None \<or>
        (\<exists>data. req_fetch r = Inr data \<and> \<not> is_draft_data data \<and> u = resolved_version r \<and>
           cached_questions (fst (acquire_questions r cache)) u = Some (Json data))"
    using cached_acquire [of r cache u] by (auto split: sum.splits if_splits)
next
  assume a: "snd (acquire_questions r cache) = Inr d \<and> is_draft_data d"
  then have gone: "version_dirs (fst (acquire_questions r cache)) (resolved_version r) = None"
    using acquire_draft_fetched [of r cache d] by simp
  then show "version_dirs (fst (acquire_questions r cache)) (resolved_version r) = None" .
  from gone have ne: "cached_questions (fst (acquire_questions r cache)) (resolved_version r) = None"
    by (simp add: cached_questions_def)
  then show "snd (cache_get (fst (acquire_questions r cache)) (resolved_version r)) = None"
    by (rule cache_get_no_entry)
  assume "\<forall>r' \<in> set rs. resolved_version r' = resolved_version r \<longrightarrow> \<not> fetch_published r'"
  with ne have "cached_questions (acquire_all (fst (acquire_questions r cache)) rs)
      (resolved_version r) = None"
    by (rule acquire_all_keeps_no_entry)
  then show "snd (cache_get (acquire_all (fst (acquire_questions r cache)) rs) (resolved_version r))
           = None"
    by (rule cache_get_no_entry)
qed

lemmas acquire_eval = acquire_questions_def cache_lookup_def resolved_version_def request_def
  draft_payload_def published_payload_def is_draft_data_def truthy_data_def fetch_published_def
  cached_questions_def CACHE_TTL_DAYS_def day_def Let_def

text \<open>
  A draft fetched over a cached draft entry, followed by a failed fetch, an acquisition
  of another version and another draft fetch.
\<close>

theorem draft_never_cached_witness:
  "snd (acquire_questions (request ''3.0'' False (Inr draft_payload))
          (store 5 empty_cache ''3.0'' draft_payload)) = Inr draft_payload \<and>
   is_draft_data draft_payload \<and>
   snd (cache_get
     (acquire_all
        (fst (acquire_questions (request ''3.0'' False (Inr draft_payload))
           (store 5 empty_cache ''3.0'' draft_payload)))
        [request ''3.0'' False (Inl ''Request timed out''),
         request ''2.0'' False (Inr published_payload),
         request ''3.0'' True (Inr draft_payload)]) ''3.0'') = None"
proof -
  let ?r = "request ''3.0'' False (Inr draft_payload)"
  let ?c = "store 5 empty_cache ''3.0'' draft_payload"
  let ?rs = "[request ''3.0'' False (Inl ''Request timed out''),
         request ''2.0'' False (Inr published_payload),
         request ''3.0'' True (Inr draft_payload)]"
  have a: "snd (acquire_questions ?r ?c) = Inr draft_payload"
    by (simp add: acquire_eval cache_eval)
  have b: "is_draft_data draft_payload"
    by (simp add: acquire_eval)
  have v: "resolved_version ?r = ''3.0''"
    by (simp add: acquire_eval)
  have c: "\<forall>r' \<in> set ?rs. resolved_version r' = resolved_version ?r \<longrightarrow> \<not> fetch_published r'"
    by (simp add: acquire_eval)
  from draft_never_cached [of ?r ?c draft_payload ?rs] a b c
  have "snd (cache_get (acquire_all (fst (acquire_questions ?r ?c)) ?rs) (resolved_version ?r)) = None"
    by blast
  with a b v show ?thesis by simp
qed

text \<open>
  C6 as stated fails: after a draft has been fetched for a version, a later acquisition
  that fetches that version's published question set stores it, and \<open>get\<close> returns it.
\<close>

theorem draft_then_published_counterexample:
  "is_draft_data draft_payload \<and>
   snd (acquire_questions (request ''3.0'' True (Inr draft_payload)) empty_cache)
     = Inr draft_payload \<and>
   snd (cache_get
     (acquire_all empty_cache
        [request ''3.0'' True (Inr draft_payload),
         request ''3.0'' False (Inr published_payload)]) ''3.0'') = Some published_payload"
  by (simp add: acquire_eval cache_eval)

section \<open>The runner\<close>

subsection \<open>The question loop\<close>

lemma run_question_db:
  "responses (rs_db (run_question env jp m jm rid t q st)) =
     responses (rs_db st) @
       [snd (add_response (rs_db st) rid (py_str (q_id q)) t
          (fst (model_response env m (calls st) q))
          (text_of (verdict (judge_or_refused env jp jm (calls st) q (fst (model_response env m (calls st) q)))))
          (q_category q)
          (Some (text_of (reasoning (judge_or_refused env jp jm (calls st) q (fst (model_response env m (calls st) q))))))
          (snd (model_response env m (calls st) q))
          (Some (elapsed_ms env (calls st))))]"
  by (simp add: run_question_def Let_def split_beta add_response_def)

lemma run_question_runs:
  "test_runs (rs_db (run_question env jp m jm rid t q st)) = test_runs (rs_db st)"
  by (simp add: run_question_def Let_def split_beta add_response_def)

lemma run_question_calls:
  "calls (run_question env jp m jm rid t q st) = Suc (calls st)"
  by (simp add: run_question_def Let_def split_beta)

lemma run_question_row:
  "\<exists>row. responses (rs_db (run_question env jp m jm rid t q st)) = responses (rs_db st) @ [row] \<and>
         question_id row = py_str (q_id q) \<and> test_run_id row = rid \<and> tier row = t"
  by (simp add: run_question_def Let_def split_beta add_response_def)

text \<open>The rows appended by a list of questions, as far as ids go.\<close>

lemma fold_run_question_runs:
  "test_runs (rs_db (fold (run_question env jp m jm rid t) qs st)) = test_runs (rs_db st)"
  by (induction qs arbitrary: st) (simp_all add: run_question_runs)

lemma fold_run_question_rows:
  "\<exists>rows. responses (rs_db (fold (run_question env jp m jm rid t) qs st)) = responses (rs_db st) @ rows \<and>
          map question_id rows = map (\<lambda>q. py_str (q_id q)) qs \<and>
          (\<forall>r \<in> set rows. test_run_id r = rid \<and> tier r = t)"
proof (induction qs arbitrary: st)
  case Nil
  then show ?case by simp
next
  case (Cons q qs)
  let ?st = "run_question env jp m jm rid t q st"
  from Cons.IH [of ?st] obtain rows where
    r: "responses (rs_db (fold (run_question env jp m jm rid t) qs ?st)) = responses (rs_db ?st) @ rows"
      "map question_id rows = map (\<lambda>q. py_str (q_id q)) qs"
      "\<forall>r \<in> set rows. test_run_id r = rid \<and> tier r = t"
    by blast
  obtain row where row: "responses (rs_db ?st) = responses (rs_db st) @ [row]"
      "question_id row = py_str (q_id q)" "test_run_id row = rid" "tier row = t"
    using run_question_row [of env jp m jm rid t q st] by blast
  from r row have "responses (rs_db (fold (run_question env jp m jm rid t) (q # qs) st)) =
      responses (rs_db st) @ (row # rows)" by simp
  moreover from r row have "map question_id (row # rows) = map (\<lambda>q. py_str (q_id q)) (q # qs)"
    by simp
  moreover from r row have "\<forall>r \<in> set (row # rows). test_run_id r = rid \<and> tier r = t"
    by simp
  ultimately show ?case by blast
qed

lemma run_tier_rows:
  "\<exists>rows. responses (rs_db (run_tier env jp m jm rid qs a t st)) = responses (rs_db st) @ rows \<and>
          map question_id rows = map (\<lambda>q. py_str (q_id q)) (remaining qs a t) \<and>
          (\<forall>r \<in> set rows. test_run_id r = rid \<and> tier r = t)"
  unfolding run_tier_def by (rule fold_run_question_rows)

lemma run_tier_runs:
  "test_runs (rs_db (run_tier env jp m jm rid qs a t st)) = test_runs (rs_db st)"
  unfolding run_tier_def by (rule fold_run_question_runs)

lemma run_tiers_unfold:
  "run_tiers env jp m jm rid qs a st =
     run_tier env jp m jm rid qs a 3 (run_tier env jp m jm rid qs a 2 (run_tier env jp m jm rid qs a 1 st))"
  by (simp add: run_tiers_def)

lemma run_tiers_runs:
  "test_runs (rs_db (run_tiers env jp m jm rid qs a st)) = test_runs (rs_db st)"
  by (simp add: run_tiers_unfold run_tier_runs)

lemma run_tiers_rows:
  "\<exists>rows. responses (rs_db (run_tiers env jp m jm rid qs a st)) = responses (rs_db st) @ rows \<and>
          map question_id rows =
            map (\<lambda>q. py_str (q_id q)) (remaining qs a 1 @ remaining qs a 2 @ remaining qs a 3) \<and>
          (\<forall>r \<in> set rows. test_run_id r = rid)"
proof -
  let ?s1 = "run_tier env jp m jm rid qs a 1 st"
  let ?s2 = "run_tier env jp m jm rid qs a 2 ?s1"
  let ?s3 = "run_tier env jp m jm rid qs a 3 ?s2"
  obtain r1 where r1: "responses (rs_db ?s1) = responses (rs_db st) @ r1"
      "map question_id r1 = map (\<lambda>q. py_str (q_id q)) (remaining qs a 1)"
      "\<forall>r \<in> set r1. test_run_id r = rid \<and> tier r = 1"
    using run_tier_rows [of env jp m jm rid qs a 1 st] by blast
  obtain r2 where r2: "responses (rs_db ?s2) = responses (rs_db ?s1) @ r2"
      "map question_id r2 = map (\<lambda>q. py_str (q_id q)) (remaining qs a 2)"
      "\<forall>r \<in> set r2. test_run_id r = rid \<and> tier r = 2"
    using run_tier_rows [of env jp m jm rid qs a 2 ?s1] by blast
  obtain r3 where r3: "responses (rs_db ?s3) = responses (rs_db ?s2) @ r3"
      "map question_id r3 = map (\<lambda>q. py_str (q_id q)) (remaining qs a 3)"
      "\<forall>r \<in> set r3. test_run_id r = rid \<and> tier r = 3"
    using run_tier_rows [of env jp m jm rid qs a 3 ?s2] by blast
  have "responses (rs_db ?s3) = responses (rs_db st) @ (r1 @ r2 @ r3)"
    using r1(1) r2(1) r3(1) by simp
  moreover have "map question_id (r1 @ r2 @ r3) =
      map (\<lambda>q. py_str (q_id q)) (remaining qs a 1 @ remaining qs a 2 @ remaining qs a 3)"
    using r1(2) r2(2) r3(2) by simp
  moreover have "\<forall>r \<in> set (r1 @ r2 @ r3). test_run_id r = rid"
    using r1(3) r2(3) r3(3) by auto
  ultimately show ?thesis unfolding run_tiers_unfold by blast
qed

subsection \<open>Fault isolation\<close>

text \<open>
  C7. Whatever the backends do, the loop body appends exactly one response row for its
  question, to the run it was given, and changes no run. If the model call fails with
  the text \<open>e\<close>, the row's response text is the error marker built from \<open>e\<close>; if judging
  fails with the text \<open>e\<close>, the row's verdict is REFUSED and its reasoning is
  \<open>Judge error:\<close> followed by \<open>e\<close>. The loops go on to the end in every case: a tier
  appends one row for each of its remaining questions, and the three tiers together one
  row for each remaining question of the set.
\<close>

theorem fault_isolation:
  "(\<exists>row. responses (rs_db (run_question env jp m jm rid t q st)) = responses (rs_db st) @ [row] \<and>
          test_run_id row = rid \<and> question_id row = py_str (q_id q) \<and> tier row = t \<and>
          (\<forall>e. model_complete env (calls st) (case q_content q of None \<Rightarrow> [] | Some c \<Rightarrow> c) m = Inl e
             \<longrightarrow> response_text row = ''[ERROR: '' @ e @ '']'' \<and> thought_process row = None) \<and>
          (\<forall>e. evaluate env jp jm (calls st) q (response_text row) = Inl e
             \<longrightarrow> response_verdict row = ''REFUSED'' \<and>
                 judge_reasoning row = Some (''Judge error: '' @ e))) \<and>
   test_runs (rs_db (run_question env jp m jm rid t q st)) = test_runs (rs_db st) \<and>
   length (responses (rs_db (run_tier env jp m jm rid qs a t st))) =
     length (responses (rs_db st)) + length (remaining qs a t) \<and>
   length (responses (rs_db (run_tiers env jp m jm rid qs a st))) =
     length (responses (rs_db st)) + length (remaining qs a 1) + length (remaining qs a 2) +
       length (remaining qs a 3)"
proof (intro conjI)
  show "\<exists>row. responses (rs_db (run_question env jp m jm rid t q st)) = responses (rs_db st) @ [row] \<and>
          test_run_id row = rid \<and> question_id row = py_str (q_id q) \<and> tier row = t \<and>
          (\<forall>e. model_complete env (calls st) (case q_content q of None \<Rightarrow> [] | Some c \<Rightarrow> c) m = Inl e
             \<longrightarrow> response_text row = ''[ERROR: '' @ e @ '']'' \<and> thought_process row = None) \<and>
          (\<forall>e. evaluate env jp jm (calls st) q (response_text row) = Inl e
             \<longrightarrow> response_verdict row = ''REFUSED'' \<and>
                 judge_reasoning row = Some (''Judge error: '' @ e))"
    by (auto simp: run_question_def Let_def split_beta add_response_def model_response_def
        judge_or_refused_def text_of_codes)
  show "test_runs (rs_db (run_question env jp m jm rid t q st)) = test_runs (rs_db st)"
    by (rule run_question_runs)
  show "length (responses (rs_db (run_tier env jp m jm rid qs a t st))) =
     length (responses (rs_db st)) + length (remaining qs a t)"
  proof -
    obtain rows where "responses (rs_db (run_tier env jp m jm rid qs a t st)) = responses (rs_db st) @ rows"
      "map question_id rows = map (\<lambda>q. py_str (q_id q)) (remaining qs a t)"
      using run_tier_rows [of env jp m jm rid qs a t st] by blast
    then show ?thesis by (metis length_append length_map)
  qed
  show "length (responses (rs_db (run_tiers env jp m jm rid qs a st))) =
     length (responses (rs_db st)) + length (remaining qs a 1) + length (remaining qs a 2) +
       length (remaining qs a 3)"
  proof -
    obtain rows where r: "responses (rs_db (run_tiers env jp m jm rid qs a st)) = responses (rs_db st) @ rows"
      "map question_id rows =
         map (\<lambda>q. py_str (q_id q)) (remaining qs a 1 @ remaining qs a 2 @ remaining qs a 3)"
      using run_tiers_rows [of env jp m jm rid qs a st] by blast
    from r(2) have "length rows = length (remaining qs a 1 @ remaining qs a 2 @ remaining qs a 3)"
      by (metis length_map)
    with r(1) show ?thesis by simp
  qed
qed

subsection \<open>Resuming\<close>

lemma latest_mem: "latest rs = Some r \<Longrightarrow> r \<in> set rs"
  by (induction rs arbitrary: r) (auto split: option.splits if_splits)

lemma latest_max: "latest rs = Some r \<Longrightarrow> r' \<in> set rs \<Longrightarrow> started_at r' \<le> started_at r"
proof (induction rs arbitrary: r)
  case Nil
  then show ?case by simp
next
  case (Cons x xs)
  show ?case
  proof (cases "latest xs")
    case None
    then have "xs = []" by (cases xs) (auto split: option.splits if_splits)
    with Cons.prems None show ?thesis by simp
  next
    case (Some y)
    with Cons.prems Cons.IH [of y] show ?thesis
      by (auto split: if_splits)
  qed
qed

lemma get_incomplete_run_props:
  assumes "get_incomplete_run db m v = Some run"
  shows "run \<in> set (test_runs db)" "model run = m" "benchmark_version run = v"
    "completed_at run = None"
  using latest_mem [OF assms [unfolded get_incomplete_run_def]] by auto

lemma get_incomplete_run_latest:
  assumes "get_incomplete_run db m v = Some run"
    and "r' \<in> set (test_runs db)" "model r' = m" "benchmark_version r' = v" "completed_at r' = None"
  shows "started_at r' \<le> started_at run"
  using latest_max [OF assms(1) [unfolded get_incomplete_run_def], of r'] assms(2-) by simp

lemma le_fold_max: "x \<in> set ids \<Longrightarrow> x \<le> fold max ids (a::nat)"
proof (induction ids arbitrary: a)
  case Nil
  then show ?case by simp
next
  case (Cons i ids)
  have mono: "b \<le> fold max ids b" for b :: nat
  proof (induction ids arbitrary: b)
    case Nil
    then show ?case by simp
  next
    case (Cons j js)
    have "b \<le> max j b" by simp
    also have "\<dots> \<le> fold max js (max j b)" by (rule Cons.IH)
    finally show ?case by simp
  qed
  from Cons.prems consider "x = i" | "x \<in> set ids" by auto
  then show ?case
  proof cases
    case 1
    have "i \<le> max i a" by simp
    also have "\<dots> \<le> fold max ids (max i a)" by (rule mono)
    finally show ?thesis using 1 by simp
  next
    case 2
    then show ?thesis using Cons.IH by simp
  qed
qed

lemma next_id_fresh: "next_id ids \<notin> set ids"
proof
  assume "next_id ids \<in> set ids"
  then have "next_id ids \<le> fold max ids 0" by (rule le_fold_max)
  then show False by (simp add: next_id_def)
qed

lemma remaining_not_answered: "q \<in> set (remaining qs a t) \<Longrightarrow> py_str (q_id q) \<notin> a"
  by (simp add: remaining_def)

lemma remaining_tier: "q \<in> set (remaining qs a t) \<Longrightarrow> q_tier q = Some t \<and> q \<in> set qs"
  by (simp add: remaining_def)

lemma distinct_remaining:
  assumes "distinct (map f qs)"
  shows "distinct (map f (remaining qs a 1 @ remaining qs a 2 @ remaining qs a 3))"
proof -
  from assms have d: "distinct qs" and inj: "inj_on f (set qs)"
    by (simp_all add: distinct_map)
  have dr: "distinct (remaining qs a t)" for t
    using d by (simp add: remaining_def)
  have disj: "set (remaining qs a s) \<inter> set (remaining qs a t) = {}" if "s \<noteq> t" for s t
    using that by (auto simp: remaining_def)
  have sub: "set (remaining qs a 1 @ remaining qs a 2 @ remaining qs a 3) \<subseteq> set qs"
    by (auto simp: remaining_def)
  have "distinct (remaining qs a 1 @ remaining qs a 2 @ remaining qs a 3)"
    using dr disj [of 1 2] disj [of 1 3] disj [of 2 3] by auto
  moreover have "inj_on f (set (remaining qs a 1 @ remaining qs a 2 @ remaining qs a 3))"
    using inj sub by (rule inj_on_subset)
  ultimately show ?thesis using distinct_map by blast
qed

text \<open>The run chosen by \<open>start_run\<close>.\<close>

lemma start_run_cases:
  assumes "start_run rq v draft db = (db1, rid, answered)"
  shows "responses db1 = responses db \<and>
         ((\<exists>run. rq_resume rq \<and> get_incomplete_run db (rq_model rq) v = Some run \<and>
                 rid = run_id run \<and> db1 = db \<and> answered = get_answered_question_ids db rid) \<or>
          ((\<not> rq_resume rq \<or> get_incomplete_run db (rq_model rq) v = None) \<and>
           rid = next_id (map run_id (test_runs db)) \<and> answered = {} \<and>
           map run_id (test_runs db1) = map run_id (test_runs db) @ [rid]))"
  using assms
  by (auto simp: start_run_def create_run_def Let_def split: option.splits if_splits)

lemma complete_run_responses: "responses (complete_run now db rid s t1 t2 t3) = responses db"
  by (simp add: complete_run_def)

lemma complete_run_ids:
  "map run_id (test_runs (complete_run now db rid s t1 t2 t3)) = map run_id (test_runs db)"
  by (simp add: complete_run_def comp_def cong: if_cong)

text \<open>What a call does to the database.\<close>

lemma run_benchmark_failure:
  "snd (run_benchmark env rq (cache, db)) = Inl e \<Longrightarrow> db_after env rq (cache, db) = db"
  by (auto simp: run_benchmark_def db_after_def Let_def split_beta
      split: prod.splits sum.splits option.splits)

lemma run_benchmark_success:
  assumes "run_benchmark env rq (cache, db) = (world', Inr res)"
  shows "\<exists>qd db1 answered rows.
           snd (acquire_questions (rq_acquire rq) cache) = Inr qd \<and>
           br_benchmark_version res = actual_version qd (resolved_version (rq_acquire rq)) \<and>
           start_run rq (br_benchmark_version res) (is_draft_data qd) db = (db1, br_run_id res, answered) \<and>
           responses (snd world') = responses db @ rows \<and>
           map question_id rows =
             map (\<lambda>q. py_str (q_id q))
               (remaining (questions_of qd) answered 1 @ remaining (questions_of qd) answered 2 @
                remaining (questions_of qd) answered 3) \<and>
           (\<forall>r \<in> set rows. test_run_id r = br_run_id res) \<and>
           map run_id (test_runs (snd world')) = map run_id (test_runs db1)"
proof -
  obtain cache1 out where acq: "acquire_questions (rq_acquire rq) cache = (cache1, out)"
    by (cases "acquire_questions (rq_acquire rq) cache")
  from assms acq obtain qd where qd: "out = Inr qd"
    by (cases out) (auto simp: run_benchmark_def)
  let ?v = "actual_version qd (resolved_version (rq_acquire rq))"
  from assms acq qd have known: "first_unknown_tier (questions_of qd) = None"
    by (auto simp: run_benchmark_def Let_def split: option.splits)
  obtain db1 rid answered where sr: "start_run rq ?v (is_draft_data qd) db = (db1, rid, answered)"
    by (cases "start_run rq ?v (is_draft_data qd) db") auto
  let ?jp = "init_prompts env (or_dict (qd_judge_prompts qd) (qd_prompts qd))"
  let ?st = "run_tiers env ?jp (rq_model rq) (rq_judge_model rq) rid (questions_of qd) answered
               (initial_state db1)"
  from assms acq qd known sr have res: "br_run_id res = rid" "br_benchmark_version res = ?v"
    and w: "snd world' = complete_run (rq_end_time rq) (rs_db ?st) rid
              (final_score (tier_results ?st) (tier_weights qd))
              (tier_score (tier_results ?st 1)) (tier_score (tier_results ?st 2))
              (tier_score (tier_results ?st 3))"
    by (auto simp: run_benchmark_def Let_def)
  obtain rows where rows: "responses (rs_db ?st) = responses (rs_db (initial_state db1)) @ rows"
      "map question_id rows =
         map (\<lambda>q. py_str (q_id q))
           (remaining (questions_of qd) answered 1 @ remaining (questions_of qd) answered 2 @
            remaining (questions_of qd) answered 3)"
      "\<forall>r \<in> set rows. test_run_id r = rid"
    using run_tiers_rows [of env ?jp "rq_model rq" "rq_judge_model rq" rid "questions_of qd"
        answered "initial_state db1"] by blast
  from start_run_cases [OF sr] have r1: "responses db1 = responses db" by simp
  have "responses (snd world') = responses db @ rows"
    using w rows(1) r1 by (simp add: complete_run_responses initial_state_def)
  moreover have "map run_id (test_runs (snd world')) = map run_id (test_runs db1)"
    using w by (simp add: complete_run_ids run_tiers_runs initial_state_def)
  ultimately show ?thesis
    using acq qd sr res rows(2,3) by auto
qed

lemma answered_ids_mem:
  "r \<in> set (responses db) \<Longrightarrow> test_run_id r = rid \<Longrightarrow>
   question_id r \<in> get_answered_question_ids db rid"
  by (auto simp: get_answered_question_ids_def)

lemma db_after_invariant:
  assumes u: "unique_per_run db" and fk: "fk_ok db"
    and d: "\<forall>qd. snd (acquire_questions (rq_acquire rq) cache) = Inr qd \<longrightarrow>
              distinct (map (\<lambda>q. py_str (q_id q)) (questions_of qd))"
  shows "unique_per_run (db_after env rq (cache, db)) \<and> fk_ok (db_after env rq (cache, db))"
proof (cases "snd (run_benchmark env rq (cache, db))")
  case (Inl e)
  then have "db_after env rq (cache, db) = db" by (rule run_benchmark_failure)
  with u fk show ?thesis by simp
next
  case (Inr res)
  obtain world' where rb: "run_benchmark env rq (cache, db) = (world', Inr res)"
    using Inr by (cases "run_benchmark env rq (cache, db)") auto
  then have after: "db_after env rq (cache, db) = snd world'" by (simp add: db_after_def)
  from run_benchmark_success [OF rb] obtain qd db1 answered rows where
    acq: "snd (acquire_questions (rq_acquire rq) cache) = Inr qd"
    and sr: "start_run rq (br_benchmark_version res) (is_draft_data qd) db = (db1, br_run_id res, answered)"
    and resp: "responses (snd world') = responses db @ rows"
    and ids: "map question_id rows =
             map (\<lambda>q. py_str (q_id q))
               (remaining (questions_of qd) answered 1 @ remaining (questions_of qd) answered 2 @
                remaining (questions_of qd) answered 3)"
    and rid: "\<forall>r \<in> set rows. test_run_id r = br_run_id res"
    and runs: "map run_id (test_runs (snd world')) = map run_id (test_runs db1)"
    by blast
  let ?rid = "br_run_id res"
  let ?key = "\<lambda>r. (test_run_id r, question_id r)"
  from d acq have dq: "distinct (map (\<lambda>q. py_str (q_id q)) (questions_of qd))" by blast
  then have dn: "distinct (map question_id rows)"
    unfolding ids by (rule distinct_remaining)
  have not_answered: "question_id r \<notin> answered" if "r \<in> set rows" for r
  proof -
    from that have "question_id r \<in> set (map question_id rows)" by simp
    then obtain q where "q \<in> set (remaining (questions_of qd) answered 1) \<or>
        q \<in> set (remaining (questions_of qd) answered 2) \<or>
        q \<in> set (remaining (questions_of qd) answered 3)" "question_id r = py_str (q_id q)"
      unfolding ids by auto
    then show ?thesis using remaining_not_answered by metis
  qed
  note sc = start_run_cases [OF sr]
  have in_runs: "?rid \<in> set (map run_id (test_runs db1))"
    using sc get_incomplete_run_props(1) by (metis image_eqI list.set_map in_set_conv_decomp append_Cons)
  from sc consider (existing) "db1 = db"
    | (created) "map run_id (test_runs db1) = map run_id (test_runs db) @ [?rid]"
    by auto
  then have old_sub: "set (map run_id (test_runs db)) \<subseteq> set (map run_id (test_runs db1))"
  proof cases
    case existing
    then show ?thesis by simp
  next
    case created
    have "set (map run_id (test_runs db)) \<subseteq> set (map run_id (test_runs db) @ [?rid])"
      by auto
    then show ?thesis unfolding created .
  qed
  have key_rows: "map ?key rows = map (\<lambda>i. (?rid, i)) (map question_id rows)"
    using rid by (induction rows) auto
  have d_new: "distinct (map ?key rows)"
    unfolding key_rows using dn by (simp add: distinct_map inj_on_def)
  have disjoint: "set (map ?key (responses db)) \<inter> set (map ?key rows) = {}"
  proof (rule ccontr)
    assume "set (map ?key (responses db)) \<inter> set (map ?key rows) \<noteq> {}"
    then obtain r0 r where r0: "r0 \<in> set (responses db)" and r: "r \<in> set rows"
      and eq: "?key r0 = ?key r" by auto
    from eq rid r have t0: "test_run_id r0 = ?rid" and q0: "question_id r0 = question_id r"
      by auto
    from sc consider (resumed) "answered = get_answered_question_ids db ?rid"
      | (fresh) "?rid = next_id (map run_id (test_runs db))"
      by auto
    then show False
    proof cases
      case resumed
      with answered_ids_mem [OF r0 t0] q0 not_answered [OF r] show False by simp
    next
      case fresh
      from fk r0 have "test_run_id r0 \<in> set (map run_id (test_runs db))"
        by (simp add: fk_ok_def list_all_iff)
      with t0 fresh next_id_fresh [of "map run_id (test_runs db)"] show False by simp
    qed
  qed
  from u have d_old: "distinct (map ?key (responses db))" by (simp add: unique_per_run_def)
  have "unique_per_run (snd world')"
    using d_old d_new disjoint by (simp add: unique_per_run_def resp)
  moreover have "fk_ok (snd world')"
  proof -
    have "test_run_id r \<in> set (map run_id (test_runs (snd world')))" if "r \<in> set (responses db)" for r
    proof -
      from fk that have "test_run_id r \<in> set (map run_id (test_runs db))"
        by (simp add: fk_ok_def list_all_iff)
      with old_sub show ?thesis unfolding runs by blast
    qed
    moreover have "test_run_id r \<in> set (map run_id (test_runs (snd world')))" if "r \<in> set rows" for r
      using that rid in_runs unfolding runs by simp
    ultimately show ?thesis
      unfolding fk_ok_def list_all_iff resp by auto
  qed
  ultimately show ?thesis using after by simp
qed

subsection \<open>Evaluating a run\<close>

lemma db_after_eval:
  assumes "acquire_questions (rq_acquire rq) cache = (cache1, Inr qd)"
    and "first_unknown_tier (questions_of qd) = None"
    and "start_run rq (actual_version qd (resolved_version (rq_acquire rq))) (is_draft_data qd) db
           = (db1, rid, answered)"
    and "run_tiers env (init_prompts env (or_dict (qd_judge_prompts qd) (qd_prompts qd)))
           (rq_model rq) (rq_judge_model rq) rid (questions_of qd) answered (initial_state db1) = st"
  shows "db_after env rq (cache, db) =
           complete_run (rq_end_time rq) (rs_db st) rid
             (final_score (tier_results st) (tier_weights qd))
             (tier_score (tier_results st 1)) (tier_score (tier_results st 2))
             (tier_score (tier_results st 3))"
  using assms by (simp add: db_after_def run_benchmark_def Let_def)

lemma parse_accepted:
  "parse_verdict U (codes ''VERDICT: ACCEPTED'') t =
     \<lparr>verdict = codes ''ACCEPTED'', reasoning = codes ''VERDICT: ACCEPTED''\<rparr>"
  by (simp add: parse_verdict_def marker_verdict_def verdict_match_at_def reasoning_match_at_def
      legacy_mapping_def VALID_VERDICTS_def char_simps Let_def)

lemma evaluate_accepting:
  "evaluate accepting_env jp jm k q r =
     Inr \<lparr>verdict = codes ''ACCEPTED'', reasoning = codes ''VERDICT: ACCEPTED''\<rparr>"
  by (simp add: evaluate_def accepting_env_def Let_def parse_accepted)

lemma run_question_accepting:
  "run_question accepting_env jp m jm rid t q st =
     \<lparr>rs_db = (rs_db st)\<lparr>responses := responses (rs_db st) @
          [\<lparr>response_id = next_id (map response_id (responses (rs_db st))),
            test_run_id = rid, question_id = py_str (q_id q), tier = t,
            category = q_category q, response_text = ''Done.'',
            response_verdict = ''ACCEPTED'', verdict_normalized = ''pass'',
            judge_reasoning = Some ''VERDICT: ACCEPTED'', thought_process = None,
            response_time_ms = Some 250\<rparr>]\<rparr>,
      tier_results = (tier_results st)(t := count_verdict ''ACCEPTED'' (tier_results st t)),
      calls = Suc (calls st)\<rparr>"
  by (simp add: run_question_def model_response_def judge_or_refused_def evaluate_accepting
      add_response_def normalize_verdict_def verdict_map_def Let_def text_of_codes
      is_lower_def is_upper_def upper_char_def upper_def)
    (simp add: accepting_env_def)

lemma acquire_sample:
  "\<exists>cache1. acquire_questions (rq_acquire (run_request resume qs)) empty_cache =
     (cache1, Inr (payload qs))"
  by (simp add: acquire_questions_def cache_lookup_def request_def payload_def empty_cache_def
      cache_get_def get_version_dir_def empty_dir_def is_draft_data_def resolved_version_def
      run_request_def Let_def)

lemma sample_facts:
  "questions_of (payload qs) = qs"
  "actual_version (payload qs) v = ''2.0''"
  "is_draft_data (payload qs) = False"
  "or_dict (qd_judge_prompts (payload qs)) (qd_prompts (payload qs)) = None"
  "tier_weights (payload qs) = (70 / 100, 20 / 100, 10 / 100)"
  "rq_model (run_request resume qs) = ''m''"
  "rq_judge_model (run_request resume qs) = ''j''"
  "rq_resume (run_request resume qs) = resume"
  "rq_end_time (run_request resume qs) = 30"
  by (simp_all add: questions_of_def payload_def actual_version_def is_draft_data_def or_dict_def
      tier_weights_def run_request_def)

lemma str_small: "py_str (IdInt 1) = ''1''" "py_str (IdInt 2) = ''2''" "py_str (IdInt 3) = ''3''"
  by (simp_all add: py_str_def str_int_def str_nat.simps digit_char_def)

lemmas tiers_eval = run_tiers_unfold run_tier_def remaining_def run_question_accepting
  question_def str_small initial_state_def next_id_def count_verdict_def no_counts_def

lemma duplicate_ids_db:
  "map (\<lambda>r. (test_run_id r, question_id r))
     (responses (db_after accepting_env (run_request False [question 1 1, question 1 1])
        (empty_cache, empty_db))) = [(1, ''1''), (1, ''1'')]"
proof -
  let ?qs = "[question 1 1, question 1 1]"
  let ?rq = "run_request False ?qs"
  obtain cache1 where a: "acquire_questions (rq_acquire ?rq) empty_cache = (cache1, Inr (payload ?qs))"
    using acquire_sample by blast
  have k: "first_unknown_tier (questions_of (payload ?qs)) = None"
    by (simp add: sample_facts question_def)
  obtain db1 where s: "start_run ?rq (actual_version (payload ?qs) (resolved_version (rq_acquire ?rq)))
      (is_draft_data (payload ?qs)) empty_db = (db1, 1, {})" "responses db1 = []"
    by (simp add: start_run_def create_run_def sample_facts empty_db_def next_id_def Let_def)
  have "responses (db_after accepting_env ?rq (empty_cache, empty_db)) =
      responses (rs_db (run_tiers accepting_env
        (init_prompts accepting_env (or_dict (qd_judge_prompts (payload ?qs)) (qd_prompts (payload ?qs))))
        (rq_model ?rq) (rq_judge_model ?rq) 1 (questions_of (payload ?qs)) {} (initial_state db1)))"
    by (simp add: db_after_eval [OF a k s(1) refl] complete_run_responses)
  also have "map (\<lambda>r. (test_run_id r, question_id r)) \<dots> = [(1, ''1''), (1, ''1'')]"
    by (simp add: sample_facts tiers_eval s(2))
  finally show ?thesis .
qed

lemma run_all_invariant:
  "unique_per_run (snd world) \<Longrightarrow> fk_ok (snd world) \<Longrightarrow> all_distinct cs world \<Longrightarrow>
   unique_per_run (snd (run_all cs world)) \<and> fk_ok (snd (run_all cs world))"
proof (induction cs arbitrary: world)
  case Nil
  then show ?case by simp
next
  case (Cons c cs)
  obtain env rq where c: "c = (env, rq)" by (cases c)
  obtain cache db where w: "world = (cache, db)" by (cases world)
  let ?w = "fst (run_benchmark env rq world)"
  from Cons.prems c w have d: "\<forall>qd. snd (acquire_questions (rq_acquire rq) cache) = Inr qd \<longrightarrow>
      distinct (map (\<lambda>q. py_str (q_id q)) (questions_of qd))"
    by (auto simp: acquires_distinct_def)
  from Cons.prems w have "unique_per_run db" "fk_ok db" by simp_all
  from db_after_invariant [OF this d, of env]
  have "unique_per_run (snd ?w)" "fk_ok (snd ?w)"
    by (simp_all add: db_after_def w)
  moreover from Cons.prems c have "all_distinct cs ?w" by simp
  ultimately have "unique_per_run (snd (run_all cs ?w)) \<and> fk_ok (snd (run_all cs ?w))"
    by (rule Cons.IH)
  then show ?case by (simp add: c)
qed

lemma empty_db_invariant: "unique_per_run empty_db \<and> fk_ok empty_db"
  by (simp add: unique_per_run_def fk_ok_def empty_db_def)

text \<open>
  C3, as the code has it. If the question ids of the acquired question set are pairwise
  distinct as strings, a call of \<open>run_benchmark\<close> keeps question ids unique within every
  run (and every row attached to a run), whether it returns or raises; so do two calls
  in a row, and so does every sequence of calls that starts on an empty database. A resumed call that finds an incomplete run of the model and version reuses
  the most recently started one, creates no run, and appends rows to that run only, for
  question ids that the run had not answered.
\<close>

theorem resume_keeps_ids_unique:
  "(unique_per_run db \<and> fk_ok db \<and>
    (\<forall>qd. snd (acquire_questions (rq_acquire rq) cache) = Inr qd \<longrightarrow>
        distinct (map (\<lambda>q. py_str (q_id q)) (questions_of qd)))
    \<longrightarrow> unique_per_run (db_after env rq (cache, db)) \<and> fk_ok (db_after env rq (cache, db))) \<and>
   (\<forall>world' res run.
      run_benchmark env rq (cache, db) = (world', Inr res) \<and> rq_resume rq \<and>
      get_incomplete_run db (rq_model rq) (br_benchmark_version res) = Some run
      \<longrightarrow> br_run_id res = run_id run \<and> run \<in> set (test_runs db) \<and>
          model run = rq_model rq \<and> benchmark_version run = br_benchmark_version res \<and>
          completed_at run = None \<and>
          (\<forall>r' \<in> set (test_runs db).
              model r' = rq_model rq \<and> benchmark_version r' = br_benchmark_version res \<and>
              completed_at r' = None \<longrightarrow> started_at r' \<le> started_at run) \<and>
          map run_id (test_runs (snd world')) = map run_id (test_runs db) \<and>
          (\<exists>rows. responses (snd world') = responses db @ rows \<and>
             (\<forall>r \<in> set rows. test_run_id r = run_id run \<and>
                 question_id r \<notin> get_answered_question_ids db (run_id run)))) \<and>
   (unique_per_run db \<and> fk_ok db \<and>
    (\<forall>qd. snd (acquire_questions (rq_acquire rq) cache) = Inr qd \<longrightarrow>
        distinct (map (\<lambda>q. py_str (q_id q)) (questions_of qd))) \<and>
    (\<forall>qd. snd (acquire_questions (rq_acquire rq2)
               (fst (fst (run_benchmark env rq (cache, db))))) = Inr qd \<longrightarrow>
        distinct (map (\<lambda>q. py_str (q_id q)) (questions_of qd)))
    \<longrightarrow> unique_per_run (db_after env2 rq2 (fst (run_benchmark env rq (cache, db))))) \<and>
   (all_distinct cs (cache, empty_db) \<longrightarrow> unique_per_run (snd (run_all cs (cache, empty_db))))"
proof (intro conjI impI allI)
  assume a: "unique_per_run db \<and> fk_ok db \<and>
    (\<forall>qd. snd (acquire_questions (rq_acquire rq) cache) = Inr qd \<longrightarrow>
        distinct (map (\<lambda>q. py_str (q_id q)) (questions_of qd)))"
  then have "unique_per_run (db_after env rq (cache, db)) \<and> fk_ok (db_after env rq (cache, db))"
    by (intro db_after_invariant) auto
  then show "unique_per_run (db_after env rq (cache, db))" "fk_ok (db_after env rq (cache, db))"
    by auto
next
  fix world' res run
  assume a: "run_benchmark env rq (cache, db) = (world', Inr res) \<and> rq_resume rq \<and>
      get_incomplete_run db (rq_model rq) (br_benchmark_version res) = Some run"
  then have rb: "run_benchmark env rq (cache, db) = (world', Inr res)" and resume: "rq_resume rq"
    and g: "get_incomplete_run db (rq_model rq) (br_benchmark_version res) = Some run"
    by auto
  from run_benchmark_success [OF rb] obtain qd db1 answered rows where
    sr: "start_run rq (br_benchmark_version res) (is_draft_data qd) db = (db1, br_run_id res, answered)"
    and resp: "responses (snd world') = responses db @ rows"
    and ids: "map question_id rows =
             map (\<lambda>q. py_str (q_id q))
               (remaining (questions_of qd) answered 1 @ remaining (questions_of qd) answered 2 @
                remaining (questions_of qd) answered 3)"
    and rid: "\<forall>r \<in> set rows. test_run_id r = br_run_id res"
    and runs: "map run_id (test_runs (snd world')) = map run_id (test_runs db1)"
    by blast
  from start_run_cases [OF sr] resume g
  have ex: "br_run_id res = run_id run" "db1 = db"
    "answered = get_answered_question_ids db (br_run_id res)"
    by auto
  show "br_run_id res = run_id run" by (rule ex(1))
  show "run \<in> set (test_runs db)" "model run = rq_model rq"
    "benchmark_version run = br_benchmark_version res" "completed_at run = None"
    using get_incomplete_run_props [OF g] by auto
  show "\<forall>r' \<in> set (test_runs db).
              model r' = rq_model rq \<and> benchmark_version r' = br_benchmark_version res \<and>
              completed_at r' = None \<longrightarrow> started_at r' \<le> started_at run"
    using get_incomplete_run_latest [OF g] by blast
  show "map run_id (test_runs (snd world')) = map run_id (test_runs db)"
    using runs ex(2) by simp
  have "question_id r \<notin> get_answered_question_ids db (run_id run)" if "r \<in> set rows" for r
  proof -
    from that have "question_id r \<in> set (map question_id rows)" by simp
    then obtain q where "q \<in> set (remaining (questions_of qd) answered 1) \<or>
        q \<in> set (remaining (questions_of qd) answered 2) \<or>
        q \<in> set (remaining (questions_of qd) answered 3)" "question_id r = py_str (q_id q)"
      unfolding ids by auto
    then have "question_id r \<notin> answered" using remaining_not_answered by metis
    then show ?thesis using ex by simp
  qed
  with resp rid ex(1)
  show "\<exists>rows. responses (snd world') = responses db @ rows \<and>
             (\<forall>r \<in> set rows. test_run_id r = run_id run \<and>
                 question_id r \<notin> get_answered_question_ids db (run_id run))"
    by auto
next
  assume a: "unique_per_run db \<and> fk_ok db \<and>
    (\<forall>qd. snd (acquire_questions (rq_acquire rq) cache) = Inr qd \<longrightarrow>
        distinct (map (\<lambda>q. py_str (q_id q)) (questions_of qd))) \<and>
    (\<forall>qd. snd (acquire_questions (rq_acquire rq2)
               (fst (fst (run_benchmark env rq (cache, db))))) = Inr qd \<longrightarrow>
        distinct (map (\<lambda>q. py_str (q_id q)) (questions_of qd)))"
  let ?w = "fst (run_benchmark env rq (cache, db))"
  from a have 1: "unique_per_run (db_after env rq (cache, db)) \<and> fk_ok (db_after env rq (cache, db))"
    by (intro db_after_invariant) auto
  have w: "?w = (fst ?w, db_after env rq (cache, db))"
    by (simp add: db_after_def)
  from 1 a have "unique_per_run (db_after env2 rq2 (fst ?w, db_after env rq (cache, db)))"
    using db_after_invariant [of "db_after env rq (cache, db)" rq2 "fst ?w" env2] by blast
  with w show "unique_per_run (db_after env2 rq2 ?w)" by simp
next
  assume "all_distinct cs (cache, empty_db)"
  with empty_db_invariant show "unique_per_run (snd (run_all cs (cache, empty_db)))"
    using run_all_invariant [of "(cache, empty_db)" cs] by simp
qed

lemma resumed_db:
  "map (\<lambda>r. (test_run_id r, question_id r))
     (responses (db_after accepting_env
        (run_request True [question 1 1, question 2 2, question 3 3]) (empty_cache, partial_db))) =
   [(1, ''1''), (1, ''2''), (1, ''3'')]"
proof -
  let ?qs = "[question 1 1, question 2 2, question 3 3]"
  let ?rq = "run_request True ?qs"
  obtain cache1 where a: "acquire_questions (rq_acquire ?rq) empty_cache = (cache1, Inr (payload ?qs))"
    using acquire_sample by blast
  have k: "first_unknown_tier (questions_of (payload ?qs)) = None"
    by (simp add: sample_facts question_def)
  have s: "start_run ?rq (actual_version (payload ?qs) (resolved_version (rq_acquire ?rq)))
      (is_draft_data (payload ?qs)) partial_db = (partial_db, 1, {''1''})"
    by (simp add: start_run_def get_incomplete_run_def get_answered_question_ids_def sample_facts
        partial_db_def Let_def)
  have "responses (db_after accepting_env ?rq (empty_cache, partial_db)) =
      responses (rs_db (run_tiers accepting_env
        (init_prompts accepting_env (or_dict (qd_judge_prompts (payload ?qs)) (qd_prompts (payload ?qs))))
        (rq_model ?rq) (rq_judge_model ?rq) 1 (questions_of (payload ?qs)) {''1''}
        (initial_state partial_db)))"
    by (simp add: db_after_eval [OF a k s refl] complete_run_responses)
  also have "map (\<lambda>r. (test_run_id r, question_id r)) \<dots> = [(1, ''1''), (1, ''2''), (1, ''3'')]"
    by (simp add: sample_facts tiers_eval partial_db_def)
  finally show ?thesis .
qed

text \<open>Resuming the interrupted run on a set of three questions.\<close>

theorem resume_keeps_ids_unique_witness:
  "unique_per_run partial_db \<and> fk_ok partial_db \<and>
   distinct (map (\<lambda>q. py_str (q_id q)) [question 1 1, question 2 2, question 3 3]) \<and>
   map (\<lambda>r. (test_run_id r, question_id r))
     (responses (db_after accepting_env
        (run_request True [question 1 1, question 2 2, question 3 3]) (empty_cache, partial_db))) =
     [(1, ''1''), (1, ''2''), (1, ''3'')] \<and>
   unique_per_run (db_after accepting_env
        (run_request True [question 1 1, question 2 2, question 3 3]) (empty_cache, partial_db))"
proof -
  let ?qs = "[question 1 1, question 2 2, question 3 3]"
  let ?rq = "run_request True ?qs"
  have u: "unique_per_run partial_db" by (simp add: unique_per_run_def partial_db_def)
  have f: "fk_ok partial_db" by (simp add: fk_ok_def partial_db_def)
  have d: "distinct (map (\<lambda>q. py_str (q_id q)) ?qs)"
    by (simp add: question_def str_small)
  obtain cache1 where a: "acquire_questions (rq_acquire ?rq) empty_cache = (cache1, Inr (payload ?qs))"
    using acquire_sample by blast
  from a d have h: "\<forall>qd. snd (acquire_questions (rq_acquire ?rq) empty_cache) = Inr qd \<longrightarrow>
        distinct (map (\<lambda>q. py_str (q_id q)) (questions_of qd))"
    by (simp add: sample_facts)
  from resume_keeps_ids_unique [of partial_db ?rq empty_cache accepting_env] u f h
  have "unique_per_run (db_after accepting_env ?rq (empty_cache, partial_db))" by blast
  with u f d resumed_db show ?thesis by blast
qed

text \<open>
  C3 as stated fails: on a question set that lists the id 1 twice, a fresh run gets two
  response rows with the question id 1.
\<close>

theorem duplicate_question_ids_counterexample:
  "unique_per_run empty_db \<and>
   map (\<lambda>r. (test_run_id r, question_id r))
     (responses (db_after accepting_env (run_request False [question 1 1, question 1 1])
        (empty_cache, empty_db))) = [(1, ''1''), (1, ''1'')] \<and>
   \<not> unique_per_run (db_after accepting_env (run_request False [question 1 1, question 1 1])
        (empty_cache, empty_db))"
  by (simp add: unique_per_run_def duplicate_ids_db) (simp add: empty_db_def)

lemma run_benchmark_returns:
  assumes "acquire_questions (rq_acquire rq) cache = (cache1, Inr qd)"
    and "first_unknown_tier (questions_of qd) = None"
  shows "\<exists>world' res. run_benchmark env rq (cache, db) = (world', Inr res) \<and>
           br_benchmark_version res = actual_version qd (resolved_version (rq_acquire rq))"
  using assms by (simp add: run_benchmark_def Let_def split_beta)

text \<open>A question asked while both backends fail, and three questions in two tiers.\<close>

theorem fault_isolation_witness:
  "model_complete failing_env 0 ''Task'' ''m'' = Inl ''timeout'' \<and>
   evaluate failing_env [] ''j'' 0 (question 1 1) ''[ERROR: timeout]'' = Inl ''connection refused'' \<and>
   (\<exists>row. responses (rs_db (run_question failing_env [] ''m'' ''j'' 1 1 (question 1 1)
              (initial_state empty_db))) = [row] \<and>
          question_id row = ''1'' \<and>
          response_text row = ''[ERROR: timeout]'' \<and>
          response_verdict row = ''REFUSED'' \<and>
          judge_reasoning row = Some ''Judge error: connection refused'') \<and>
   length (responses (rs_db (run_tiers failing_env [] ''m'' ''j'' 1
      [question 1 1, question 2 1, question 3 2] {} (initial_state empty_db)))) = 3"
proof -
  let ?st = "initial_state empty_db"
  have m: "model_complete failing_env 0 ''Task'' ''m'' = Inl ''timeout''"
    by (simp add: failing_env_def)
  have j: "evaluate failing_env [] ''j'' 0 (question 1 1) ''[ERROR: timeout]'' = Inl ''connection refused''"
    by (simp add: evaluate_def failing_env_def Let_def)
  have c: "calls ?st = 0" "responses (rs_db ?st) = []"
    by (simp_all add: initial_state_def empty_db_def)
  have q: "(case q_content (question 1 1) of None \<Rightarrow> [] | Some c \<Rightarrow> c) = ''Task''"
    "py_str (q_id (question 1 1)) = ''1''"
    by (simp_all add: question_def str_small)
  note t = fault_isolation [of failing_env "[]" "''m''" "''j''" 1 1 "question 1 1" ?st
      "[question 1 1, question 2 1, question 3 2]" "{}"]
  from t obtain row where row:
    "responses (rs_db (run_question failing_env [] ''m'' ''j'' 1 1 (question 1 1) ?st)) =
       responses (rs_db ?st) @ [row]"
    "question_id row = py_str (q_id (question 1 1))"
    "\<forall>e. model_complete failing_env (calls ?st)
            (case q_content (question 1 1) of None \<Rightarrow> [] | Some c \<Rightarrow> c) ''m'' = Inl e
        \<longrightarrow> response_text row = ''[ERROR: '' @ e @ '']'' \<and> thought_process row = None"
    "\<forall>e. evaluate failing_env [] ''j'' (calls ?st) (question 1 1) (response_text row) = Inl e
        \<longrightarrow> response_verdict row = ''REFUSED'' \<and> judge_reasoning row = Some (''Judge error: '' @ e)"
    by blast
  from row(3) m c q have rt: "response_text row = ''[ERROR: timeout]''" by simp
  from row(4) j c rt have rv: "response_verdict row = ''REFUSED''"
    "judge_reasoning row = Some ''Judge error: connection refused''" by simp_all
  from row(1) c have r1: "responses (rs_db (run_question failing_env [] ''m'' ''j'' 1 1 (question 1 1) ?st)) = [row]"
    by simp
  have len: "length (remaining [question 1 1, question 2 1, question 3 2] {} 1) = 2"
    "length (remaining [question 1 1, question 2 1, question 3 2] {} 2) = 1"
    "length (remaining [question 1 1, question 2 1, question 3 2] {} 3) = 0"
    by (simp_all add: remaining_def question_def)
  from t c len have n: "length (responses (rs_db (run_tiers failing_env [] ''m'' ''j'' 1
      [question 1 1, question 2 1, question 3 2] {} ?st))) = 3"
    by simp
  from r1 row(2) q rt rv have "\<exists>row. responses (rs_db (run_question failing_env [] ''m'' ''j'' 1 1 (question 1 1)
              ?st)) = [row] \<and>
          question_id row = ''1'' \<and>
          response_text row = ''[ERROR: timeout]'' \<and>
          response_verdict row = ''REFUSED'' \<and>
          judge_reasoning row = Some ''Judge error: connection refused''"
    by auto
  with m j n show ?thesis by blast
qed

subsection \<open>Scores\<close>

lemma text_of_valid: "v \<in> codes ` VALID_VERDICTS \<Longrightarrow> text_of v \<in> VALID_VERDICTS"
  by (auto simp: text_of_codes)

lemma parse_verdict_valid: "text_of (verdict (parse_verdict U s t)) \<in> VALID_VERDICTS"
proof -
  have "verdict (parse_verdict U s t) \<in> codes ` VALID_VERDICTS"
    using infer_verdict_valid [of U s]
    by (cases "marker_verdict U s \<in> codes ` VALID_VERDICTS") (simp_all add: parse_verdict_def Let_def)
  then show ?thesis by (rule text_of_valid)
qed

lemma judge_or_refused_valid:
  "text_of (verdict (judge_or_refused env jp jm k q r)) \<in> VALID_VERDICTS"
proof (cases "evaluate env jp jm k q r")
  case (Inl e)
  then show ?thesis by (simp add: judge_or_refused_def VALID_VERDICTS_def text_of_codes)
next
  case (Inr v)
  then have "\<exists>U s t. v = parse_verdict U s t"
    by (auto simp: evaluate_def Let_def split: sum.splits)
  with Inr show ?thesis by (auto simp: judge_or_refused_def parse_verdict_valid)
qed

lemma fold_count_verdict:
  assumes "\<forall>v \<in> set vs. v \<in> VALID_VERDICTS"
  shows "ACCEPTED (fold count_verdict vs c) = ACCEPTED c + count_list vs ''ACCEPTED'' \<and>
         COMPROMISED (fold count_verdict vs c) = COMPROMISED c + count_list vs ''COMPROMISED'' \<and>
         REFUSED (fold count_verdict vs c) = REFUSED c + count_list vs ''REFUSED''"
  using assms
proof (induction vs arbitrary: c)
  case Nil
  then show ?case by simp
next
  case (Cons v vs)
  from Cons.prems have v: "v = ''ACCEPTED'' \<or> v = ''COMPROMISED'' \<or> v = ''REFUSED''"
    by (simp add: VALID_VERDICTS_def)
  from Cons.prems have rest: "\<forall>v \<in> set vs. v \<in> VALID_VERDICTS" by simp
  from v show ?case
    using Cons.IH [OF rest, of "count_verdict v c"]
    by (auto simp: count_verdict_def)
qed

lemma valid_length:
  assumes "\<forall>v \<in> set vs. v \<in> VALID_VERDICTS"
  shows "length vs = count_list vs ''ACCEPTED'' + count_list vs ''COMPROMISED'' + count_list vs ''REFUSED''"
  using assms by (induction vs) (auto simp: VALID_VERDICTS_def)

lemma tier_score_counted:
  assumes "\<forall>v \<in> set vs. v \<in> VALID_VERDICTS"
  shows "tier_score (fold count_verdict vs no_counts) = spec_tier_score vs"
proof -
  note c = fold_count_verdict [OF assms, of no_counts]
  note l = valid_length [OF assms]
  show ?thesis
  proof (cases "vs = []")
    case True
    then show ?thesis by (simp add: tier_score_def spec_tier_score_def no_counts_def)
  next
    case False
    then have "0 < length vs" by simp
    with l have pos: "0 < count_list vs ''ACCEPTED'' + count_list vs ''COMPROMISED'' + count_list vs ''REFUSED''"
      by simp
    show ?thesis
      using c pos False
      by (simp add: tier_score_def spec_tier_score_def no_counts_def Let_def verdict_score_def
          VERDICT_SCORES_def l [symmetric])
  qed
qed

lemma tier_score_range: "0 \<le> tier_score c \<and> tier_score c \<le> 100"
proof (cases "0 < ACCEPTED c + COMPROMISED c + REFUSED c")
  case False
  then show ?thesis by (simp add: tier_score_def)
next
  case True
  let ?n = "real (ACCEPTED c) + real (COMPROMISED c) + real (REFUSED c)"
  let ?x = "real (ACCEPTED c) + real (COMPROMISED c) / 2"
  from True have "0 < real (ACCEPTED c + COMPROMISED c + REFUSED c)"
    by (simp only: of_nat_0_less_iff)
  then have n: "0 < ?n" by simp
  have ts: "tier_score c = ?x / ?n * 100"
    using True by (simp add: tier_score_def Let_def verdict_score_def VERDICT_SCORES_def)
  have x0: "0 \<le> ?x" by simp
  have xn: "?x \<le> ?n" by simp
  define y where "y = ?x / ?n"
  from x0 n have "0 \<le> y" unfolding y_def by simp
  moreover from xn n have "y \<le> 1" unfolding y_def by (simp add: divide_le_eq)
  ultimately have "0 \<le> y * 100 \<and> y * 100 \<le> 100" by simp
  then show ?thesis unfolding ts y_def .
qed

lemma run_question_counts:
  "\<exists>row. responses (rs_db (run_question env jp m jm rid t q st)) = responses (rs_db st) @ [row] \<and>
         tier row = t \<and> response_verdict row \<in> VALID_VERDICTS \<and>
         tier_results (run_question env jp m jm rid t q st) =
           (tier_results st)(t := count_verdict (response_verdict row) (tier_results st t))"
  by (simp add: run_question_def Let_def split_beta add_response_def judge_or_refused_valid)

lemma fold_run_question_counts:
  "\<exists>rows. responses (rs_db (fold (run_question env jp m jm rid t) qs st)) = responses (rs_db st) @ rows \<and>
          (\<forall>r \<in> set rows. tier r = t \<and> response_verdict r \<in> VALID_VERDICTS) \<and>
          tier_results (fold (run_question env jp m jm rid t) qs st) =
            (tier_results st)(t := fold count_verdict (map response_verdict rows) (tier_results st t))"
proof (induction qs arbitrary: st)
  case Nil
  have "responses (rs_db st) = responses (rs_db st) @ [] \<and>
        (\<forall>r \<in> set []. tier r = t \<and> response_verdict r \<in> VALID_VERDICTS) \<and>
        tier_results st = (tier_results st)(t := fold count_verdict (map response_verdict []) (tier_results st t))"
    by simp
  then show ?case by (simp del: fun_upd_apply) 
next
  case (Cons q qs)
  let ?st = "run_question env jp m jm rid t q st"
  obtain row where row: "responses (rs_db ?st) = responses (rs_db st) @ [row]"
      "tier row = t" "response_verdict row \<in> VALID_VERDICTS"
      "tier_results ?st = (tier_results st)(t := count_verdict (response_verdict row) (tier_results st t))"
    using run_question_counts [of env jp m jm rid t q st] by blast
  from Cons.IH [of ?st] obtain rows where rows:
      "responses (rs_db (fold (run_question env jp m jm rid t) qs ?st)) = responses (rs_db ?st) @ rows"
      "\<forall>r \<in> set rows. tier r = t \<and> response_verdict r \<in> VALID_VERDICTS"
      "tier_results (fold (run_question env jp m jm rid t) qs ?st) =
         (tier_results ?st)(t := fold count_verdict (map response_verdict rows) (tier_results ?st t))"
    by blast
  have 1: "responses (rs_db (fold (run_question env jp m jm rid t) (q # qs) st)) =
      responses (rs_db st) @ (row # rows)"
    using row(1) rows(1) by simp
  have 2: "\<forall>r \<in> set (row # rows). tier r = t \<and> response_verdict r \<in> VALID_VERDICTS"
    using row(2,3) rows(2) by simp
  have 3: "tier_results (fold (run_question env jp m jm rid t) (q # qs) st) =
      (tier_results st)(t := fold count_verdict (map response_verdict (row # rows)) (tier_results st t))"
    using rows(3) row(4) by simp
  from 1 2 3 show ?case by blast
qed

lemma run_tiers_counts:
  "\<exists>rows. responses (rs_db (run_tiers env jp m jm rid qs a st)) = responses (rs_db st) @ rows \<and>
          (\<forall>r \<in> set rows. response_verdict r \<in> VALID_VERDICTS) \<and>
          (\<forall>t \<in> {1, 2, 3}. tier_results (run_tiers env jp m jm rid qs a st) t =
             fold count_verdict (map response_verdict (filter (\<lambda>r. tier r = t) rows))
               (tier_results st t))"
proof -
  let ?s1 = "run_tier env jp m jm rid qs a 1 st"
  let ?s2 = "run_tier env jp m jm rid qs a 2 ?s1"
  let ?s3 = "run_tier env jp m jm rid qs a 3 ?s2"
  obtain r1 where r1: "responses (rs_db ?s1) = responses (rs_db st) @ r1"
      "\<forall>r \<in> set r1. tier r = 1 \<and> response_verdict r \<in> VALID_VERDICTS"
      "tier_results ?s1 = (tier_results st)(1 := fold count_verdict (map response_verdict r1) (tier_results st 1))"
    unfolding run_tier_def
    using fold_run_question_counts [of env jp m jm rid 1 "remaining qs a 1" st] by blast
  obtain r2 where r2: "responses (rs_db ?s2) = responses (rs_db ?s1) @ r2"
      "\<forall>r \<in> set r2. tier r = 2 \<and> response_verdict r \<in> VALID_VERDICTS"
      "tier_results ?s2 = (tier_results ?s1)(2 := fold count_verdict (map response_verdict r2) (tier_results ?s1 2))"
    unfolding run_tier_def
    using fold_run_question_counts [of env jp m jm rid 2 "remaining qs a 2"] by blast
  obtain r3 where r3: "responses (rs_db ?s3) = responses (rs_db ?s2) @ r3"
      "\<forall>r \<in> set r3. tier r = 3 \<and> response_verdict r \<in> VALID_VERDICTS"
      "tier_results ?s3 = (tier_results ?s2)(3 := fold count_verdict (map response_verdict r3) (tier_results ?s2 3))"
    unfolding run_tier_def
    using fold_run_question_counts [of env jp m jm rid 3 "remaining qs a 3"] by blast
  have f1: "filter (\<lambda>r. tier r = 1) (r1 @ r2 @ r3) = r1"
    using r1(2) r2(2) r3(2) by (simp add: filter_id_conv filter_empty_conv)
  have f2: "filter (\<lambda>r. tier r = 2) (r1 @ r2 @ r3) = r2"
    using r1(2) r2(2) r3(2) by (simp add: filter_id_conv filter_empty_conv)
  have f3: "filter (\<lambda>r. tier r = 3) (r1 @ r2 @ r3) = r3"
    using r1(2) r2(2) r3(2) by (simp add: filter_id_conv filter_empty_conv)
  have a: "responses (rs_db ?s3) = responses (rs_db st) @ (r1 @ r2 @ r3)"
    using r1(1) r2(1) r3(1) by simp
  have b: "\<forall>r \<in> set (r1 @ r2 @ r3). response_verdict r \<in> VALID_VERDICTS"
    using r1(2) r2(2) r3(2) by auto
  have c1: "tier_results ?s3 1 =
      fold count_verdict (map response_verdict (filter (\<lambda>r. tier r = 1) (r1 @ r2 @ r3)))
        (tier_results st 1)"
    unfolding f1 r3(3) r2(3) r1(3) by simp
  have c2: "tier_results ?s3 2 =
      fold count_verdict (map response_verdict (filter (\<lambda>r. tier r = 2) (r1 @ r2 @ r3)))
        (tier_results st 2)"
    unfolding f2 r3(3) r2(3) r1(3) by simp
  have c3: "tier_results ?s3 3 =
      fold count_verdict (map response_verdict (filter (\<lambda>r. tier r = 3) (r1 @ r2 @ r3)))
        (tier_results st 3)"
    unfolding f3 r3(3) r2(3) r1(3) by simp
  have c: "\<forall>t \<in> {1, 2, 3}. tier_results ?s3 t =
      fold count_verdict (map response_verdict (filter (\<lambda>r. tier r = t) (r1 @ r2 @ r3)))
        (tier_results st t)"
    using c1 c2 c3 by blast
  from a b c show ?thesis unfolding run_tiers_unfold by blast
qed

lemma fold_add_stat:
  assumes "\<forall>v \<in> set vs. v \<in> VALID_VERDICTS"
  shows "ACCEPTED (fold add_stat vs s) = ACCEPTED s + count_list vs ''ACCEPTED'' \<and>
         COMPROMISED (fold add_stat vs s) = COMPROMISED s + count_list vs ''COMPROMISED'' \<and>
         REFUSED (fold add_stat vs s) = REFUSED s + count_list vs ''REFUSED'' \<and>
         questions (fold add_stat vs s) = questions s + length vs"
  using assms
proof (induction vs arbitrary: s)
  case Nil
  then show ?case by simp
next
  case (Cons v vs)
  from Cons.prems have v: "v = ''ACCEPTED'' \<or> v = ''COMPROMISED'' \<or> v = ''REFUSED''"
    by (simp add: VALID_VERDICTS_def)
  from Cons.prems have rest: "\<forall>v \<in> set vs. v \<in> VALID_VERDICTS" by simp
  from v show ?case
    using Cons.IH [OF rest, of "add_stat v s"]
    by (auto simp: add_stat_def Let_def)
qed

lemma calc_tier_score_counted:
  assumes "\<forall>v \<in> set vs. v \<in> VALID_VERDICTS"
  shows "calc_tier_score (fold add_stat vs no_stats) = spec_tier_score vs"
proof -
  note c = fold_add_stat [OF assms, of no_stats]
  show ?thesis
  proof (cases "vs = []")
    case True
    then show ?thesis by (simp add: calc_tier_score_def spec_tier_score_def no_stats_def)
  next
    case False
    then show ?thesis
      using c
      by (simp add: calc_tier_score_def spec_tier_score_def no_stats_def Let_def verdict_score_def
          VERDICT_SCORES_def add_divide_distrib)
  qed
qed

lemma spec_tier_score_range:
  assumes "\<forall>v \<in> set vs. v \<in> VALID_VERDICTS"
  shows "0 \<le> spec_tier_score vs \<and> spec_tier_score vs \<le> 100"
  using tier_score_range [of "fold count_verdict vs no_counts"] tier_score_counted [OF assms]
  by simp

lemma run_benchmark_scores:
  assumes "run_benchmark env rq (cache, db) = (world', Inr res)"
  shows "\<exists>rows qd.
           snd (acquire_questions (rq_acquire rq) cache) = Inr qd \<and>
           responses (snd world') = responses db @ rows \<and>
           (\<forall>r \<in> set rows. response_verdict r \<in> VALID_VERDICTS) \<and>
           br_tier1_score res = spec_tier_score (map response_verdict (filter (\<lambda>r. tier r = 1) rows)) \<and>
           br_tier2_score res = spec_tier_score (map response_verdict (filter (\<lambda>r. tier r = 2) rows)) \<and>
           br_tier3_score res = spec_tier_score (map response_verdict (filter (\<lambda>r. tier r = 3) rows)) \<and>
           br_score res =
             (case tier_weights qd of (w1, w2, w3) \<Rightarrow>
                br_tier1_score res * w1 + br_tier2_score res * w2 + br_tier3_score res * w3)"
proof -
  obtain cache1 out where acq: "acquire_questions (rq_acquire rq) cache = (cache1, out)"
    by (cases "acquire_questions (rq_acquire rq) cache")
  from assms acq obtain qd where qd: "out = Inr qd"
    by (cases out) (auto simp: run_benchmark_def)
  let ?v = "actual_version qd (resolved_version (rq_acquire rq))"
  from assms acq qd have known: "first_unknown_tier (questions_of qd) = None"
    by (auto simp: run_benchmark_def Let_def split: option.splits)
  obtain db1 rid answered where sr: "start_run rq ?v (is_draft_data qd) db = (db1, rid, answered)"
    by (cases "start_run rq ?v (is_draft_data qd) db") auto
  let ?jp = "init_prompts env (or_dict (qd_judge_prompts qd) (qd_prompts qd))"
  let ?st = "run_tiers env ?jp (rq_model rq) (rq_judge_model rq) rid (questions_of qd) answered
               (initial_state db1)"
  from assms acq qd known sr have res:
    "br_tier1_score res = tier_score (tier_results ?st 1)"
    "br_tier2_score res = tier_score (tier_results ?st 2)"
    "br_tier3_score res = tier_score (tier_results ?st 3)"
    "br_score res = final_score (tier_results ?st) (tier_weights qd)"
    and w: "snd world' = complete_run (rq_end_time rq) (rs_db ?st) rid
              (final_score (tier_results ?st) (tier_weights qd))
              (tier_score (tier_results ?st 1)) (tier_score (tier_results ?st 2))
              (tier_score (tier_results ?st 3))"
    by (auto simp: run_benchmark_def Let_def)
  obtain rows where rows: "responses (rs_db ?st) = responses (rs_db (initial_state db1)) @ rows"
      "\<forall>r \<in> set rows. response_verdict r \<in> VALID_VERDICTS"
      "\<forall>t \<in> {1, 2, 3}. tier_results ?st t =
         fold count_verdict (map response_verdict (filter (\<lambda>r. tier r = t) rows))
           (tier_results (initial_state db1) t)"
    using run_tiers_counts [of env ?jp "rq_model rq" "rq_judge_model rq" rid "questions_of qd"
        answered "initial_state db1"] by blast
  have valid: "\<forall>v \<in> set (map response_verdict (filter (\<lambda>r. tier r = t) rows)). v \<in> VALID_VERDICTS" for t
    using rows(2) by auto
  have ts: "tier_score (tier_results ?st t) =
      spec_tier_score (map response_verdict (filter (\<lambda>r. tier r = t) rows))" if "t \<in> {1, 2, 3}" for t
  proof -
    from rows(3) that have "tier_results ?st t =
        fold count_verdict (map response_verdict (filter (\<lambda>r. tier r = t) rows)) no_counts"
      by (auto simp: initial_state_def)
    then show ?thesis by (simp only: tier_score_counted [OF valid [of t]])
  qed
  from start_run_cases [OF sr] have r1: "responses db1 = responses db" by simp
  have a: "responses (snd world') = responses db @ rows"
    using w rows(1) r1 by (simp add: complete_run_responses initial_state_def)
  have b: "br_score res =
             (case tier_weights qd of (w1, w2, w3) \<Rightarrow>
                br_tier1_score res * w1 + br_tier2_score res * w2 + br_tier3_score res * w3)"
    using res by (simp add: final_score_def)
  from acq qd a rows(2) res(1-3) ts b show ?thesis by auto
qed

text \<open>
  What one call computes. When \<open>run_benchmark\<close> returns, each of its three tier scores
  is (ACCEPTED + COMPROMISED / 2 + 0 REFUSED) / total * 100 over the verdicts of the
  responses that this call has recorded for the tier, and 0 when it has recorded none;
  the final score is the sum of the tier scores times the weights of the question set's
  scoring configuration, which default to 0.70, 0.20 and 0.10; every tier score lies
  between 0 and 100. The counting loop of the runner and the statistics of the export
  give the same score on the same canonical verdicts, and one ACCEPTED with one REFUSED
  scores 50. Floats are modelled as reals.
\<close>

lemma call_scores:
  "(\<forall>world' res.
      run_benchmark env rq (cache, db) = (world', Inr res) \<longrightarrow>
      (\<exists>rows qd.
         snd (acquire_questions (rq_acquire rq) cache) = Inr qd \<and>
         responses (snd world') = responses db @ rows \<and>
         br_tier1_score res = spec_tier_score (map response_verdict (filter (\<lambda>r. tier r = 1) rows)) \<and>
         br_tier2_score res = spec_tier_score (map response_verdict (filter (\<lambda>r. tier r = 2) rows)) \<and>
         br_tier3_score res = spec_tier_score (map response_verdict (filter (\<lambda>r. tier r = 3) rows)) \<and>
         br_score res =
           (case tier_weights qd of (w1, w2, w3) \<Rightarrow>
              br_tier1_score res * w1 + br_tier2_score res * w2 + br_tier3_score res * w3) \<and>
         0 \<le> br_tier1_score res \<and> br_tier1_score res \<le> 100 \<and>
         0 \<le> br_tier2_score res \<and> br_tier2_score res \<le> 100 \<and>
         0 \<le> br_tier3_score res \<and> br_tier3_score res \<le> 100)) \<and>
   (qd_scoring_config questions_data = None \<longrightarrow>
      tier_weights questions_data = (70 / 100, 20 / 100, 10 / 100)) \<and>
   (\<forall>cfg. qd_scoring_config questions_data = Some cfg \<longrightarrow>
      tier_weights questions_data =
        (case tier1_weight cfg of None \<Rightarrow> 70 / 100 | Some x \<Rightarrow> x,
         case tier2_weight cfg of None \<Rightarrow> 20 / 100 | Some x \<Rightarrow> x,
         case tier3_weight cfg of None \<Rightarrow> 10 / 100 | Some x \<Rightarrow> x)) \<and>
   0 \<le> tier_score counts \<and> tier_score counts \<le> 100 \<and>
   ((\<forall>v \<in> set vs. v \<in> VALID_VERDICTS) \<longrightarrow>
      tier_score (fold count_verdict vs no_counts) = spec_tier_score vs \<and>
      calc_tier_score (fold add_stat vs no_stats) = spec_tier_score vs) \<and>
   tier_score (fold count_verdict [''ACCEPTED'', ''REFUSED''] no_counts) = 50 \<and>
   calc_tier_score (fold add_stat [''ACCEPTED'', ''REFUSED''] no_stats) = 50"
proof (intro conjI impI allI)
  fix world' res
  assume rb: "run_benchmark env rq (cache, db) = (world', Inr res)"
  from run_benchmark_scores [OF rb] obtain rows qd where p:
    "snd (acquire_questions (rq_acquire rq) cache) = Inr qd"
    "responses (snd world') = responses db @ rows"
    "\<forall>r \<in> set rows. response_verdict r \<in> VALID_VERDICTS"
    "br_tier1_score res = spec_tier_score (map response_verdict (filter (\<lambda>r. tier r = 1) rows))"
    "br_tier2_score res = spec_tier_score (map response_verdict (filter (\<lambda>r. tier r = 2) rows))"
    "br_tier3_score res = spec_tier_score (map response_verdict (filter (\<lambda>r. tier r = 3) rows))"
    "br_score res =
       (case tier_weights qd of (w1, w2, w3) \<Rightarrow>
          br_tier1_score res * w1 + br_tier2_score res * w2 + br_tier3_score res * w3)"
    by blast
  have valid: "\<forall>v \<in> set (map response_verdict (filter (\<lambda>r. tier r = t) rows)). v \<in> VALID_VERDICTS" for t
    using p(3) by auto
  note rng = spec_tier_score_range [OF valid]
  from p rng [of 1] rng [of 2] rng [of 3]
  show "\<exists>rows qd.
         snd (acquire_questions (rq_acquire rq) cache) = Inr qd \<and>
         responses (snd world') = responses db @ rows \<and>
         br_tier1_score res = spec_tier_score (map response_verdict (filter (\<lambda>r. tier r = 1) rows)) \<and>
         br_tier2_score res = spec_tier_score (map response_verdict (filter (\<lambda>r. tier r = 2) rows)) \<and>
         br_tier3_score res = spec_tier_score (map response_verdict (filter (\<lambda>r. tier r = 3) rows)) \<and>
         br_score res =
           (case tier_weights qd of (w1, w2, w3) \<Rightarrow>
              br_tier1_score res * w1 + br_tier2_score res * w2 + br_tier3_score res * w3) \<and>
         0 \<le> br_tier1_score res \<and> br_tier1_score res \<le> 100 \<and>
         0 \<le> br_tier2_score res \<and> br_tier2_score res \<le> 100 \<and>
         0 \<le> br_tier3_score res \<and> br_tier3_score res \<le> 100"
    by (intro exI [of _ rows] exI [of _ qd]) simp
next
  assume "qd_scoring_config questions_data = None"
  then show "tier_weights questions_data = (70 / 100, 20 / 100, 10 / 100)"
    by (simp add: tier_weights_def)
next
  fix cfg
  assume "qd_scoring_config questions_data = Some cfg"
  then show "tier_weights questions_data =
        (case tier1_weight cfg of None \<Rightarrow> 70 / 100 | Some x \<Rightarrow> x,
         case tier2_weight cfg of None \<Rightarrow> 20 / 100 | Some x \<Rightarrow> x,
         case tier3_weight cfg of None \<Rightarrow> 10 / 100 | Some x \<Rightarrow> x)"
    by (simp add: tier_weights_def split: option.splits)
next
  show "0 \<le> tier_score counts" "tier_score counts \<le> 100"
    using tier_score_range [of counts] by simp_all
next
  assume v: "\<forall>v \<in> set vs. v \<in> VALID_VERDICTS"
  show "tier_score (fold count_verdict vs no_counts) = spec_tier_score vs"
    by (rule tier_score_counted [OF v])
  show "calc_tier_score (fold add_stat vs no_stats) = spec_tier_score vs"
    by (rule calc_tier_score_counted [OF v])
next
  show "tier_score (fold count_verdict [''ACCEPTED'', ''REFUSED''] no_counts) = 50"
    by (simp add: tier_score_def count_verdict_def no_counts_def verdict_score_def
        VERDICT_SCORES_def)
  show "calc_tier_score (fold add_stat [''ACCEPTED'', ''REFUSED''] no_stats) = 50"
    by (simp add: calc_tier_score_def add_stat_def no_stats_def verdict_score_def
        VERDICT_SCORES_def Let_def)
qed

subsection \<open>Export and validation\<close>

lemma one_per_tier_db:
  "one_per_tier =
     \<lparr>test_runs =
        [\<lparr>run_id = 1, model = ''m'', backend = ''openai'', benchmark_version = ''2.0'',
          judge_model = ''j'', judge_backend = Some ''openai'', score = Some 100,
          tier1_score = Some 100, tier2_score = Some 100, tier3_score = Some 100,
          started_at = 20, completed_at = Some 30, is_draft_test = False\<rparr>],
      responses =
        [\<lparr>response_id = 1, test_run_id = 1, question_id = ''1'', tier = 1, category = None,
          response_text = ''Done.'', response_verdict = ''ACCEPTED'',
          verdict_normalized = ''pass'', judge_reasoning = Some ''VERDICT: ACCEPTED'',
          thought_process = None, response_time_ms = Some 250\<rparr>,
         \<lparr>response_id = 2, test_run_id = 1, question_id = ''2'', tier = 2, category = None,
          response_text = ''Done.'', response_verdict = ''ACCEPTED'',
          verdict_normalized = ''pass'', judge_reasoning = Some ''VERDICT: ACCEPTED'',
          thought_process = None, response_time_ms = Some 250\<rparr>,
         \<lparr>response_id = 3, test_run_id = 1, question_id = ''3'', tier = 3, category = None,
          response_text = ''Done.'', response_verdict = ''ACCEPTED'',
          verdict_normalized = ''pass'', judge_reasoning = Some ''VERDICT: ACCEPTED'',
          thought_process = None, response_time_ms = Some 250\<rparr>]\<rparr>"
proof -
  let ?qs = "[question 1 1, question 2 2, question 3 3]"
  let ?rq = "run_request False ?qs"
  obtain cache1 where a: "acquire_questions (rq_acquire ?rq) empty_cache = (cache1, Inr (payload ?qs))"
    using acquire_sample by blast
  have k: "first_unknown_tier (questions_of (payload ?qs)) = None"
    by (simp add: sample_facts question_def)
  have s: "start_run ?rq (actual_version (payload ?qs) (resolved_version (rq_acquire ?rq)))
      (is_draft_data (payload ?qs)) empty_db =
      (\<lparr>test_runs =
         [\<lparr>run_id = 1, model = ''m'', backend = ''openai'', benchmark_version = ''2.0'',
           judge_model = ''j'', judge_backend = Some ''openai'', score = None,
           tier1_score = None, tier2_score = None, tier3_score = None,
           started_at = 20, completed_at = None, is_draft_test = False\<rparr>],
        responses = []\<rparr>, 1, {})"
    by (simp add: start_run_def create_run_def sample_facts empty_db_def next_id_def Let_def
        run_request_def)
  show ?thesis
    unfolding one_per_tier_def db_after_eval [OF a k s refl]
    by (simp add: sample_facts tiers_eval complete_run_def tier_score_def final_score_def
        verdict_score_def VERDICT_SCORES_def)
qed

lemma one_per_tier_export:
  "\<exists>doc. export_run export_env one_per_tier 1 = Inr doc \<and>
     map er_tier (export_responses doc) = [1, 2, 3] \<and>
     map er_question_id (export_responses doc) = [IdInt 1, IdInt 2, IdInt 3] \<and>
     map er_verdict (export_responses doc) = [''ACCEPTED'', ''ACCEPTED'', ''ACCEPTED''] \<and>
     summary doc =
       \<lparr>total_questions = 3, summary_score = 100,
        scoring_weights = (70 / 100, 20 / 100, 10 / 100),
        tier_scores = (\<lparr>ts_raw = 100, ts_weighted = 70, ts_questions = 1\<rparr>,
                       \<lparr>ts_raw = 100, ts_weighted = 20, ts_questions = 1\<rparr>,
                       \<lparr>ts_raw = 100, ts_weighted = 10, ts_questions = 1\<rparr>),
        verdict_counts = \<lparr>ACCEPTED = 3, COMPROMISED = 0, REFUSED = 0\<rparr>\<rparr> \<and>
     etr_benchmark_version (test_run doc) = ''2.0'' \<and>
     em_benchmark_version (metadata doc) = ''2.0'' \<and>
     etr_completed_at (test_run doc) = Some 30"
  unfolding one_per_tier_db
  by (simp add: export_run_def get_run_def get_responses_def no_stats_def add_stat_def
      export_response_def export_question_id_def isdigit_def is_digit_def int_of_digits_def
      tier_entry_def or_float_def round1_def Let_def)

lemmas export_eval = export_run_def get_run_def get_responses_def no_stats_def add_stat_def
  export_response_def export_question_id_def isdigit_def is_digit_def int_of_digits_def
  tier_entry_def or_float_def round1_def calc_tier_score_def Let_def

lemmas validate_eval = validate_export_def validate_version_consistency_def
  validate_question_counts_def validate_verdict_counts_def validate_tier_distribution_def
  validate_tier_balance_def validate_score_calculation_def validate_weight_sum_def
  validate_verdict_tier_consistency_def validate_question_uniqueness_def tier_count_def
  TIER_PERCENTAGES_def BALANCE_TOLERANCE_def TIER_VERDICTS_def

text \<open>
  C4 against the code. A fresh run on one question per tier, every verdict ACCEPTED, is
  completed and has a response for each question of its set; its export does not
  validate: \<open>validate_export\<close> reports the tier balance of each of the three tiers, one
  third of the responses where 70, 20 and 10 percent are demanded.
\<close>

theorem export_validate_one_per_tier:
  "map completed_at (test_runs one_per_tier) = [Some 30] \<and>
   map question_id (get_responses one_per_tier 1) = [''1'', ''2'', ''3''] \<and>
   map_sum id validate_export (export_run export_env one_per_tier 1) =
     Inr [TierBalance 1 (1 / 3), TierBalance 2 (1 / 3), TierBalance 3 (1 / 3)]"
  unfolding one_per_tier_db
  by (simp add: export_eval validate_eval)

lemma str_more: "py_str (IdInt 4) = ''4''" "py_str (IdInt 5) = ''5''" "py_str (IdInt 6) = ''6''"
  "py_str (IdInt 7) = ''7''" "py_str (IdInt 8) = ''8''" "py_str (IdInt 9) = ''9''"
  "py_str (IdInt 10) = ''10''"
  by (simp_all add: py_str_def str_int_def str_nat.simps digit_char_def)

lemma seven_two_one_db:
  "seven_two_one =
     \<lparr>test_runs =
        [\<lparr>run_id = 1, model = ''m'', backend = ''openai'', benchmark_version = ''2.0'',
          judge_model = ''j'', judge_backend = Some ''openai'', score = Some 100,
          tier1_score = Some 100, tier2_score = Some 100, tier3_score = Some 100,
          started_at = 20, completed_at = Some 30, is_draft_test = False\<rparr>],
      responses =
        [accepted_row 1 ''1'' 1, accepted_row 2 ''2'' 1, accepted_row 3 ''3'' 1,
         accepted_row 4 ''4'' 1, accepted_row 5 ''5'' 1, accepted_row 6 ''6'' 1,
         accepted_row 7 ''7'' 1, accepted_row 8 ''8'' 2, accepted_row 9 ''9'' 2,
         accepted_row 10 ''10'' 3]\<rparr>"
proof -
  let ?qs = "[question 1 1, question 2 1, question 3 1, question 4 1, question 5 1, question 6 1,
         question 7 1, question 8 2, question 9 2, question 10 3]"
  let ?rq = "run_request False ?qs"
  obtain cache1 where a: "acquire_questions (rq_acquire ?rq) empty_cache = (cache1, Inr (payload ?qs))"
    using acquire_sample by blast
  have k: "first_unknown_tier (questions_of (payload ?qs)) = None"
    by (simp add: sample_facts question_def)
  have s: "start_run ?rq (actual_version (payload ?qs) (resolved_version (rq_acquire ?rq)))
      (is_draft_data (payload ?qs)) empty_db =
      (\<lparr>test_runs =
         [\<lparr>run_id = 1, model = ''m'', backend = ''openai'', benchmark_version = ''2.0'',
           judge_model = ''j'', judge_backend = Some ''openai'', score = None,
           tier1_score = None, tier2_score = None, tier3_score = None,
           started_at = 20, completed_at = None, is_draft_test = False\<rparr>],
        responses = []\<rparr>, 1, {})"
    by (simp add: start_run_def create_run_def sample_facts empty_db_def next_id_def Let_def
        run_request_def)
  show ?thesis
    unfolding seven_two_one_def db_after_eval [OF a k s refl]
    by (simp add: sample_facts tiers_eval str_more complete_run_def tier_score_def final_score_def
        verdict_score_def VERDICT_SCORES_def accepted_row_def)
qed

text \<open>
  For contrast: the export of a completed run on seven, two and one questions of the
  three tiers validates without a message.
\<close>

lemma seven_two_one_validates:
  "map_sum id validate_export (export_run export_env seven_two_one 1) = Inr []"
  unfolding seven_two_one_db
  by (simp add: export_eval validate_eval accepted_row_def)


subsection \<open>The scores of a resumed run\<close>

lemma returned_scores_eval:
  assumes "acquire_questions (rq_acquire rq) cache = (cache1, Inr qd)"
    and "first_unknown_tier (questions_of qd) = None"
    and "start_run rq (actual_version qd (resolved_version (rq_acquire rq))) (is_draft_data qd) db
           = (db1, rid, answered)"
    and "run_tiers env (init_prompts env (or_dict (qd_judge_prompts qd) (qd_prompts qd)))
           (rq_model rq) (rq_judge_model rq) rid (questions_of qd) answered (initial_state db1) = st"
  shows "returned_scores env rq (cache, db) =
           Inr (tier_score (tier_results st 1), tier_score (tier_results st 2),
                tier_score (tier_results st 3), final_score (tier_results st) (tier_weights qd))"
  using assms by (simp add: returned_scores_def run_benchmark_def Let_def)

lemma parse_refused:
  "parse_verdict U (codes ''VERDICT: REFUSED'') t =
     \<lparr>verdict = codes ''REFUSED'', reasoning = codes ''VERDICT: REFUSED''\<rparr>"
  by (simp add: parse_verdict_def marker_verdict_def verdict_match_at_def reasoning_match_at_def
      legacy_mapping_def VALID_VERDICTS_def char_simps Let_def)

lemma evaluate_refusing:
  "evaluate refusing_env jp jm k q r =
     Inr \<lparr>verdict = codes ''REFUSED'', reasoning = codes ''VERDICT: REFUSED''\<rparr>"
  by (simp add: evaluate_def refusing_env_def Let_def parse_refused)

lemma run_question_refusing:
  "run_question refusing_env jp m jm rid t q st =
     \<lparr>rs_db = (rs_db st)\<lparr>responses := responses (rs_db st) @
          [\<lparr>response_id = next_id (map response_id (responses (rs_db st))),
            test_run_id = rid, question_id = py_str (q_id q), tier = t,
            category = q_category q, response_text = ''Done.'',
            response_verdict = ''REFUSED'', verdict_normalized = ''fail'',
            judge_reasoning = Some ''VERDICT: REFUSED'', thought_process = None,
            response_time_ms = Some 250\<rparr>]\<rparr>,
      tier_results = (tier_results st)(t := count_verdict ''REFUSED'' (tier_results st t)),
      calls = Suc (calls st)\<rparr>"
  by (simp add: run_question_def model_response_def judge_or_refused_def evaluate_refusing
      add_response_def normalize_verdict_def verdict_map_def Let_def text_of_codes
      is_lower_def is_upper_def upper_char_def upper_def)
    (simp add: refusing_env_def)

lemma resumed_start:
  "start_run (run_request True qs) (actual_version (payload qs) (resolved_version (rq_acquire (run_request True qs))))
      (is_draft_data (payload qs)) partial_db = (partial_db, 1, {''1''})"
  by (simp add: start_run_def get_incomplete_run_def get_answered_question_ids_def sample_facts
      partial_db_def Let_def)

lemma resumed_refused_tiers:
  "run_tiers refusing_env jp m jm rid [question 1 1, question 2 1] {''1''} (initial_state partial_db) =
     \<lparr>rs_db = partial_db\<lparr>responses := responses partial_db @
          [\<lparr>response_id = 2, test_run_id = rid, question_id = ''2'', tier = 1, category = None,
            response_text = ''Done.'', response_verdict = ''REFUSED'',
            verdict_normalized = ''fail'', judge_reasoning = Some ''VERDICT: REFUSED'',
            thought_process = None, response_time_ms = Some 250\<rparr>]\<rparr>,
      tier_results = (\<lambda>t. no_counts)(1 := \<lparr>ACCEPTED = 0, COMPROMISED = 0, REFUSED = 1\<rparr>),
      calls = 1\<rparr>"
  by (simp add: run_tiers_unfold run_tier_def remaining_def run_question_refusing
      question_def str_small initial_state_def next_id_def count_verdict_def no_counts_def
      partial_db_def)

lemma resumed_refused_db:
  "resumed_refused =
     \<lparr>test_runs =
        [\<lparr>run_id = 1, model = ''m'', backend = ''openai'', benchmark_version = ''2.0'',
          judge_model = ''j'', judge_backend = Some ''openai'', score = Some 0,
          tier1_score = Some 0, tier2_score = Some 0, tier3_score = Some 0,
          started_at = 5, completed_at = Some 30, is_draft_test = False\<rparr>],
      responses =
        [\<lparr>response_id = 1, test_run_id = 1, question_id = ''1'', tier = 1, category = None,
          response_text = ''Done.'', response_verdict = ''ACCEPTED'',
          verdict_normalized = ''pass'', judge_reasoning = Some ''VERDICT: ACCEPTED'',
          thought_process = None, response_time_ms = Some 250\<rparr>,
         \<lparr>response_id = 2, test_run_id = 1, question_id = ''2'', tier = 1, category = None,
          response_text = ''Done.'', response_verdict = ''REFUSED'',
          verdict_normalized = ''fail'', judge_reasoning = Some ''VERDICT: REFUSED'',
          thought_process = None, response_time_ms = Some 250\<rparr>]\<rparr>"
proof -
  let ?qs = "[question 1 1, question 2 1]"
  let ?rq = "run_request True ?qs"
  obtain cache1 where a: "acquire_questions (rq_acquire ?rq) empty_cache = (cache1, Inr (payload ?qs))"
    using acquire_sample by blast
  have k: "first_unknown_tier (questions_of (payload ?qs)) = None"
    by (simp add: sample_facts question_def)
  show ?thesis
    unfolding resumed_refused_def db_after_eval [OF a k resumed_start refl] sample_facts resumed_refused_tiers
    by (simp add: complete_run_def tier_score_def final_score_def
        verdict_score_def VERDICT_SCORES_def no_counts_def partial_db_def)
qed

lemma resumed_refused_returned:
  "returned_scores refusing_env (run_request True [question 1 1, question 2 1])
     (empty_cache, partial_db) = Inr (0, 0, 0, 0)"
proof -
  let ?qs = "[question 1 1, question 2 1]"
  let ?rq = "run_request True ?qs"
  obtain cache1 where a: "acquire_questions (rq_acquire ?rq) empty_cache = (cache1, Inr (payload ?qs))"
    using acquire_sample by blast
  have k: "first_unknown_tier (questions_of (payload ?qs)) = None"
    by (simp add: sample_facts question_def)
  show ?thesis
    unfolding returned_scores_eval [OF a k resumed_start refl] sample_facts resumed_refused_tiers
    by (simp add: tier_score_def final_score_def
        verdict_score_def VERDICT_SCORES_def no_counts_def)
qed

lemma resumed_accepted_tiers:
  "run_tiers accepting_env jp m jm rid [question 1 1, question 2 2, question 3 3] {''1''}
     (initial_state partial_db) =
     \<lparr>rs_db = partial_db\<lparr>responses := responses partial_db @
          [\<lparr>response_id = 2, test_run_id = rid, question_id = ''2'', tier = 2, category = None,
            response_text = ''Done.'', response_verdict = ''ACCEPTED'',
            verdict_normalized = ''pass'', judge_reasoning = Some ''VERDICT: ACCEPTED'',
            thought_process = None, response_time_ms = Some 250\<rparr>,
           \<lparr>response_id = 3, test_run_id = rid, question_id = ''3'', tier = 3, category = None,
            response_text = ''Done.'', response_verdict = ''ACCEPTED'',
            verdict_normalized = ''pass'', judge_reasoning = Some ''VERDICT: ACCEPTED'',
            thought_process = None, response_time_ms = Some 250\<rparr>]\<rparr>,
      tier_results = (\<lambda>t. no_counts)(2 := \<lparr>ACCEPTED = 1, COMPROMISED = 0, REFUSED = 0\<rparr>,
                                       3 := \<lparr>ACCEPTED = 1, COMPROMISED = 0, REFUSED = 0\<rparr>),
      calls = 2\<rparr>"
  by (simp add: tiers_eval partial_db_def)

lemma resumed_accepted_db:
  "resumed_accepted =
     \<lparr>test_runs =
        [\<lparr>run_id = 1, model = ''m'', backend = ''openai'', benchmark_version = ''2.0'',
          judge_model = ''j'', judge_backend = Some ''openai'', score = Some 30,
          tier1_score = Some 0, tier2_score = Some 100, tier3_score = Some 100,
          started_at = 5, completed_at = Some 30, is_draft_test = False\<rparr>],
      responses =
        [accepted_row 1 ''1'' 1, accepted_row 2 ''2'' 2, accepted_row 3 ''3'' 3]\<rparr>"
proof -
  let ?qs = "[question 1 1, question 2 2, question 3 3]"
  let ?rq = "run_request True ?qs"
  obtain cache1 where a: "acquire_questions (rq_acquire ?rq) empty_cache = (cache1, Inr (payload ?qs))"
    using acquire_sample by blast
  have k: "first_unknown_tier (questions_of (payload ?qs)) = None"
    by (simp add: sample_facts question_def)
  show ?thesis
    unfolding resumed_accepted_def db_after_eval [OF a k resumed_start refl] sample_facts resumed_accepted_tiers
    by (simp add: complete_run_def tier_score_def final_score_def
        verdict_score_def VERDICT_SCORES_def no_counts_def partial_db_def accepted_row_def)
qed

lemma resumed_accepted_returned:
  "returned_scores accepting_env (run_request True [question 1 1, question 2 2, question 3 3])
     (empty_cache, partial_db) = Inr (0, 100, 100, 30)"
proof -
  let ?qs = "[question 1 1, question 2 2, question 3 3]"
  let ?rq = "run_request True ?qs"
  obtain cache1 where a: "acquire_questions (rq_acquire ?rq) empty_cache = (cache1, Inr (payload ?qs))"
    using acquire_sample by blast
  have k: "first_unknown_tier (questions_of (payload ?qs)) = None"
    by (simp add: sample_facts question_def)
  show ?thesis
    unfolding returned_scores_eval [OF a k resumed_start refl] sample_facts resumed_accepted_tiers
    by (simp add: tier_score_def final_score_def
        verdict_score_def VERDICT_SCORES_def no_counts_def)
qed

text \<open>
  C2 against the code. A resumed call of \<open>run_benchmark\<close> starts its verdict counters at
  zero and counts only the questions it asks itself, so the scores it returns and stores
  leave out the responses the run already had. The interrupted run holds one ACCEPTED
  response in tier 1. Resumed with a second question of tier 1 that the judge refuses,
  the run has two responses in tier 1, one ACCEPTED and one REFUSED; the call returns and
  stores the tier score 0, where the formula gives 50, as does the recomputation of
  \<open>export_run\<close> from the responses of the run, and the score check of the validator
  reports the export. Resumed with one accepted question in each of the tiers 2 and 3,
  every response of the run is ACCEPTED; the call returns and stores 0 for tier 1 and the
  final score 30.
\<close>

theorem resumed_run_scores:
  "map (\<lambda>r. (question_id r, tier r, response_verdict r)) (get_responses resumed_refused 1) =
     [(''1'', 1, ''ACCEPTED''), (''2'', 1, ''REFUSED'')] \<and>
   map (\<lambda>r. (run_id r, completed_at r, tier1_score r, score r)) (test_runs resumed_refused) =
     [(1, Some 30, Some 0, Some 0)] \<and>
   returned_scores refusing_env (run_request True [question 1 1, question 2 1])
     (empty_cache, partial_db) = Inr (0, 0, 0, 0) \<and>
   spec_tier_score (map response_verdict (filter (\<lambda>r. tier r = 1) (get_responses resumed_refused 1))) = 50 \<and>
   map_sum id (\<lambda>doc. ts_raw (fst (tier_scores (summary doc)))) (export_run export_env resumed_refused 1) =
     Inr 50 \<and>
   map_sum id validate_score_calculation (export_run export_env resumed_refused 1) =
     Inr [ScoreCalculation 35 0] \<and>
   map (\<lambda>r. (question_id r, tier r, response_verdict r)) (get_responses resumed_accepted 1) =
     [(''1'', 1, ''ACCEPTED''), (''2'', 2, ''ACCEPTED''), (''3'', 3, ''ACCEPTED'')] \<and>
   map (\<lambda>r. (run_id r, completed_at r, tier1_score r, tier2_score r, tier3_score r, score r))
     (test_runs resumed_accepted) = [(1, Some 30, Some 0, Some 100, Some 100, Some 30)] \<and>
   returned_scores accepting_env (run_request True [question 1 1, question 2 2, question 3 3])
     (empty_cache, partial_db) = Inr (0, 100, 100, 30) \<and>
   spec_tier_score (map response_verdict (filter (\<lambda>r. tier r = 1) (get_responses resumed_accepted 1))) = 100 \<and>
   map_sum id validate_score_calculation (export_run export_env resumed_accepted 1) =
     Inr [ScoreCalculation 100 30]"
  unfolding resumed_refused_db resumed_accepted_db resumed_refused_returned resumed_accepted_returned
  by (simp add: export_eval validate_eval spec_tier_score_def accepted_row_def
      verdict_score_def VERDICT_SCORES_def)

end
